theory Spec2Isabelle
  imports Main "HOL-Library.Word"
begin

section \<open>Values, transactions and frames\<close>

text \<open>
  The contracts of the repository are PyTeal approval programs. A PyTeal program is an
  expression tree built from combinators (\<open>Seq\<close>, \<open>Assert\<close>, \<open>App.globalPut\<close>, ...)
  that the Algorand virtual machine evaluates against one application call. Each
  combinator the sources use is defined below as a HOL function, so that a handler of
  the source is transcribed statement by statement.

  A value is a 64-bit unsigned integer or a byte string. A key that was never written
  reads as the integer 0.
\<close>

type_synonym bytes = string
type_synonym uint64 = "64 word"

datatype tval = Uint uint64 | Bytes bytes

type_synonym kv = "bytes \<Rightarrow> tval option"

text \<open>
  The sources reject a call only through \<open>Assert\<close>, \<open>Return(Int(0))\<close> and the
  machine's own panics. An \<open>Assert\<close> carries no name in the source; the model tags each
  one with the entry of the error taxonomy it implements, so that a failure tells
  which assertion fired. The last six constructors are the machine's panics:
  operands of different types, 64-bit overflow or underflow, an argument index past
  the argument list, \<open>Btoi\<close> of more than eight bytes, a rejecting \<open>Return\<close>, and a
  \<open>Cond\<close> none of whose branches applies.
\<close>

datatype error =
    InvalidArgumentCount | DuplicateId | NotFound | InvalidAmount | InvalidFillAmount
  | InvalidTimelock | NotYetExpired | Expired | HashMismatch | AlreadyFinalized
  | AlreadySet | Unauthorized
  | TypeMismatch | Overflow | ArgOutOfRange | BtoiTooLong | Rejected | NoBranch
  | NoInnerTxn

record txn =
  sender :: bytes
  application_args :: "bytes list"
  application_id :: uint64
  on_completion :: uint64
  latest_timestamp :: uint64
  current_application_address :: bytes

text \<open>
  An inner payment as the program submits it: the amount and the receiver, as the
  field expressions evaluated. Funding and validating the payment is the ledger's
  business and is not part of an approval program.
\<close>

datatype inner_txn = Pay tval tval

datatype outcome = Approved | Failed error

text \<open>
  The frame of one evaluation: the call, the application's global state, the local
  state of every account, the scratch slots, the inner transaction under
  construction, the inner transactions submitted so far, and whether the program has
  halted. A statement is a frame transformer that does nothing once the program has
  halted; an expression reads the frame and may panic.
\<close>

record frame =
  call :: txn
  globals :: kv
  locals :: "bytes \<Rightarrow> kv"
  scratch :: "string \<Rightarrow> tval"
  builder :: "inner_txn option"
  inner :: "inner_txn list"
  halted :: "outcome option"

type_synonym expr = "frame \<Rightarrow> error + tval"
type_synonym stmt = "frame \<Rightarrow> frame"

section \<open>Expressions\<close>

definition TInt :: "uint64 \<Rightarrow> expr" where
  "TInt n = (\<lambda>f. Inr (Uint n))"

definition TBytes :: "bytes \<Rightarrow> expr" where
  "TBytes b = (\<lambda>f. Inr (Bytes b))"

definition Txn_sender :: expr where
  "Txn_sender = (\<lambda>f. Inr (Bytes (sender (call f))))"

definition Txn_application_id :: expr where
  "Txn_application_id = (\<lambda>f. Inr (Uint (application_id (call f))))"

definition Txn_on_completion :: expr where
  "Txn_on_completion = (\<lambda>f. Inr (Uint (on_completion (call f))))"

definition Txn_application_args :: "nat \<Rightarrow> expr" where
  "Txn_application_args i = (\<lambda>f.
     if i < length (application_args (call f))
     then Inr (Bytes (application_args (call f) ! i))
     else Inl ArgOutOfRange)"

definition Txn_application_args_length :: expr where
  "Txn_application_args_length = (\<lambda>f. Inr (Uint (of_nat (length (application_args (call f))))))"

definition Global_latest_timestamp :: expr where
  "Global_latest_timestamp = (\<lambda>f. Inr (Uint (latest_timestamp (call f))))"

definition Global_current_application_address :: expr where
  "Global_current_application_address = (\<lambda>f. Inr (Bytes (current_application_address (call f))))"

text \<open>The \<open>OnComplete\<close> codes of the machine.\<close>

definition OnComplete_OptIn :: expr where "OnComplete_OptIn = TInt 1"
definition OnComplete_CloseOut :: expr where "OnComplete_CloseOut = TInt 2"
definition OnComplete_UpdateApplication :: expr where "OnComplete_UpdateApplication = TInt 4"
definition OnComplete_DeleteApplication :: expr where "OnComplete_DeleteApplication = TInt 5"

definition kv_get :: "kv \<Rightarrow> bytes \<Rightarrow> tval" where
  "kv_get m k = (case m k of None \<Rightarrow> Uint 0 | Some v \<Rightarrow> v)"

definition App_globalGet :: "expr \<Rightarrow> expr" where
  "App_globalGet k = (\<lambda>f.
     case k f of
       Inl e \<Rightarrow> Inl e
     | Inr (Uint n) \<Rightarrow> Inl TypeMismatch
     | Inr (Bytes b) \<Rightarrow> Inr (kv_get (globals f) b))"

definition App_localGet :: "expr \<Rightarrow> expr \<Rightarrow> expr" where
  "App_localGet a k = (\<lambda>f.
     case a f of
       Inl e \<Rightarrow> Inl e
     | Inr (Uint n) \<Rightarrow> Inl TypeMismatch
     | Inr (Bytes acct) \<Rightarrow>
         (case k f of
            Inl e \<Rightarrow> Inl e
          | Inr (Uint n) \<Rightarrow> Inl TypeMismatch
          | Inr (Bytes b) \<Rightarrow> Inr (kv_get (locals f acct) b)))"

definition load :: "string \<Rightarrow> expr" where
  "load v = (\<lambda>f. Inr (scratch f v))"

text \<open>Arithmetic and comparison on two integers; a byte-string operand panics.\<close>

definition uint_op :: "(uint64 \<Rightarrow> uint64 \<Rightarrow> error + tval) \<Rightarrow> expr \<Rightarrow> expr \<Rightarrow> expr" where
  "uint_op g a b = (\<lambda>f.
     case a f of
       Inl e \<Rightarrow> Inl e
     | Inr (Bytes x) \<Rightarrow> Inl TypeMismatch
     | Inr (Uint x) \<Rightarrow>
         (case b f of
            Inl e \<Rightarrow> Inl e
          | Inr (Bytes y) \<Rightarrow> Inl TypeMismatch
          | Inr (Uint y) \<Rightarrow> g x y))"

definition truth :: "bool \<Rightarrow> tval" where
  "truth c = Uint (if c then 1 else 0)"

definition Add :: "expr \<Rightarrow> expr \<Rightarrow> expr" where
  "Add = uint_op (\<lambda>x y. if unat x + unat y < 2 ^ 64 then Inr (Uint (x + y)) else Inl Overflow)"

definition Minus :: "expr \<Rightarrow> expr \<Rightarrow> expr" where
  "Minus = uint_op (\<lambda>x y. if y \<le> x then Inr (Uint (x - y)) else Inl Overflow)"

definition Lt :: "expr \<Rightarrow> expr \<Rightarrow> expr" where
  "Lt = uint_op (\<lambda>x y. Inr (truth (x < y)))"

definition Gt :: "expr \<Rightarrow> expr \<Rightarrow> expr" where
  "Gt = uint_op (\<lambda>x y. Inr (truth (x > y)))"

definition Le :: "expr \<Rightarrow> expr \<Rightarrow> expr" where
  "Le = uint_op (\<lambda>x y. Inr (truth (x \<le> y)))"

definition Ge :: "expr \<Rightarrow> expr \<Rightarrow> expr" where
  "Ge = uint_op (\<lambda>x y. Inr (truth (x \<ge> y)))"

definition Or :: "expr \<Rightarrow> expr \<Rightarrow> expr" where
  "Or = uint_op (\<lambda>x y. Inr (truth (x \<noteq> 0 \<or> y \<noteq> 0)))"

text \<open>Equality compares two values of the same type and panics otherwise.\<close>

definition Eq :: "expr \<Rightarrow> expr \<Rightarrow> expr" where
  "Eq a b = (\<lambda>f.
     case a f of
       Inl e \<Rightarrow> Inl e
     | Inr (Uint x) \<Rightarrow>
         (case b f of
            Inl e \<Rightarrow> Inl e
          | Inr (Uint y) \<Rightarrow> Inr (truth (x = y))
          | Inr (Bytes y) \<Rightarrow> Inl TypeMismatch)
     | Inr (Bytes x) \<Rightarrow>
         (case b f of
            Inl e \<Rightarrow> Inl e
          | Inr (Uint y) \<Rightarrow> Inl TypeMismatch
          | Inr (Bytes y) \<Rightarrow> Inr (truth (x = y))))"

text \<open>\<open>Btoi\<close> reads at most eight bytes as a big-endian integer.\<close>

definition btoi :: "bytes \<Rightarrow> uint64" where
  "btoi bs = foldl (\<lambda>acc b. acc * 256 + of_char b) 0 bs"

definition Btoi :: "expr \<Rightarrow> expr" where
  "Btoi a = (\<lambda>f.
     case a f of
       Inl e \<Rightarrow> Inl e
     | Inr (Uint x) \<Rightarrow> Inl TypeMismatch
     | Inr (Bytes b) \<Rightarrow> if length b \<le> 8 then Inr (Uint (btoi b)) else Inl BtoiTooLong)"

text \<open>
  \<open>Sha256\<close> is an opcode of the machine, not code of the repository. The digest
  function is a parameter \<open>H\<close> of every program that hashes.
\<close>

definition Sha256 :: "(bytes \<Rightarrow> bytes) \<Rightarrow> expr \<Rightarrow> expr" where
  "Sha256 H a = (\<lambda>f.
     case a f of
       Inl e \<Rightarrow> Inl e
     | Inr (Uint x) \<Rightarrow> Inl TypeMismatch
     | Inr (Bytes b) \<Rightarrow> Inr (Bytes (H b)))"

section \<open>Statements\<close>

definition fail :: "error \<Rightarrow> stmt" where
  "fail e f = f\<lparr>halted := Some (Failed e)\<rparr>"

text \<open>
  The condition of an \<open>Assert\<close>, an \<open>If\<close> or a \<open>Cond\<close> branch: \<open>Inr True\<close> for a
  non-zero integer, \<open>Inr False\<close> for zero, a panic for a byte string.
\<close>

definition cond_of :: "expr \<Rightarrow> frame \<Rightarrow> error + bool" where
  "cond_of c f =
     (case c f of
        Inl e \<Rightarrow> Inl e
      | Inr (Bytes b) \<Rightarrow> Inl TypeMismatch
      | Inr (Uint n) \<Rightarrow> Inr (n \<noteq> 0))"

definition Assert :: "error \<Rightarrow> expr \<Rightarrow> stmt" where
  "Assert tag c = (\<lambda>f.
     if halted f \<noteq> None then f
     else case cond_of c f of
            Inl e \<Rightarrow> fail e f
          | Inr ok \<Rightarrow> if ok then f else fail tag f)"

definition Return :: "expr \<Rightarrow> stmt" where
  "Return c = (\<lambda>f.
     if halted f \<noteq> None then f
     else case cond_of c f of
            Inl e \<Rightarrow> fail e f
          | Inr ok \<Rightarrow> if ok then f\<lparr>halted := Some Approved\<rparr> else fail Rejected f)"

definition store :: "string \<Rightarrow> expr \<Rightarrow> stmt" where
  "store v a = (\<lambda>f.
     if halted f \<noteq> None then f
     else case a f of
            Inl e \<Rightarrow> fail e f
          | Inr x \<Rightarrow> f\<lparr>scratch := (scratch f)(v := x)\<rparr>)"

definition App_globalPut :: "expr \<Rightarrow> expr \<Rightarrow> stmt" where
  "App_globalPut k a = (\<lambda>f.
     if halted f \<noteq> None then f
     else case k f of
            Inl e \<Rightarrow> fail e f
          | Inr (Uint n) \<Rightarrow> fail TypeMismatch f
          | Inr (Bytes b) \<Rightarrow>
              (case a f of
                 Inl e \<Rightarrow> fail e f
               | Inr x \<Rightarrow> f\<lparr>globals := (globals f)(b \<mapsto> x)\<rparr>))"

definition App_localPut :: "expr \<Rightarrow> expr \<Rightarrow> expr \<Rightarrow> stmt" where
  "App_localPut a k v = (\<lambda>f.
     if halted f \<noteq> None then f
     else case a f of
            Inl e \<Rightarrow> fail e f
          | Inr (Uint n) \<Rightarrow> fail TypeMismatch f
          | Inr (Bytes acct) \<Rightarrow>
              (case k f of
                 Inl e \<Rightarrow> fail e f
               | Inr (Uint n) \<Rightarrow> fail TypeMismatch f
               | Inr (Bytes b) \<Rightarrow>
                   (case v f of
                      Inl e \<Rightarrow> fail e f
                    | Inr x \<Rightarrow> f\<lparr>locals := (locals f)(acct := (locals f acct)(b \<mapsto> x))\<rparr>)))"

text \<open>
  \<open>InnerTxnBuilder\<close>: \<open>Begin\<close> opens a payment, \<open>SetFields\<close> evaluates its amount and
  receiver, \<open>Submit\<close> issues it. Every inner transaction of the sources is a payment
  with exactly these two fields.
\<close>

definition InnerTxnBuilder_Begin :: stmt where
  "InnerTxnBuilder_Begin = (\<lambda>f.
     if halted f \<noteq> None then f else f\<lparr>builder := Some (Pay (Uint 0) (Bytes []))\<rparr>)"

definition InnerTxnBuilder_SetFields :: "expr \<Rightarrow> expr \<Rightarrow> stmt" where
  "InnerTxnBuilder_SetFields amt rcv = (\<lambda>f.
     if halted f \<noteq> None then f
     else case builder f of
            None \<Rightarrow> fail NoInnerTxn f
          | Some p \<Rightarrow>
              (case amt f of
                 Inl e \<Rightarrow> fail e f
               | Inr x \<Rightarrow>
                   (case rcv f of
                      Inl e \<Rightarrow> fail e f
                    | Inr r \<Rightarrow> f\<lparr>builder := Some (Pay x r)\<rparr>)))"

definition InnerTxnBuilder_Submit :: stmt where
  "InnerTxnBuilder_Submit = (\<lambda>f.
     if halted f \<noteq> None then f
     else case builder f of
            None \<Rightarrow> fail NoInnerTxn f
          | Some p \<Rightarrow> f\<lparr>builder := None, inner := inner f @ [p]\<rparr>)"

text \<open>A sequence runs its statements in order and stops at the first that halts.\<close>

fun Seq :: "stmt list \<Rightarrow> stmt" where
  "Seq [] f = f"
| "Seq (s # ss) f = (if halted f \<noteq> None then f else Seq ss (s f))"

definition If_then :: "expr \<Rightarrow> stmt \<Rightarrow> stmt" where
  "If_then c s = (\<lambda>f.
     if halted f \<noteq> None then f
     else case cond_of c f of
            Inl e \<Rightarrow> fail e f
          | Inr ok \<Rightarrow> if ok then s f else f)"

definition If_else :: "expr \<Rightarrow> stmt \<Rightarrow> stmt \<Rightarrow> stmt" where
  "If_else c s1 s2 = (\<lambda>f.
     if halted f \<noteq> None then f
     else case cond_of c f of
            Inl e \<Rightarrow> fail e f
          | Inr ok \<Rightarrow> if ok then s1 f else s2 f)"

fun Cond :: "(expr \<times> stmt) list \<Rightarrow> stmt" where
  "Cond [] f = (if halted f \<noteq> None then f else fail NoBranch f)"
| "Cond ((c, s) # cs) f =
     (if halted f \<noteq> None then f
      else case cond_of c f of
             Inl e \<Rightarrow> fail e f
           | Inr ok \<Rightarrow> if ok then s f else Cond cs f)"

section \<open>FixedAlgorandPartialFillBridge.py\<close>

text \<open>
  The partial-fill bridge keeps one swap in the application's global state. The
  handlers below are \<open>get_approval_program\<close> of
  \<open>FixedAlgorandPartialFillBridge\<close>, statement by statement; the scratch variables
  keep the names of the Python variables. \<open>AlgorandPartialFillBridge.py\<close> holds the
  same handlers (without \<open>handle_deposit\<close> and the default branch) written with
  assignment expressions in place of the scratch variables.
\<close>

definition total_deposited :: expr where "total_deposited = TBytes ''total_deposited''"
definition total_filled :: expr where "total_filled = TBytes ''total_filled''"
definition remaining_amount :: expr where "remaining_amount = TBytes ''remaining_amount''"
definition executed :: expr where "executed = TBytes ''executed''"
definition refunded :: expr where "refunded = TBytes ''refunded''"
definition hashlock :: expr where "hashlock = TBytes ''hashlock''"
definition timelock :: expr where "timelock = TBytes ''timelock''"
definition recipient :: expr where "recipient = TBytes ''recipient''"
definition maker :: expr where "maker = TBytes ''maker''"
definition partial_fills_enabled :: expr where "partial_fills_enabled = TBytes ''partial_fills_enabled''"

definition handle_creation :: stmt where
  "handle_creation = Seq [
     App_globalPut total_deposited (TInt 0),
     App_globalPut total_filled (TInt 0),
     App_globalPut remaining_amount (TInt 0),
     App_globalPut executed (TInt 0),
     App_globalPut refunded (TInt 0),
     App_globalPut partial_fills_enabled (TInt 0),
     Return (TInt 1)]"

definition handle_htlc_creation :: stmt where
  "handle_htlc_creation = Seq [
     store ''hashlock_var'' (Txn_application_args 1),
     store ''timelock_var'' (Btoi (Txn_application_args 2)),
     store ''recipient_var'' (Txn_application_args 3),
     store ''maker_var'' (Txn_application_args 4),
     store ''partial_enabled_var'' (Btoi (Txn_application_args 5)),
     App_globalPut hashlock (load ''hashlock_var''),
     App_globalPut timelock (load ''timelock_var''),
     App_globalPut recipient (load ''recipient_var''),
     App_globalPut maker (load ''maker_var''),
     App_globalPut partial_fills_enabled (load ''partial_enabled_var''),
     Return (TInt 1)]"

definition handle_partial_fill :: "(bytes \<Rightarrow> bytes) \<Rightarrow> stmt" where
  "handle_partial_fill H = Seq [
     store ''fill_amount_var'' (Btoi (Txn_application_args 1)),
     store ''secret_var'' (Txn_application_args 2),
     Assert AlreadyFinalized (Eq (App_globalGet executed) (TInt 0)),
     Assert AlreadyFinalized (Eq (App_globalGet refunded) (TInt 0)),
     store ''hashlock_stored'' (App_globalGet hashlock),
     store ''secret_hash'' (Sha256 H (load ''secret_var'')),
     Assert HashMismatch (Eq (load ''hashlock_stored'') (load ''secret_hash'')),
     store ''remaining_var'' (App_globalGet remaining_amount),
     Assert InvalidFillAmount (Gt (load ''fill_amount_var'') (TInt 0)),
     Assert InvalidFillAmount (Le (load ''fill_amount_var'') (load ''remaining_var'')),
     store ''total_filled_current'' (App_globalGet total_filled),
     store ''remaining_current'' (App_globalGet remaining_amount),
     App_globalPut total_filled (Add (load ''total_filled_current'') (load ''fill_amount_var'')),
     App_globalPut remaining_amount (Minus (load ''remaining_current'') (load ''fill_amount_var'')),
     If_then (Eq (Minus (load ''remaining_current'') (load ''fill_amount_var'')) (TInt 0))
       (App_globalPut executed (TInt 1)),
     Return (TInt 1)]"

definition handle_withdrawal :: stmt where
  "handle_withdrawal = Seq [
     Assert AlreadyFinalized (Eq (App_globalGet executed) (TInt 0)),
     Assert AlreadyFinalized (Eq (App_globalGet refunded) (TInt 0)),
     Assert Unauthorized (Eq Txn_sender (App_globalGet maker)),
     App_globalPut refunded (TInt 1),
     Return (TInt 1)]"

definition handle_public_claim :: "(bytes \<Rightarrow> bytes) \<Rightarrow> stmt" where
  "handle_public_claim H = Seq [
     store ''secret_var'' (Txn_application_args 1),
     Assert AlreadyFinalized (Eq (App_globalGet executed) (TInt 0)),
     Assert AlreadyFinalized (Eq (App_globalGet refunded) (TInt 0)),
     store ''hashlock_stored'' (App_globalGet hashlock),
     store ''secret_hash'' (Sha256 H (load ''secret_var'')),
     Assert HashMismatch (Eq (load ''hashlock_stored'') (load ''secret_hash'')),
     App_globalPut executed (TInt 1),
     Return (TInt 1)]"

definition handle_deposit :: stmt where
  "handle_deposit = Seq [
     store ''amount_var'' (Btoi (Txn_application_args 1)),
     store ''current_deposited'' (App_globalGet total_deposited),
     App_globalPut total_deposited (Add (load ''current_deposited'') (load ''amount_var'')),
     App_globalPut remaining_amount (Add (load ''current_deposited'') (load ''amount_var'')),
     Return (TInt 1)]"

definition partial_fill_program :: "(bytes \<Rightarrow> bytes) \<Rightarrow> stmt" where
  "partial_fill_program H = Cond [
     (Eq Txn_application_id (TInt 0), handle_creation),
     (Eq (Txn_application_args 0) (TBytes ''create_htlc''), handle_htlc_creation),
     (Eq (Txn_application_args 0) (TBytes ''partial_fill''), handle_partial_fill H),
     (Eq (Txn_application_args 0) (TBytes ''withdraw''), handle_withdrawal),
     (Eq (Txn_application_args 0) (TBytes ''public_claim''), handle_public_claim H),
     (Eq (Txn_application_args 0) (TBytes ''deposit''), handle_deposit),
     (TInt 1, Return (TInt 0))]"

section \<open>AlgorandHTLCBridgeFixed.py\<close>

text \<open>
  The full bridge keeps one swap per account, in the local state of the account that
  sent the \<open>create\<close> call. \<open>AlgorandHTLCBridge.py\<close> is the earlier text of the same
  contract: its handlers are the statements below with the arguments read one
  position earlier (argument 0 is at once the method name and the swap id there) and
  with assignment expressions in place of the scratch variables.
\<close>

definition creator_key :: expr where "creator_key = TBytes ''Creator''"
definition eth_chain_id_key :: expr where "eth_chain_id_key = TBytes ''EthChainId''"
definition eth_contract_key :: expr where "eth_contract_key = TBytes ''EthContract''"
definition min_timelock_key :: expr where "min_timelock_key = TBytes ''MinTimelock''"
definition max_timelock_key :: expr where "max_timelock_key = TBytes ''MaxTimelock''"

definition htlc_id_key :: expr where "htlc_id_key = TBytes ''HtlcId''"
definition initiator_key :: expr where "initiator_key = TBytes ''Initiator''"
definition recipient_key :: expr where "recipient_key = TBytes ''Recipient''"
definition amount_key :: expr where "amount_key = TBytes ''Amount''"
definition hashlock_key :: expr where "hashlock_key = TBytes ''Hashlock''"
definition timelock_key :: expr where "timelock_key = TBytes ''Timelock''"
definition eth_address_key :: expr where "eth_address_key = TBytes ''EthAddress''"
definition withdrawn_key :: expr where "withdrawn_key = TBytes ''Withdrawn''"
definition refunded_key :: expr where "refunded_key = TBytes ''Refunded''"

definition bridge_handle_creation :: stmt where
  "bridge_handle_creation = Seq [
     App_globalPut creator_key Txn_sender,
     App_globalPut eth_chain_id_key (TInt 11155111),
     App_globalPut eth_contract_key (TBytes ''0x0000000000000000000000000000000000000000''),
     App_globalPut min_timelock_key (TInt 3600),
     App_globalPut max_timelock_key (TInt 86400),
     Return (TInt 1)]"

definition create_htlc :: stmt where
  "create_htlc = Seq [
     Assert Unauthorized (Or (Eq Txn_sender (App_globalGet creator_key)) (TInt 1)),
     If_else (Eq Txn_application_args_length (TInt 8))
       (Seq [
          store ''htlc_id'' (Txn_application_args 1),
          store ''initiator'' (Txn_application_args 2),
          store ''recipient'' (Txn_application_args 3),
          store ''amount'' (Btoi (Txn_application_args 4)),
          store ''hashlock'' (Txn_application_args 5),
          store ''timelock'' (Btoi (Txn_application_args 6)),
          store ''eth_address'' (Txn_application_args 7)])
       (Seq [
          Assert InvalidArgumentCount (Eq Txn_application_args_length (TInt 7)),
          store ''htlc_id'' (Txn_application_args 1),
          store ''initiator'' (Txn_application_args 2),
          store ''recipient'' (Txn_application_args 3),
          store ''amount'' (Btoi (Txn_application_args 4)),
          store ''hashlock'' (Txn_application_args 5),
          store ''timelock'' (Btoi (Txn_application_args 6)),
          store ''eth_address'' (TBytes [])]),
     Assert InvalidTimelock
       (Ge (load ''timelock'') (Add Global_latest_timestamp (App_globalGet min_timelock_key))),
     Assert InvalidTimelock
       (Le (load ''timelock'') (Add Global_latest_timestamp (App_globalGet max_timelock_key))),
     Assert InvalidAmount (Gt (load ''amount'') (TInt 0)),
     Assert DuplicateId (Eq (App_localGet Txn_sender htlc_id_key) (TInt 0)),
     App_localPut Txn_sender htlc_id_key (load ''htlc_id''),
     App_localPut Txn_sender initiator_key (load ''initiator''),
     App_localPut Txn_sender recipient_key (load ''recipient''),
     App_localPut Txn_sender amount_key (load ''amount''),
     App_localPut Txn_sender hashlock_key (load ''hashlock''),
     App_localPut Txn_sender timelock_key (load ''timelock''),
     App_localPut Txn_sender eth_address_key (load ''eth_address''),
     App_localPut Txn_sender withdrawn_key (TInt 0),
     App_localPut Txn_sender refunded_key (TInt 0),
     InnerTxnBuilder_Begin,
     InnerTxnBuilder_SetFields (load ''amount'') Global_current_application_address,
     InnerTxnBuilder_Submit,
     Return (TInt 1)]"

definition withdraw_htlc :: "(bytes \<Rightarrow> bytes) \<Rightarrow> stmt" where
  "withdraw_htlc H = Seq [
     Assert InvalidArgumentCount (Eq Txn_application_args_length (TInt 3)),
     store ''htlc_id'' (Txn_application_args 1),
     store ''secret'' (Txn_application_args 2),
     Assert NotFound (Eq (App_localGet Txn_sender htlc_id_key) (load ''htlc_id'')),
     Assert AlreadyFinalized (Eq (App_localGet Txn_sender withdrawn_key) (TInt 0)),
     Assert AlreadyFinalized (Eq (App_localGet Txn_sender refunded_key) (TInt 0)),
     Assert Expired (Lt Global_latest_timestamp (App_localGet Txn_sender timelock_key)),
     Assert HashMismatch (Eq (Sha256 H (load ''secret'')) (App_localGet Txn_sender hashlock_key)),
     App_localPut Txn_sender withdrawn_key (TInt 1),
     InnerTxnBuilder_Begin,
     InnerTxnBuilder_SetFields
       (App_localGet Txn_sender amount_key) (App_localGet Txn_sender recipient_key),
     InnerTxnBuilder_Submit,
     Return (TInt 1)]"

definition refund_htlc :: stmt where
  "refund_htlc = Seq [
     Assert InvalidArgumentCount (Eq Txn_application_args_length (TInt 2)),
     store ''htlc_id'' (Txn_application_args 1),
     Assert NotFound (Eq (App_localGet Txn_sender htlc_id_key) (load ''htlc_id'')),
     Assert AlreadyFinalized (Eq (App_localGet Txn_sender withdrawn_key) (TInt 0)),
     Assert AlreadyFinalized (Eq (App_localGet Txn_sender refunded_key) (TInt 0)),
     Assert NotYetExpired (Ge Global_latest_timestamp (App_localGet Txn_sender timelock_key)),
     App_localPut Txn_sender refunded_key (TInt 1),
     InnerTxnBuilder_Begin,
     InnerTxnBuilder_SetFields
       (App_localGet Txn_sender amount_key) (App_localGet Txn_sender initiator_key),
     InnerTxnBuilder_Submit,
     Return (TInt 1)]"

definition get_htlc_status :: stmt where
  "get_htlc_status = Seq [
     Assert InvalidArgumentCount (Eq Txn_application_args_length (TInt 2)),
     store ''htlc_id'' (Txn_application_args 1),
     Return (App_localGet Txn_sender htlc_id_key)]"

definition update_contract :: stmt where
  "update_contract = Seq [
     Assert Unauthorized (Eq Txn_sender (App_globalGet creator_key)),
     Assert InvalidArgumentCount (Eq Txn_application_args_length (TInt 3)),
     store ''param_key'' (Txn_application_args 1),
     store ''param_value'' (Txn_application_args 2),
     App_globalPut (load ''param_key'') (load ''param_value''),
     Return (TInt 1)]"

definition htlc_bridge_contract :: "(bytes \<Rightarrow> bytes) \<Rightarrow> stmt" where
  "htlc_bridge_contract H =
     If_else (Gt Txn_application_args_length (TInt 0))
       (Cond [
          (Eq Txn_application_id (TInt 0), bridge_handle_creation),
          (Eq Txn_on_completion OnComplete_OptIn, Return (TInt 1)),
          (Eq Txn_on_completion OnComplete_CloseOut, Return (TInt 1)),
          (Eq Txn_on_completion OnComplete_UpdateApplication, Return (TInt 0)),
          (Eq Txn_on_completion OnComplete_DeleteApplication, Return (TInt 0)),
          (Eq (Txn_application_args 0) (TBytes ''create_htlc''), create_htlc),
          (Eq (Txn_application_args 0) (TBytes ''create''), create_htlc),
          (Eq (Txn_application_args 0) (TBytes ''withdraw''), withdraw_htlc H),
          (Eq (Txn_application_args 0) (TBytes ''withdraw_htlc''), withdraw_htlc H),
          (Eq (Txn_application_args 0) (TBytes ''claim_htlc''), withdraw_htlc H),
          (Eq (Txn_application_args 0) (TBytes ''refund''), refund_htlc),
          (Eq (Txn_application_args 0) (TBytes ''refund_htlc''), refund_htlc),
          (Eq (Txn_application_args 0) (TBytes ''status''), get_htlc_status),
          (Eq (Txn_application_args 0) (TBytes ''get_htlc_status''), get_htlc_status),
          (Eq (Txn_application_args 0) (TBytes ''update''), update_contract),
          (Eq (Txn_application_args 0) (TBytes ''update_contract''), update_contract)])
       (Return (TInt 0))"

section \<open>AlgorandHTLCBridge\_AlgoToEth.py\<close>

definition eth_recipient_key :: expr where "eth_recipient_key = TBytes ''EthRecipient''"
definition secret_key :: expr where "secret_key = TBytes ''Secret''"

definition a2e_create_htlc :: stmt where
  "a2e_create_htlc = Seq [
     Assert InvalidArgumentCount (Eq Txn_application_args_length (TInt 6)),
     store ''htlc_id'' (Txn_application_args 1),
     store ''eth_recipient'' (Txn_application_args 2),
     store ''amount'' (Btoi (Txn_application_args 3)),
     store ''hashlock'' (Txn_application_args 4),
     store ''timelock'' (Btoi (Txn_application_args 5)),
     Assert InvalidAmount (Gt (load ''amount'') (TInt 0)),
     Assert DuplicateId (Eq (App_localGet Txn_sender htlc_id_key) (TInt 0)),
     App_localPut Txn_sender htlc_id_key (load ''htlc_id''),
     App_localPut Txn_sender eth_recipient_key (load ''eth_recipient''),
     App_localPut Txn_sender amount_key (load ''amount''),
     App_localPut Txn_sender hashlock_key (load ''hashlock''),
     App_localPut Txn_sender timelock_key (load ''timelock''),
     App_localPut Txn_sender withdrawn_key (TInt 0),
     App_localPut Txn_sender refunded_key (TInt 0),
     App_localPut Txn_sender secret_key (TBytes []),
     InnerTxnBuilder_Begin,
     InnerTxnBuilder_SetFields (load ''amount'') Global_current_application_address,
     InnerTxnBuilder_Submit,
     Return (TInt 1)]"

definition a2e_reveal_secret :: "(bytes \<Rightarrow> bytes) \<Rightarrow> stmt" where
  "a2e_reveal_secret H = Seq [
     Assert InvalidArgumentCount (Eq Txn_application_args_length (TInt 3)),
     store ''htlc_id'' (Txn_application_args 1),
     store ''secret'' (Txn_application_args 2),
     Assert NotFound (Eq (App_localGet Txn_sender htlc_id_key) (load ''htlc_id'')),
     Assert AlreadySet (Eq (App_localGet Txn_sender secret_key) (TBytes [])),
     Assert HashMismatch (Eq (Sha256 H (load ''secret'')) (App_localGet Txn_sender hashlock_key)),
     App_localPut Txn_sender secret_key (load ''secret''),
     Return (TInt 1)]"

definition htlc_algo_to_eth :: "(bytes \<Rightarrow> bytes) \<Rightarrow> stmt" where
  "htlc_algo_to_eth H = Cond [
     (Eq Txn_application_id (TInt 0), Return (TInt 1)),
     (Eq Txn_on_completion OnComplete_OptIn, Return (TInt 1)),
     (Eq Txn_on_completion OnComplete_CloseOut, Return (TInt 1)),
     (Eq Txn_on_completion OnComplete_UpdateApplication, Return (TInt 0)),
     (Eq Txn_on_completion OnComplete_DeleteApplication, Return (TInt 0)),
     (Eq (Txn_application_args 0) (TBytes ''create_htlc''), a2e_create_htlc),
     (Eq (Txn_application_args 0) (TBytes ''reveal_secret''), a2e_reveal_secret H)]"

section \<open>AlgorandHTLCBridge\_EthToAlgo.py\<close>

definition e2a_create_htlc :: stmt where
  "e2a_create_htlc = Seq [
     Assert InvalidArgumentCount (Eq Txn_application_args_length (TInt 6)),
     store ''htlc_id'' (Txn_application_args 1),
     store ''recipient'' (Txn_application_args 2),
     store ''amount'' (Btoi (Txn_application_args 3)),
     store ''hashlock'' (Txn_application_args 4),
     store ''timelock'' (Btoi (Txn_application_args 5)),
     Assert InvalidAmount (Gt (load ''amount'') (TInt 0)),
     Assert DuplicateId (Eq (App_localGet Txn_sender htlc_id_key) (TInt 0)),
     App_localPut Txn_sender htlc_id_key (load ''htlc_id''),
     App_localPut Txn_sender recipient_key (load ''recipient''),
     App_localPut Txn_sender amount_key (load ''amount''),
     App_localPut Txn_sender hashlock_key (load ''hashlock''),
     App_localPut Txn_sender timelock_key (load ''timelock''),
     App_localPut Txn_sender withdrawn_key (TInt 0),
     App_localPut Txn_sender refunded_key (TInt 0),
     InnerTxnBuilder_Begin,
     InnerTxnBuilder_SetFields (load ''amount'') Global_current_application_address,
     InnerTxnBuilder_Submit,
     Return (TInt 1)]"

definition e2a_claim_htlc :: "(bytes \<Rightarrow> bytes) \<Rightarrow> stmt" where
  "e2a_claim_htlc H = Seq [
     Assert InvalidArgumentCount (Eq Txn_application_args_length (TInt 3)),
     store ''htlc_id'' (Txn_application_args 1),
     store ''secret'' (Txn_application_args 2),
     Assert NotFound (Eq (App_localGet Txn_sender htlc_id_key) (load ''htlc_id'')),
     Assert AlreadyFinalized (Eq (App_localGet Txn_sender withdrawn_key) (TInt 0)),
     Assert AlreadyFinalized (Eq (App_localGet Txn_sender refunded_key) (TInt 0)),
     Assert Expired (Lt Global_latest_timestamp (App_localGet Txn_sender timelock_key)),
     Assert HashMismatch (Eq (Sha256 H (load ''secret'')) (App_localGet Txn_sender hashlock_key)),
     App_localPut Txn_sender withdrawn_key (TInt 1),
     InnerTxnBuilder_Begin,
     InnerTxnBuilder_SetFields
       (App_localGet Txn_sender amount_key) (App_localGet Txn_sender recipient_key),
     InnerTxnBuilder_Submit,
     Return (TInt 1)]"

definition e2a_refund_htlc :: stmt where
  "e2a_refund_htlc = Seq [
     Assert InvalidArgumentCount (Eq Txn_application_args_length (TInt 2)),
     store ''htlc_id'' (Txn_application_args 1),
     Assert NotFound (Eq (App_localGet Txn_sender htlc_id_key) (load ''htlc_id'')),
     Assert AlreadyFinalized (Eq (App_localGet Txn_sender withdrawn_key) (TInt 0)),
     Assert AlreadyFinalized (Eq (App_localGet Txn_sender refunded_key) (TInt 0)),
     Assert NotYetExpired (Ge Global_latest_timestamp (App_localGet Txn_sender timelock_key)),
     App_localPut Txn_sender refunded_key (TInt 1),
     InnerTxnBuilder_Begin,
     InnerTxnBuilder_SetFields (App_localGet Txn_sender amount_key) Txn_sender,
     InnerTxnBuilder_Submit,
     Return (TInt 1)]"

definition htlc_eth_to_algo :: "(bytes \<Rightarrow> bytes) \<Rightarrow> stmt" where
  "htlc_eth_to_algo H = Cond [
     (Eq Txn_application_id (TInt 0), Return (TInt 1)),
     (Eq Txn_on_completion OnComplete_OptIn, Return (TInt 1)),
     (Eq Txn_on_completion OnComplete_CloseOut, Return (TInt 1)),
     (Eq Txn_on_completion OnComplete_UpdateApplication, Return (TInt 0)),
     (Eq Txn_on_completion OnComplete_DeleteApplication, Return (TInt 0)),
     (Eq (Txn_application_args 0) (TBytes ''create_htlc''), e2a_create_htlc),
     (Eq (Txn_application_args 0) (TBytes ''claim_htlc''), e2a_claim_htlc H),
     (Eq (Txn_application_args 0) (TBytes ''refund_htlc''), e2a_refund_htlc)]"

section \<open>AlgorandHTLCBridge\_EthToAlgo\_Minimal.py\<close>



section \<open>Application calls against the ledger\<close>

text \<open>
  The state the ledger keeps for an application: its global state and the local state
  of each account. A call is evaluated on a fresh frame over that state. The ledger
  commits the frame's state and issues its inner transactions when the program
  approves, and keeps the old state otherwise.
\<close>

record app_state =
  global_state :: kv
  local_state :: "bytes \<Rightarrow> kv"

definition start :: "txn \<Rightarrow> app_state \<Rightarrow> frame" where
  "start t s = \<lparr>call = t, globals = global_state s, locals = local_state s,
     scratch = (\<lambda>v. Uint 0), builder = None, inner = [], halted = None\<rparr>"

definition exec :: "stmt \<Rightarrow> txn \<Rightarrow> app_state \<Rightarrow> frame" where
  "exec p t s = p (start t s)"

definition approved :: "frame \<Rightarrow> bool" where
  "approved g = (halted g = Some Approved)"

definition failed :: "frame \<Rightarrow> bool" where
  "failed g = (case halted g of Some (Failed e) \<Rightarrow> True | _ \<Rightarrow> False)"

definition state_of :: "frame \<Rightarrow> app_state" where
  "state_of g = \<lparr>global_state = globals g, local_state = locals g\<rparr>"

definition commit :: "stmt \<Rightarrow> txn \<Rightarrow> app_state \<Rightarrow> app_state" where
  "commit p t s = (if approved (exec p t s) then state_of (exec p t s) else s)"

definition issued :: "stmt \<Rightarrow> txn \<Rightarrow> app_state \<Rightarrow> inner_txn list" where
  "issued p t s = (if approved (exec p t s) then inner (exec p t s) else [])"

fun run :: "stmt \<Rightarrow> txn list \<Rightarrow> app_state \<Rightarrow> app_state" where
  "run p [] s = s"
| "run p (t # ts) s = run p ts (commit p t s)"

section \<open>Notions used to reason about handlers\<close>

text \<open>
  The persistent part of a frame is what the ledger would commit or issue: the global
  state, the local states and the submitted inner transactions. A statement is
  \<open>pure\<close> when it never changes the persistent part, \<open>unfailing\<close> when it never
  turns a frame that has not failed into one that has, and \<open>clean\<close> when, started on
  a running frame, it can only fail with the persistent part as it found it.
\<close>

definition persist_eq :: "frame \<Rightarrow> frame \<Rightarrow> bool" where
  "persist_eq f g = (globals g = globals f \<and> locals g = locals f \<and> inner g = inner f)"

definition pure :: "stmt \<Rightarrow> bool" where
  "pure s = (\<forall>f. persist_eq f (s f))"

definition unfailing :: "stmt \<Rightarrow> bool" where
  "unfailing s = (\<forall>f. \<not> failed f \<longrightarrow> \<not> failed (s f))"

definition clean :: "stmt \<Rightarrow> bool" where
  "clean s = (\<forall>f. halted f = None \<longrightarrow> failed (s f) \<longrightarrow> persist_eq f (s f))"

definition total :: "expr \<Rightarrow> bool" where
  "total a = (\<forall>f. \<exists>x. a f = Inr x)"

definition total_bytes :: "expr \<Rightarrow> bool" where
  "total_bytes a = (\<forall>f. \<exists>b. a f = Inr (Bytes b))"

text \<open>
  \<open>then_approved s f Q\<close>: if \<open>s\<close> approves from \<open>f\<close>, the final frame satisfies \<open>Q\<close>;
  \<open>then_running s f Q\<close>: the same for a run of \<open>s\<close> that ends without halting.
\<close>

definition then_approved :: "stmt \<Rightarrow> frame \<Rightarrow> (frame \<Rightarrow> bool) \<Rightarrow> bool" where
  "then_approved s f Q = (approved (s f) \<longrightarrow> Q (s f))"

definition then_running :: "stmt \<Rightarrow> frame \<Rightarrow> (frame \<Rightarrow> bool) \<Rightarrow> bool" where
  "then_running s f Q = (halted (s f) = None \<longrightarrow> Q (s f))"

definition halting :: "stmt \<Rightarrow> bool" where
  "halting s = (\<forall>f. halted f = None \<longrightarrow> halted (s f) \<noteq> None)"

section \<open>Reading the partial-fill record\<close>

fun as_nat :: "tval \<Rightarrow> nat" where
  "as_nat (Uint n) = unat n"
| "as_nat (Bytes b) = 0"

definition pf_filled :: "app_state \<Rightarrow> nat" where
  "pf_filled s = as_nat (kv_get (global_state s) ''total_filled'')"

definition pf_remaining :: "app_state \<Rightarrow> nat" where
  "pf_remaining s = as_nat (kv_get (global_state s) ''remaining_amount'')"

definition pf_deposited :: "app_state \<Rightarrow> nat" where
  "pf_deposited s = as_nat (kv_get (global_state s) ''total_deposited'')"

definition pf_executed :: "app_state \<Rightarrow> tval" where
  "pf_executed s = kv_get (global_state s) ''executed''"

definition pf_refunded :: "app_state \<Rightarrow> tval" where
  "pf_refunded s = kv_get (global_state s) ''refunded''"

text \<open>
  A \<open>partial_fill\<close> call to the deployed application whose amount argument \<open>Btoi\<close>
  can read, and the amount it asks for.
\<close>

definition fill_call :: "txn \<Rightarrow> bool" where
  "fill_call t = (application_id t \<noteq> 0 \<and> 3 \<le> length (application_args t) \<and>
     application_args t ! 0 = ''partial_fill'' \<and> length (application_args t ! 1) \<le> 8)"

definition fill_amount :: "txn \<Rightarrow> uint64" where
  "fill_amount t = btoi (application_args t ! 1)"

fun all_approved :: "stmt \<Rightarrow> txn list \<Rightarrow> app_state \<Rightarrow> bool" where
  "all_approved p [] s = True"
| "all_approved p (t # ts) s = (approved (exec p t s) \<and> all_approved p ts (commit p t s))"

section \<open>Concrete calls\<close>

text \<open>
  The closed examples below need one digest function, calls and a starting state.
  \<open>demo_hash\<close> stands for \<open>Sha256\<close> there; like \<open>Sha256\<close> it never returns the empty
  string. The general theorems hold for every \<open>H\<close>.
\<close>

definition demo_hash :: "bytes \<Rightarrow> bytes" where
  "demo_hash x = CHR ''#'' # x"

definition app_call :: "bytes \<Rightarrow> bytes list \<Rightarrow> uint64 \<Rightarrow> txn" where
  "app_call who as now = \<lparr>sender = who, application_args = as, application_id = 1,
     on_completion = 0, latest_timestamp = now, current_application_address = ''APP''\<rparr>"

definition app_create :: "bytes \<Rightarrow> bytes list \<Rightarrow> uint64 \<Rightarrow> txn" where
  "app_create who as now = \<lparr>sender = who, application_args = as, application_id = 0,
     on_completion = 0, latest_timestamp = now, current_application_address = ''APP''\<rparr>"

definition fresh :: app_state where
  "fresh = \<lparr>global_state = Map.empty, local_state = (\<lambda>a. Map.empty)\<rparr>"

text \<open>
  A partial-fill record with 500 deposited and nothing filled, committed to the
  secret \<open>abc\<close>; the keys it leaves out read as 0.
\<close>

definition pf_sample :: app_state where
  "pf_sample = \<lparr>global_state = [''hashlock'' \<mapsto> Bytes (demo_hash ''abc''),
       ''remaining_amount'' \<mapsto> Uint 500, ''total_deposited'' \<mapsto> Uint 500],
     local_state = (\<lambda>a. Map.empty)\<rparr>"

text \<open>The other calls of the partial-fill program, in the same style.\<close>

definition claim_call :: "txn \<Rightarrow> bool" where
  "claim_call t = (application_id t \<noteq> 0 \<and> 2 \<le> length (application_args t) \<and>
     application_args t ! 0 = ''public_claim'')"

definition deposit_call :: "txn \<Rightarrow> bool" where
  "deposit_call t = (application_id t \<noteq> 0 \<and> 2 \<le> length (application_args t) \<and>
     application_args t ! 0 = ''deposit'' \<and> length (application_args t ! 1) \<le> 8)"

definition deposit_amount :: "txn \<Rightarrow> uint64" where
  "deposit_amount t = btoi (application_args t ! 1)"

definition pf_create_call :: "txn \<Rightarrow> bool" where
  "pf_create_call t = (application_id t \<noteq> 0 \<and> 6 \<le> length (application_args t) \<and>
     application_args t ! 0 = ''create_htlc'' \<and> length (application_args t ! 2) \<le> 8 \<and>
     length (application_args t ! 5) \<le> 8)"

text \<open>
  Runs that start from nothing: the application is created and \<open>create_htlc\<close> commits
  it to the secret \<open>abc\<close>; then deposits, fills and claims follow.
\<close>

definition pf_setup :: "txn list" where
  "pf_setup =
     [app_create ''M'' [] 1000,
      app_call ''M'' [''create_htlc'', demo_hash ''abc'', [CHR 0x20, CHR 0x00], ''R'', ''M'', [CHR 0x01]] 1000]"

definition pf_overflow_setup :: "txn list" where
  "pf_overflow_setup = pf_setup @
     [app_call ''M'' [''deposit'',
        [CHR 0xFF, CHR 0xFF, CHR 0xFF, CHR 0xFF, CHR 0xFF, CHR 0xFF, CHR 0xFF, CHR 0xFF]] 1000,
      app_call ''X'' [''partial_fill'',
        [CHR 0xFF, CHR 0xFF, CHR 0xFF, CHR 0xFF, CHR 0xFF, CHR 0xFF, CHR 0xFF, CHR 0xFE], ''abc''] 1001,
      app_call ''M'' [''deposit'', [CHR 0x00]] 1002]"

definition pf_topup_setup :: "txn list" where
  "pf_topup_setup = pf_setup @
     [app_call ''M'' [''deposit'', [CHR 0x0A]] 1000,
      app_call ''X'' [''partial_fill'', [CHR 0x04], ''abc''] 1001,
      app_call ''M'' [''deposit'', [CHR 0x05]] 1002]"

definition pf_claimed_setup :: "txn list" where
  "pf_claimed_setup = pf_setup @
     [app_call ''M'' [''deposit'', [CHR 0x0A]] 1000,
      app_call ''X'' [''public_claim'', ''abc''] 1001]"

section \<open>Calls by name and per-account records\<close>

definition named_call :: "bytes \<Rightarrow> nat \<Rightarrow> txn \<Rightarrow> bool" where
  "named_call nm n t = (application_id t \<noteq> 0 \<and> on_completion t = 0 \<and>
     length (application_args t) = n \<and> 0 < n \<and> n \<le> 16 \<and> application_args t ! 0 = nm)"

definition rec_get :: "app_state \<Rightarrow> bytes \<Rightarrow> bytes \<Rightarrow> tval" where
  "rec_get s a k = kv_get (local_state s a) k"

definition rec_put :: "app_state \<Rightarrow> bytes \<Rightarrow> bytes \<Rightarrow> tval \<Rightarrow> app_state" where
  "rec_put s a k v = s\<lparr>local_state := (local_state s)(a := (local_state s a)(k \<mapsto> v))\<rparr>"






text \<open>
  The create calls: of the full bridge, under either of its two names and with any number of
  arguments, and of the one-directional bridges, with their six arguments. A call is
  well-formed when it has the arguments the handler reads and \<open>Btoi\<close> can read its numbers.
\<close>

definition bridge_create_call :: "txn \<Rightarrow> bool" where
  "bridge_create_call t =
     (named_call (application_args t ! 0) (length (application_args t)) t \<and>
      (application_args t ! 0 = ''create_htlc'' \<or> application_args t ! 0 = ''create''))"

definition short_create_call :: "txn \<Rightarrow> bool" where
  "short_create_call t = named_call ''create_htlc'' 6 t"

definition bridge_create_wf :: "txn \<Rightarrow> bool" where
  "bridge_create_wf t = (bridge_create_call t \<and>
     (length (application_args t) = 7 \<or> length (application_args t) = 8) \<and>
     length (application_args t ! 4) \<le> 8 \<and> length (application_args t ! 6) \<le> 8)"

definition short_create_wf :: "txn \<Rightarrow> bool" where
  "short_create_wf t = (short_create_call t \<and>
     length (application_args t ! 3) \<le> 8 \<and> length (application_args t ! 5) \<le> 8)"

definition timelock_in_bounds :: "txn \<Rightarrow> uint64 \<Rightarrow> uint64 \<Rightarrow> uint64 \<Rightarrow> bool" where
  "timelock_in_bounds t mn mx tlock =
     (unat (latest_timestamp t) + unat mn \<le> unat tlock \<and>
      unat tlock \<le> unat (latest_timestamp t) + unat mx)"

definition bridge_fresh :: app_state where
  "bridge_fresh = \<lparr>global_state = [''Creator'' \<mapsto> Bytes ''C'', ''MinTimelock'' \<mapsto> Uint 3600,
       ''MaxTimelock'' \<mapsto> Uint 86400], local_state = (\<lambda>a. Map.empty)\<rparr>"

definition bridge_create_sample :: "bytes \<Rightarrow> bytes \<Rightarrow> txn" where
  "bridge_create_sample amt tlock =
     app_call ''A'' [''create_htlc'', ''s1'', ''I'', ''R'', amt, demo_hash ''abc'', tlock, ''0xE''] 1000"

definition short_create_sample :: "bytes \<Rightarrow> bytes \<Rightarrow> txn" where
  "short_create_sample amt tlock =
     app_call ''A'' [''create_htlc'', ''s1'', ''R'', amt, demo_hash ''abc'', tlock] 1000"

definition pf_create_again :: txn where
  "pf_create_again =
     app_call ''M'' [''create_htlc'', demo_hash ''xyz'', [CHR 0x30, CHR 0x00], ''R'', ''M'', [CHR 0x01]] 2000"


section \<open>Evaluation rules\<close>

lemma Seq_halted: "halted f \<noteq> None \<Longrightarrow> Seq ss f = f"
  by (cases ss) simp_all

lemma Seq_append: "Seq (xs @ ys) f = Seq ys (Seq xs f)"
  by (induction xs arbitrary: f) (simp_all add: Seq_halted)

lemmas keys = total_deposited_def total_filled_def remaining_amount_def executed_def refunded_def
  hashlock_def timelock_def recipient_def maker_def partial_fills_enabled_def
  creator_key_def eth_chain_id_key_def eth_contract_key_def min_timelock_key_def max_timelock_key_def
  htlc_id_key_def initiator_key_def recipient_key_def amount_key_def hashlock_key_def timelock_key_def
  eth_address_key_def withdrawn_key_def refunded_key_def eth_recipient_key_def secret_key_def
  OnComplete_OptIn_def OnComplete_CloseOut_def OnComplete_UpdateApplication_def OnComplete_DeleteApplication_def

lemma failed_simps [simp]:
  "failed g = (\<exists>e. halted g = Some (Failed e))"
  by (auto simp: failed_def split: option.splits outcome.splits)

lemma persist_eq_refl [simp]: "persist_eq f f" by (simp add: persist_eq_def)
lemma persist_eq_trans: "persist_eq f g \<Longrightarrow> persist_eq g h \<Longrightarrow> persist_eq f h"
  by (simp add: persist_eq_def)
lemma persist_eq_fail [simp]: "persist_eq f (fail e g) = persist_eq f g"
  by (simp add: persist_eq_def fail_def)

subsection \<open>Pure statements\<close>

lemma pure_Assert [simp]: "pure (Assert tag c)"
  by (auto simp: pure_def Assert_def split: sum.splits)
lemma pure_store [simp]: "pure (store v a)"
  by (auto simp: pure_def store_def persist_eq_def fail_def split: sum.splits)
lemma pure_Return [simp]: "pure (Return c)"
  by (auto simp: pure_def Return_def persist_eq_def fail_def split: sum.splits)
lemma pure_Begin [simp]: "pure InnerTxnBuilder_Begin"
  by (auto simp: pure_def InnerTxnBuilder_Begin_def persist_eq_def)
lemma pure_SetFields [simp]: "pure (InnerTxnBuilder_SetFields a r)"
  by (auto simp: pure_def InnerTxnBuilder_SetFields_def persist_eq_def fail_def split: sum.splits option.splits)

lemma pure_Seq: "list_all pure ss \<Longrightarrow> pure (Seq ss)"
proof (induction ss)
  case Nil
  then show ?case by (simp add: pure_def)
next
  case (Cons s ss)
  then have s: "pure s" and ss: "pure (Seq ss)" by simp_all
  show ?case
    unfolding pure_def
  proof
    fix f
    show "persist_eq f (Seq (s # ss) f)"
      using s ss persist_eq_trans [of f "s f" "Seq ss (s f)"]
      by (simp add: pure_def)
  qed
qed

lemma pure_If_else: "pure s1 \<Longrightarrow> pure s2 \<Longrightarrow> pure (If_else c s1 s2)"
  by (auto simp: pure_def If_else_def split: sum.splits)

lemma pure_If_then: "pure s1 \<Longrightarrow> pure (If_then c s1)"
  by (auto simp: pure_def If_then_def split: sum.splits)

subsection \<open>Total expressions\<close>

lemma total_bytes_total: "total_bytes a \<Longrightarrow> total a"
  by (auto simp: total_def total_bytes_def) 
lemma total_TInt [simp]: "total (TInt n)" by (simp add: total_def TInt_def)
lemma total_TBytes [simp]: "total_bytes (TBytes b)" by (simp add: total_bytes_def TBytes_def)
lemma total_TBytes' [simp]: "total (TBytes b)" by (simp add: total_def TBytes_def)
lemma total_load [simp]: "total (load v)" by (simp add: total_def load_def)
lemma total_sender [simp]: "total_bytes Txn_sender" by (simp add: total_bytes_def Txn_sender_def)
lemma total_sender' [simp]: "total Txn_sender" by (simp add: total_def Txn_sender_def)
lemma total_addr [simp]: "total Global_current_application_address"
  by (simp add: total_def Global_current_application_address_def)
lemma total_localGet [simp]: "total_bytes a \<Longrightarrow> total_bytes k \<Longrightarrow> total (App_localGet a k)"
  unfolding total_def total_bytes_def App_localGet_def
proof
  fix f
  assume a: "\<forall>f. \<exists>b. a f = Inr (Bytes b)" and k: "\<forall>f. \<exists>b. k f = Inr (Bytes b)"
  from a obtain x where "a f = Inr (Bytes x)" by blast
  moreover from k obtain y where "k f = Inr (Bytes y)" by blast
  ultimately show "\<exists>x. (case a f of Inl e \<Rightarrow> Inl e | Inr (Uint n) \<Rightarrow> Inl TypeMismatch
         | Inr (Bytes acct) \<Rightarrow>
             (case k f of Inl e \<Rightarrow> Inl e | Inr (Uint n) \<Rightarrow> Inl TypeMismatch
              | Inr (Bytes b) \<Rightarrow> Inr (kv_get (locals f acct) b))) = Inr x"
    by simp
qed

subsection \<open>Unfailing statements\<close>

lemma unfailing_globalPut [simp]: "total_bytes k \<Longrightarrow> total a \<Longrightarrow> unfailing (App_globalPut k a)"
  unfolding unfailing_def
proof (intro allI impI)
  fix f
  assume k: "total_bytes k" and a: "total a" and nf: "\<not> failed f"
  from k obtain b where "k f = Inr (Bytes b)" by (auto simp: total_bytes_def)
  moreover from a obtain x where "a f = Inr x" by (auto simp: total_def)
  ultimately show "\<not> failed (App_globalPut k a f)"
    using nf by (simp add: App_globalPut_def)
qed

lemma unfailing_localPut [simp]:
  "total_bytes acct \<Longrightarrow> total_bytes k \<Longrightarrow> total a \<Longrightarrow> unfailing (App_localPut acct k a)"
  unfolding unfailing_def
proof (intro allI impI)
  fix f
  assume c: "total_bytes acct" and k: "total_bytes k" and a: "total a" and nf: "\<not> failed f"
  from c obtain u where "acct f = Inr (Bytes u)" by (auto simp: total_bytes_def)
  moreover from k obtain b where "k f = Inr (Bytes b)" by (auto simp: total_bytes_def)
  moreover from a obtain x where "a f = Inr x" by (auto simp: total_def)
  ultimately show "\<not> failed (App_localPut acct k a f)"
    using nf by (simp add: App_localPut_def)
qed

lemma unfailing_Return1 [simp]: "unfailing (Return (TInt 1))"
  by (simp add: unfailing_def Return_def cond_of_def TInt_def)

lemma unfailing_Seq: "list_all unfailing ss \<Longrightarrow> unfailing (Seq ss)"
proof (induction ss)
  case Nil
  then show ?case by (simp add: unfailing_def)
next
  case (Cons s ss)
  then show ?case by (auto simp: unfailing_def)
qed

lemma unfailing_pay [simp]:
  "total a \<Longrightarrow> total r \<Longrightarrow>
   unfailing (Seq [InnerTxnBuilder_Begin, InnerTxnBuilder_SetFields a r, InnerTxnBuilder_Submit])"
  unfolding unfailing_def
proof (intro allI impI)
  fix f
  assume a: "total a" and r: "total r" and nf: "\<not> failed f"
  let ?g = "f\<lparr>builder := Some (Pay (Uint 0) (Bytes []))\<rparr>"
  from a obtain x where "a ?g = Inr x" by (auto simp: total_def)
  moreover from r obtain y where "r ?g = Inr y" by (auto simp: total_def)
  ultimately show "\<not> failed (Seq [InnerTxnBuilder_Begin, InnerTxnBuilder_SetFields a r, InnerTxnBuilder_Submit] f)"
    using nf
    by (simp add: InnerTxnBuilder_Begin_def InnerTxnBuilder_SetFields_def InnerTxnBuilder_Submit_def)
qed

subsection \<open>Clean statements\<close>

lemma clean_unfailing: "unfailing s \<Longrightarrow> clean s"
  by (auto simp: clean_def unfailing_def)

lemma clean_pure: "pure s \<Longrightarrow> clean s"
  by (simp add: clean_def pure_def)

lemma clean_prefix:
  assumes "pure (Seq cs)" and "clean (Seq ws)"
  shows "clean (Seq (cs @ ws))"
  unfolding clean_def
proof (intro allI impI)
  fix f
  assume run: "halted f = None" and bad: "failed (Seq (cs @ ws) f)"
  let ?g = "Seq cs f"
  have p: "persist_eq f ?g" using assms(1) by (simp add: pure_def)
  show "persist_eq f (Seq (cs @ ws) f)"
  proof (cases "halted ?g")
    case None
    then have "persist_eq ?g (Seq ws ?g)"
      using assms(2) bad by (simp add: clean_def Seq_append)
    with p show ?thesis by (simp add: Seq_append persist_eq_trans[of f ?g])
  next
    case (Some a)
    then show ?thesis using p by (simp add: Seq_append Seq_halted)
  qed
qed

lemma clean_then:
  assumes "clean w" and "unfailing (Seq ws)"
  shows "clean (Seq (w # ws))"
  unfolding clean_def
proof (intro allI impI)
  fix f
  assume run: "halted f = None" and bad: "failed (Seq (w # ws) f)"
  have "failed (w f)"
  proof (rule ccontr)
    assume "\<not> failed (w f)"
    then have "\<not> failed (Seq ws (w f))" using assms(2) by (simp add: unfailing_def)
    with bad run show False by simp
  qed
  then have "persist_eq f (w f)" using assms(1) run by (simp add: clean_def)
  moreover have "Seq ws (w f) = w f" using \<open>failed (w f)\<close> by (auto simp: Seq_halted)
  ultimately show "persist_eq f (Seq (w # ws) f)" using run by simp
qed

lemma clean_globalPut [simp]: "clean (App_globalPut k a)"
  by (auto simp: clean_def App_globalPut_def fail_def persist_eq_def split: sum.splits tval.splits)

lemma clean_If_else: "clean s1 \<Longrightarrow> clean s2 \<Longrightarrow> clean (If_else c s1 s2)"
  by (auto simp: clean_def If_else_def split: sum.splits)

lemma clean_Cond: "list_all (\<lambda>b. clean (snd b)) bs \<Longrightarrow> clean (Cond bs)"
proof (induction bs)
  case Nil
  then show ?case by (simp add: clean_def)
next
  case (Cons b bs)
  obtain c s where b: "b = (c, s)" by (cases b)
  from Cons have s: "clean s" and r: "clean (Cond bs)" by (simp_all add: b)
  show ?case
    unfolding clean_def b
  proof (intro allI impI)
    fix f
    assume run: "halted f = None" and bad: "failed (Cond ((c, s) # bs) f)"
    show "persist_eq f (Cond ((c, s) # bs) f)"
    proof (cases "cond_of c f")
      case (Inl e)
      then show ?thesis using run by simp
    next
      case (Inr ok)
      then show ?thesis using run bad s r by (cases ok) (auto simp: clean_def simp del: failed_simps)
    qed
  qed
qed


lemma clean_split: "pure (Seq (take n ss)) \<Longrightarrow> clean (Seq (drop n ss)) \<Longrightarrow> clean (Seq ss)"
  using clean_prefix [of "take n ss" "drop n ss"] by simp

lemma unfailing_split:
  "unfailing (Seq (take n ss)) \<Longrightarrow> unfailing (Seq (drop n ss)) \<Longrightarrow> unfailing (Seq ss)"
proof -
  assume a: "unfailing (Seq (take n ss))" and b: "unfailing (Seq (drop n ss))"
  have "Seq ss = (\<lambda>f. Seq (drop n ss) (Seq (take n ss) f))"
    using Seq_append [of "take n ss" "drop n ss"] by auto
  then show ?thesis using a b by (simp add: unfailing_def)
qed

lemma unfailing_pay_Return:
  "total a \<Longrightarrow> total r \<Longrightarrow>
   unfailing (Seq [InnerTxnBuilder_Begin, InnerTxnBuilder_SetFields a r, InnerTxnBuilder_Submit, Return (TInt 1)])"
  by (rule unfailing_split [where n = 3]) (simp_all add: unfailing_Seq)

subsection \<open>Approving runs, statement by statement\<close>

lemma approved_fail [simp]: "\<not> approved (fail e f)" by (simp add: approved_def fail_def)

lemma ta_Nil: "then_approved (Seq []) f Q = (approved f \<longrightarrow> Q f)"
  by (simp add: then_approved_def)

lemma ta_Assert: "halted f = None \<Longrightarrow>
  then_approved (Seq (Assert tag c # ss)) f Q = (cond_of c f = Inr True \<longrightarrow> then_approved (Seq ss) f Q)"
  by (auto simp: then_approved_def Assert_def Seq_halted fail_def approved_def split: sum.splits)

lemma ta_store: "halted f = None \<Longrightarrow>
  then_approved (Seq (store v a # ss)) f Q =
    (\<forall>x. a f = Inr x \<longrightarrow> then_approved (Seq ss) (f\<lparr>scratch := (scratch f)(v := x)\<rparr>) Q)"
  by (auto simp: then_approved_def store_def Seq_halted fail_def approved_def split: sum.splits)

lemma ta_globalPut: "halted f = None \<Longrightarrow>
  then_approved (Seq (App_globalPut k a # ss)) f Q =
    (\<forall>b x. k f = Inr (Bytes b) \<longrightarrow> a f = Inr x \<longrightarrow>
       then_approved (Seq ss) (f\<lparr>globals := (globals f)(b \<mapsto> x)\<rparr>) Q)"
  by (auto simp: then_approved_def App_globalPut_def Seq_halted fail_def approved_def
      split: sum.splits tval.splits)

lemma ta_localPut: "halted f = None \<Longrightarrow>
  then_approved (Seq (App_localPut acct k a # ss)) f Q =
    (\<forall>u b x. acct f = Inr (Bytes u) \<longrightarrow> k f = Inr (Bytes b) \<longrightarrow> a f = Inr x \<longrightarrow>
       then_approved (Seq ss) (f\<lparr>locals := (locals f)(u := (locals f u)(b \<mapsto> x))\<rparr>) Q)"
  by (auto simp: then_approved_def App_localPut_def Seq_halted fail_def approved_def
      split: sum.splits tval.splits)

lemma ta_Return: "halted f = None \<Longrightarrow>
  then_approved (Seq (Return c # ss)) f Q =
    (cond_of c f = Inr True \<longrightarrow> Q (f\<lparr>halted := Some Approved\<rparr>))"
  by (auto simp: then_approved_def Return_def Seq_halted fail_def approved_def split: sum.splits)

lemma ta_Begin: "halted f = None \<Longrightarrow>
  then_approved (Seq (InnerTxnBuilder_Begin # ss)) f Q =
    then_approved (Seq ss) (f\<lparr>builder := Some (Pay (Uint 0) (Bytes []))\<rparr>) Q"
  by (auto simp: then_approved_def InnerTxnBuilder_Begin_def)

lemma ta_SetFields: "halted f = None \<Longrightarrow>
  then_approved (Seq (InnerTxnBuilder_SetFields a r # ss)) f Q =
    (\<forall>p x y. builder f = Some p \<longrightarrow> a f = Inr x \<longrightarrow> r f = Inr y \<longrightarrow>
       then_approved (Seq ss) (f\<lparr>builder := Some (Pay x y)\<rparr>) Q)"
  by (auto simp: then_approved_def InnerTxnBuilder_SetFields_def Seq_halted fail_def approved_def
      split: sum.splits option.splits)

lemma ta_Submit: "halted f = None \<Longrightarrow>
  then_approved (Seq (InnerTxnBuilder_Submit # ss)) f Q =
    (\<forall>p. builder f = Some p \<longrightarrow>
       then_approved (Seq ss) (f\<lparr>builder := None, inner := inner f @ [p]\<rparr>) Q)"
  by (auto simp: then_approved_def InnerTxnBuilder_Submit_def Seq_halted fail_def approved_def
      split: sum.splits option.splits)

lemma ta_If_then: "halted f = None \<Longrightarrow>
  then_approved (Seq (If_then c s # ss)) f Q =
    (\<forall>ok. cond_of c f = Inr ok \<longrightarrow>
       (if ok then then_approved (Seq (s # ss)) f Q else then_approved (Seq ss) f Q))"
  by (auto simp: then_approved_def If_then_def Seq_halted fail_def approved_def split: sum.splits)

lemma Seq_Seq: "Seq (Seq xs # ss) f = Seq (xs @ ss) f"
  by (simp add: Seq_append Seq_halted)

lemma ta_If_else: "halted f = None \<Longrightarrow>
  then_approved (Seq (If_else c (Seq xs) (Seq ys) # ss)) f Q =
    (\<forall>ok. cond_of c f = Inr ok \<longrightarrow>
       (if ok then then_approved (Seq (xs @ ss)) f Q else then_approved (Seq (ys @ ss)) f Q))"
  by (auto simp: then_approved_def If_else_def Seq_halted Seq_append fail_def approved_def split: sum.splits)

lemma ta_Cond_Nil: "then_approved (Cond []) f Q = (approved f \<longrightarrow> Q f)"
  by (auto simp: then_approved_def approved_def fail_def)

lemma ta_Cond: "halted f = None \<Longrightarrow>
  then_approved (Cond ((c, s) # bs)) f Q =
    (\<forall>ok. cond_of c f = Inr ok \<longrightarrow>
       (if ok then then_approved s f Q else then_approved (Cond bs) f Q))"
  by (auto simp: then_approved_def fail_def approved_def split: sum.splits)

lemmas ta = ta_Nil ta_Assert ta_store ta_globalPut ta_localPut ta_Return ta_Begin ta_SetFields
  ta_Submit ta_If_then ta_If_else

subsection \<open>Expressions, relationally\<close>

lemma ev_TInt: "TInt n f = Inr (Uint n)" by (simp add: TInt_def)
lemma ev_TBytes: "TBytes b f = Inr (Bytes b)" by (simp add: TBytes_def)
lemma ev_load: "load v f = Inr (scratch f v)" by (simp add: load_def)
lemma ev_sender: "Txn_sender f = Inr (Bytes (sender (call f)))" by (simp add: Txn_sender_def)
lemma ev_appid: "Txn_application_id f = Inr (Uint (application_id (call f)))" by (simp add: Txn_application_id_def)
lemma ev_oncompl: "Txn_on_completion f = Inr (Uint (on_completion (call f)))" by (simp add: Txn_on_completion_def)
lemma ev_len: "Txn_application_args_length f = Inr (Uint (of_nat (length (application_args (call f)))))"
  by (simp add: Txn_application_args_length_def)
lemma ev_now: "Global_latest_timestamp f = Inr (Uint (latest_timestamp (call f)))"
  by (simp add: Global_latest_timestamp_def)
lemma ev_addr: "Global_current_application_address f = Inr (Bytes (current_application_address (call f)))"
  by (simp add: Global_current_application_address_def)
lemma ev_arg: "(Txn_application_args i f = Inr x) =
    (i < length (application_args (call f)) \<and> x = Bytes (application_args (call f) ! i))"
  by (auto simp: Txn_application_args_def)
lemma ev_globalGet: "(App_globalGet k f = Inr x) = (\<exists>b. k f = Inr (Bytes b) \<and> kv_get (globals f) b = x)"
  by (auto simp: App_globalGet_def split: sum.splits tval.splits)
lemma ev_localGet: "(App_localGet a k f = Inr x) =
    (\<exists>u b. a f = Inr (Bytes u) \<and> k f = Inr (Bytes b) \<and> kv_get (locals f u) b = x)"
  by (auto simp: App_localGet_def split: sum.splits tval.splits)
lemma ev_Btoi: "(Btoi a f = Inr x) = (\<exists>b. a f = Inr (Bytes b) \<and> length b \<le> 8 \<and> x = Uint (btoi b))"
  by (auto simp: Btoi_def split: sum.splits tval.splits)
lemma ev_Sha256: "(Sha256 H a f = Inr x) = (\<exists>b. a f = Inr (Bytes b) \<and> x = Bytes (H b))"
  by (auto simp: Sha256_def split: sum.splits tval.splits)
lemma ev_Add: "(Add a b f = Inr v) =
    (\<exists>x y. a f = Inr (Uint x) \<and> b f = Inr (Uint y) \<and> unat x + unat y < 2 ^ 64 \<and> v = Uint (x + y))"
  by (auto simp: Add_def uint_op_def split: sum.splits tval.splits)
lemma ev_Minus: "(Minus a b f = Inr v) =
    (\<exists>x y. a f = Inr (Uint x) \<and> b f = Inr (Uint y) \<and> y \<le> x \<and> v = Uint (x - y))"
  by (auto simp: Minus_def uint_op_def split: sum.splits tval.splits)
lemma c_Eq: "(cond_of (Eq a b) f = Inr ok) =
    (\<exists>x y. a f = Inr x \<and> b f = Inr y \<and>
       ((\<exists>m n. x = Uint m \<and> y = Uint n) \<or> (\<exists>m n. x = Bytes m \<and> y = Bytes n)) \<and> ok = (x = y))"
  by (auto simp: cond_of_def Eq_def truth_def split: sum.splits tval.splits)
lemma c_Gt: "(cond_of (Gt a b) f = Inr ok) =
    (\<exists>x y. a f = Inr (Uint x) \<and> b f = Inr (Uint y) \<and> ok = (x > y))"
  by (auto simp: cond_of_def Gt_def uint_op_def truth_def split: sum.splits tval.splits)
lemma c_Lt: "(cond_of (Lt a b) f = Inr ok) =
    (\<exists>x y. a f = Inr (Uint x) \<and> b f = Inr (Uint y) \<and> ok = (x < y))"
  by (auto simp: cond_of_def Lt_def uint_op_def truth_def split: sum.splits tval.splits)
lemma c_Le: "(cond_of (Le a b) f = Inr ok) =
    (\<exists>x y. a f = Inr (Uint x) \<and> b f = Inr (Uint y) \<and> ok = (x \<le> y))"
  by (auto simp: cond_of_def Le_def uint_op_def truth_def split: sum.splits tval.splits)
lemma c_Ge: "(cond_of (Ge a b) f = Inr ok) =
    (\<exists>x y. a f = Inr (Uint x) \<and> b f = Inr (Uint y) \<and> ok = (x \<ge> y))"
  by (auto simp: cond_of_def Ge_def uint_op_def truth_def split: sum.splits tval.splits)
lemma c_Or: "(cond_of (Or a b) f = Inr ok) =
    (\<exists>x y. a f = Inr (Uint x) \<and> b f = Inr (Uint y) \<and> ok = (x \<noteq> 0 \<or> y \<noteq> 0))"
  by (auto simp: cond_of_def Or_def uint_op_def truth_def split: sum.splits tval.splits)
lemma ev_Eq: "(Eq a b f = Inr v) =
    (\<exists>x y. a f = Inr x \<and> b f = Inr y \<and>
       ((\<exists>m n. x = Uint m \<and> y = Uint n) \<or> (\<exists>m n. x = Bytes m \<and> y = Bytes n)) \<and> v = truth (x = y))"
  by (auto simp: Eq_def split: sum.splits tval.splits)
lemma c_TInt: "(cond_of (TInt n) f = Inr ok) = (ok = (n \<noteq> 0))"
  by (auto simp: cond_of_def TInt_def)
lemma c_localGet: "(cond_of (App_localGet a k) f = Inr ok) =
    (\<exists>n. App_localGet a k f = Inr (Uint n) \<and> ok = (n \<noteq> 0))"
  by (auto simp: cond_of_def split: sum.splits tval.splits)

lemmas ev = ev_TInt ev_TBytes ev_load ev_sender ev_appid ev_oncompl ev_len ev_now ev_addr ev_arg
  ev_globalGet ev_localGet ev_Btoi ev_Sha256 ev_Add ev_Minus ev_Eq c_Eq c_Gt c_Lt c_Le c_Ge c_Or c_TInt c_localGet


section \<open>Runs end halted\<close>

lemma start_simps [simp]:
  "halted (start t s) = None" "globals (start t s) = global_state s"
  "locals (start t s) = local_state s" "inner (start t s) = []" "call (start t s) = t"
  "builder (start t s) = None" "scratch (start t s) = (\<lambda>v. Uint 0)"
  by (simp_all add: start_def)

lemma halting_Return [simp]: "halting (Return c)"
  by (auto simp: halting_def Return_def fail_def split: sum.splits)

lemma halting_Seq: "ss \<noteq> [] \<Longrightarrow> halting (last ss) \<Longrightarrow> halting (Seq ss)"
proof (induction ss)
  case Nil
  then show ?case by simp
next
  case (Cons s ss)
  show ?case
  proof (cases "ss = []")
    case True
    with Cons.prems show ?thesis by (auto simp: halting_def)
  next
    case False
    with Cons have "halting (Seq ss)" by simp
    then show ?thesis
      unfolding halting_def
      by (metis Seq.simps(2) Seq_halted)
  qed
qed

lemma halting_If_else: "halting s1 \<Longrightarrow> halting s2 \<Longrightarrow> halting (If_else c s1 s2)"
  by (auto simp: halting_def If_else_def fail_def split: sum.splits)

lemma halting_Cond: "list_all (\<lambda>b. halting (snd b)) bs \<Longrightarrow> halting (Cond bs)"
proof (induction bs)
  case Nil
  then show ?case by (simp add: halting_def fail_def)
next
  case (Cons b bs)
  obtain c s where b: "b = (c, s)" by (cases b)
  from Cons have "halting s" "halting (Cond bs)" by (simp_all add: b)
  then show ?case
    by (auto simp: halting_def b fail_def split: sum.splits)
qed

lemma halting_handlers [simp]:
  "halting handle_creation" "halting handle_htlc_creation" "halting (handle_partial_fill H)"
  "halting handle_withdrawal" "halting (handle_public_claim H)" "halting handle_deposit"
  by (simp_all add: handle_creation_def handle_htlc_creation_def handle_partial_fill_def
      handle_withdrawal_def handle_public_claim_def handle_deposit_def halting_Seq)

lemma halting_pf [simp]: "halting (partial_fill_program H)"
  by (simp add: partial_fill_program_def halting_Cond)

lemma halting_exec: "halting p \<Longrightarrow> failed (exec p t s) = (\<not> approved (exec p t s))"
proof -
  assume "halting p"
  then have "halted (p (start t s)) \<noteq> None" by (simp add: halting_def)
  then obtain r where "halted (p (start t s)) = Some r" by auto
  then show ?thesis by (cases r) (simp_all add: exec_def approved_def)
qed

subsection \<open>Routing of the partial-fill program\<close>

lemma c_Eq_arg0: "cond_of (Eq (Txn_application_args 0) (TBytes nm)) f =
   (if application_args (call f) = [] then Inl ArgOutOfRange
    else Inr (application_args (call f) ! 0 = nm))"
  by (simp add: cond_of_def Eq_def Txn_application_args_def TBytes_def truth_def)

lemma c_Eq_appid: "cond_of (Eq Txn_application_id (TInt 0)) f = Inr (application_id (call f) = 0)"
  by (simp add: cond_of_def Eq_def Txn_application_id_def TInt_def truth_def)

lemma cond_TInt: "cond_of (TInt n) f = Inr (n \<noteq> 0)"
  by (simp add: cond_of_def TInt_def)

lemma pf_route:
  assumes "halted f = None" "application_id (call f) \<noteq> 0" "application_args (call f) \<noteq> []"
  shows "partial_fill_program H f =
    (let nm = application_args (call f) ! 0 in
     if nm = ''create_htlc'' then handle_htlc_creation f
     else if nm = ''partial_fill'' then handle_partial_fill H f
     else if nm = ''withdraw'' then handle_withdrawal f
     else if nm = ''public_claim'' then handle_public_claim H f
     else if nm = ''deposit'' then handle_deposit f
     else fail Rejected f)"
  using assms
  by (simp add: partial_fill_program_def c_Eq_arg0 c_Eq_appid cond_TInt Let_def Return_def)

lemma pf_char:
  assumes "halted f = None"
  shows "then_approved (handle_partial_fill H) f (\<lambda>g.
      \<exists>r tf. length (application_args (call f)) > 2 \<and> 
      length (application_args (call f) ! 1) \<le> 8 
     \<and> kv_get (globals f) ''executed'' = Uint 0
     \<and> kv_get (globals f) ''refunded'' = Uint 0
     \<and> kv_get (globals f) ''hashlock'' = Bytes (H (application_args (call f) ! 2))
     \<and> kv_get (globals f) ''remaining_amount'' = Uint r
     \<and> kv_get (globals f) ''total_filled'' = Uint tf
     \<and> 0 < btoi (application_args (call f) ! 1) \<and> btoi (application_args (call f) ! 1) \<le> r 
     \<and> unat tf + unat (btoi (application_args (call f) ! 1)) < 2 ^ 64
     \<and> locals g = locals f \<and> inner g = inner f
     \<and> globals g = (if btoi (application_args (call f) ! 1) = r 
           then (globals f)(''total_filled'' \<mapsto> Uint (tf + r), ''remaining_amount'' \<mapsto> Uint 0, ''executed'' \<mapsto> Uint 1)
           else (globals f)(''total_filled'' \<mapsto> Uint (tf + btoi (application_args (call f) ! 1)), 
                  ''remaining_amount'' \<mapsto> Uint (r - btoi (application_args (call f) ! 1)))))"
  using assms
  apply (simp add: handle_partial_fill_def ta ev keys del: Seq.simps)
  apply (auto simp: kv_get_def)
  done

lemmas teal_defs = TInt_def TBytes_def Txn_sender_def Txn_application_id_def Txn_on_completion_def
  Txn_application_args_def Txn_application_args_length_def Global_latest_timestamp_def
  Global_current_application_address_def App_globalGet_def App_localGet_def load_def
  uint_op_def truth_def Add_def Minus_def Lt_def Gt_def Le_def Ge_def Or_def Eq_def Btoi_def Sha256_def
  fail_def cond_of_def Assert_def Return_def store_def App_globalPut_def App_localPut_def
  InnerTxnBuilder_Begin_def InnerTxnBuilder_SetFields_def InnerTxnBuilder_Submit_def
  If_then_def If_else_def

lemma pf_accept:
  assumes "halted f = None"
    and "2 < length (application_args (call f))"
    and "length (application_args (call f) ! 1) \<le> 8" 
    and "kv_get (globals f) ''executed'' = Uint 0"
    and "kv_get (globals f) ''refunded'' = Uint 0"
    and "kv_get (globals f) ''hashlock'' = Bytes (H (application_args (call f) ! 2))"
    and "kv_get (globals f) ''remaining_amount'' = Uint r"
    and "kv_get (globals f) ''total_filled'' = Uint tf"
    and "0 < btoi (application_args (call f) ! 1)" and "btoi (application_args (call f) ! 1) \<le> r"
    and "unat tf + unat (btoi (application_args (call f) ! 1)) < 2 ^ 64"
  shows "approved (handle_partial_fill H f)"
  using assms
  by (simp add: handle_partial_fill_def teal_defs keys approved_def)


lemmas run_defs = exec_def commit_def issued_def state_of_def approved_def start_def
  app_call_def app_create_def fresh_def demo_hash_def btoi_def kv_get_def
  partial_fill_program_def handle_creation_def handle_htlc_creation_def handle_partial_fill_def
  handle_withdrawal_def handle_public_claim_def handle_deposit_def

section \<open>Partial fills\<close>

lemma exec_fill:
  "fill_call t \<Longrightarrow> exec (partial_fill_program H) t s = handle_partial_fill H (start t s)"
proof -
  assume c: "fill_call t"
  then have "application_args (call (start t s)) \<noteq> []" by (auto simp: fill_call_def)
  then show ?thesis using c by (simp add: exec_def pf_route fill_call_def)
qed

lemma fill_step:
  assumes "fill_call t" and "approved (exec (partial_fill_program H) t s)"
  shows "\<exists>r tf. kv_get (global_state s) ''executed'' = Uint 0
     \<and> kv_get (global_state s) ''refunded'' = Uint 0
     \<and> kv_get (global_state s) ''hashlock'' = Bytes (H (application_args t ! 2))
     \<and> kv_get (global_state s) ''remaining_amount'' = Uint r
     \<and> kv_get (global_state s) ''total_filled'' = Uint tf
     \<and> 0 < fill_amount t \<and> fill_amount t \<le> r \<and> unat tf + unat (fill_amount t) < 2 ^ 64
     \<and> local_state (commit (partial_fill_program H) t s) = local_state s
     \<and> issued (partial_fill_program H) t s = []
     \<and> global_state (commit (partial_fill_program H) t s) =
          (if fill_amount t = r
           then (global_state s)(''total_filled'' \<mapsto> Uint (tf + r), ''remaining_amount'' \<mapsto> Uint 0,
                  ''executed'' \<mapsto> Uint 1)
           else (global_state s)(''total_filled'' \<mapsto> Uint (tf + fill_amount t),
                  ''remaining_amount'' \<mapsto> Uint (r - fill_amount t)))"
proof -
  have a: "approved (handle_partial_fill H (start t s))"
    using assms by (simp add: exec_fill)
  show ?thesis
    using pf_char [of "start t s" H] a assms
    by (auto simp: then_approved_def commit_def issued_def exec_fill state_of_def fill_amount_def)
qed

lemma fill_accounting:
  assumes "fill_call t" and "approved (exec (partial_fill_program H) t s)"
  shows "pf_filled (commit (partial_fill_program H) t s) = pf_filled s + unat (fill_amount t)"
    and "pf_remaining (commit (partial_fill_program H) t s) + unat (fill_amount t) = pf_remaining s"
    and "0 < fill_amount t" and "unat (fill_amount t) \<le> pf_remaining s"
    and "(pf_executed (commit (partial_fill_program H) t s) = Uint 1) = (unat (fill_amount t) = pf_remaining s)"
proof -
  from fill_step [OF assms] obtain r tf where
    e: "kv_get (global_state s) ''executed'' = Uint 0" and
    r: "kv_get (global_state s) ''remaining_amount'' = Uint r" and
    tf: "kv_get (global_state s) ''total_filled'' = Uint tf" and
    pos: "0 < fill_amount t" and le: "fill_amount t \<le> r" and
    nov: "unat tf + unat (fill_amount t) < 2 ^ 64" and
    g: "global_state (commit (partial_fill_program H) t s) =
          (if fill_amount t = r
           then (global_state s)(''total_filled'' \<mapsto> Uint (tf + r), ''remaining_amount'' \<mapsto> Uint 0,
                  ''executed'' \<mapsto> Uint 1)
           else (global_state s)(''total_filled'' \<mapsto> Uint (tf + fill_amount t),
                  ''remaining_amount'' \<mapsto> Uint (r - fill_amount t)))"
    by blast
  have sum: "unat (tf + fill_amount t) = unat tf + unat (fill_amount t)"
    using nov unat_add_lem [of tf "fill_amount t"] by simp
  have dif: "unat (r - fill_amount t) + unat (fill_amount t) = unat r"
    using le by (simp add: unat_sub word_le_nat_alt)
  show "pf_filled (commit (partial_fill_program H) t s) = pf_filled s + unat (fill_amount t)"
    using g tf sum by (auto simp: pf_filled_def kv_get_def)
  show "pf_remaining (commit (partial_fill_program H) t s) + unat (fill_amount t) = pf_remaining s"
    using g r dif by (auto simp: pf_remaining_def kv_get_def)
  show "0 < fill_amount t" by (rule pos)
  show "unat (fill_amount t) \<le> pf_remaining s"
    using le r by (simp add: pf_remaining_def word_le_nat_alt)
  show "(pf_executed (commit (partial_fill_program H) t s) = Uint 1) = (unat (fill_amount t) = pf_remaining s)"
  proof -
    have "(fill_amount t = r) = (unat (fill_amount t) = unat r)"
      by (rule word_unat_eq_iff)
    then show ?thesis
      using g r e by (auto simp: pf_executed_def pf_remaining_def kv_get_def)
  qed
qed

lemma fills_sum:
  "\<forall>t\<in>set ts. fill_call t \<Longrightarrow> all_approved (partial_fill_program H) ts s \<Longrightarrow>
   pf_filled (run (partial_fill_program H) ts s) = pf_filled s + sum_list (map (\<lambda>t. unat (fill_amount t)) ts) \<and>
   pf_remaining (run (partial_fill_program H) ts s) + sum_list (map (\<lambda>t. unat (fill_amount t)) ts) = pf_remaining s"
proof (induction ts arbitrary: s)
  case Nil
  then show ?case by simp
next
  case (Cons t ts)
  then have ft: "fill_call t" and ap: "approved (exec (partial_fill_program H) t s)"
    and rest: "all_approved (partial_fill_program H) ts (commit (partial_fill_program H) t s)"
    and all: "\<forall>t\<in>set ts. fill_call t"
    by simp_all
  from Cons.IH [OF all rest] fill_accounting(1,2) [OF ft ap]
  show ?case by simp
qed

lemma fill_rejected:
  assumes "fill_call t" and "kv_get (global_state s) ''remaining_amount'' = Uint r"
    and "fill_amount t = 0 \<or> r < fill_amount t"
  shows "failed (exec (partial_fill_program H) t s)"
    and "commit (partial_fill_program H) t s = s"
    and "issued (partial_fill_program H) t s = []"
proof -
  have "\<not> approved (exec (partial_fill_program H) t s)"
  proof
    assume ap: "approved (exec (partial_fill_program H) t s)"
    from fill_step [OF assms(1) ap] assms(2,3) show False by auto
  qed
  then show "failed (exec (partial_fill_program H) t s)"
    and "commit (partial_fill_program H) t s = s"
    and "issued (partial_fill_program H) t s = []"
    by (simp_all add: halting_exec commit_def issued_def del: failed_simps)
qed

lemma fill_rejected_tag:
  assumes "fill_call t" and "kv_get (global_state s) ''remaining_amount'' = Uint r"
    and "fill_amount t = 0 \<or> r < fill_amount t"
    and "pf_executed s = Uint 0" and "pf_refunded s = Uint 0"
    and "kv_get (global_state s) ''hashlock'' = Bytes (H (application_args t ! 2))"
  shows "halted (exec (partial_fill_program H) t s) = Some (Failed InvalidFillAmount)"
proof -
  have len: "2 < length (application_args t)" "Suc 0 < length (application_args t)"
    "length (application_args t ! Suc 0) \<le> 8"
    using assms(1) by (auto simp: fill_call_def)
  from assms(3) show ?thesis
  proof
    assume z: "fill_amount t = 0"
    then show ?thesis
      using assms(1,2,4,5,6) len
      by (simp add: exec_fill fill_amount_def pf_executed_def pf_refunded_def
          handle_partial_fill_def teal_defs keys)
  next
    assume "r < fill_amount t"
    then have "\<not> fill_amount t \<le> r" "fill_amount t \<noteq> 0" "0 < fill_amount t"
      by (auto simp: word_gt_0)
    then show ?thesis
      using assms(1,2,4,5,6) len
      by (simp add: exec_fill fill_amount_def pf_executed_def pf_refunded_def
          handle_partial_fill_def teal_defs keys)
  qed
qed


lemma fill_approved:
  assumes "fill_call t"
    and "kv_get (global_state s) ''executed'' = Uint 0"
    and "kv_get (global_state s) ''refunded'' = Uint 0"
    and "kv_get (global_state s) ''hashlock'' = Bytes (H (application_args t ! 2))"
    and "kv_get (global_state s) ''remaining_amount'' = Uint r"
    and "kv_get (global_state s) ''total_filled'' = Uint tf"
    and "0 < fill_amount t" and "fill_amount t \<le> r"
    and "unat tf + unat (fill_amount t) < 2 ^ 64"
  shows "approved (exec (partial_fill_program H) t s)"
proof -
  have "2 < length (application_args t)" "length (application_args t ! 1) \<le> 8"
    using assms(1) by (auto simp: fill_call_def)
  then show ?thesis
    using assms pf_accept [of "start t s" H r tf]
    by (simp add: exec_fill fill_amount_def)
qed

lemma fill_commit:
  assumes "fill_call t"
    and "kv_get (global_state s) ''executed'' = Uint 0"
    and "kv_get (global_state s) ''refunded'' = Uint 0"
    and "kv_get (global_state s) ''hashlock'' = Bytes (H (application_args t ! 2))"
    and "kv_get (global_state s) ''remaining_amount'' = Uint r"
    and "kv_get (global_state s) ''total_filled'' = Uint tf"
    and "0 < fill_amount t" and "fill_amount t \<le> r"
    and "unat tf + unat (fill_amount t) < 2 ^ 64"
  shows "commit (partial_fill_program H) t s =
     s\<lparr>global_state :=
          (if fill_amount t = r
           then (global_state s)(''total_filled'' \<mapsto> Uint (tf + r), ''remaining_amount'' \<mapsto> Uint 0,
                  ''executed'' \<mapsto> Uint 1)
           else (global_state s)(''total_filled'' \<mapsto> Uint (tf + fill_amount t),
                  ''remaining_amount'' \<mapsto> Uint (r - fill_amount t)))\<rparr>"
proof -
  have ap: "approved (exec (partial_fill_program H) t s)"
    using assms by (rule fill_approved)
  from fill_step [OF assms(1) ap] assms(5,6)
  have "global_state (commit (partial_fill_program H) t s) =
          (if fill_amount t = r
           then (global_state s)(''total_filled'' \<mapsto> Uint (tf + r), ''remaining_amount'' \<mapsto> Uint 0,
                  ''executed'' \<mapsto> Uint 1)
           else (global_state s)(''total_filled'' \<mapsto> Uint (tf + fill_amount t),
                  ''remaining_amount'' \<mapsto> Uint (r - fill_amount t)))"
    and "local_state (commit (partial_fill_program H) t s) = local_state s"
    by auto
  then show ?thesis by (cases s, cases "commit (partial_fill_program H) t s") simp
qed

lemma fill_early_tags:
  assumes "fill_call t"
  shows "kv_get (global_state s) ''executed'' = Uint 1 \<Longrightarrow>
           halted (exec (partial_fill_program H) t s) = Some (Failed AlreadyFinalized)"
    and "kv_get (global_state s) ''executed'' = Uint 0 \<Longrightarrow>
         kv_get (global_state s) ''refunded'' = Uint 1 \<Longrightarrow>
           halted (exec (partial_fill_program H) t s) = Some (Failed AlreadyFinalized)"
    and "kv_get (global_state s) ''executed'' = Uint 0 \<Longrightarrow>
         kv_get (global_state s) ''refunded'' = Uint 0 \<Longrightarrow>
         kv_get (global_state s) ''hashlock'' = Bytes h \<Longrightarrow> H (application_args t ! 2) \<noteq> h \<Longrightarrow>
           halted (exec (partial_fill_program H) t s) = Some (Failed HashMismatch)"
proof -
  have len: "2 < length (application_args t)" "Suc 0 < length (application_args t)"
    "length (application_args t ! Suc 0) \<le> 8"
    using assms(1) by (auto simp: fill_call_def)
  show "kv_get (global_state s) ''executed'' = Uint 1 \<Longrightarrow>
           halted (exec (partial_fill_program H) t s) = Some (Failed AlreadyFinalized)"
    using assms len by (simp add: exec_fill handle_partial_fill_def teal_defs keys)
  show "kv_get (global_state s) ''executed'' = Uint 0 \<Longrightarrow>
         kv_get (global_state s) ''refunded'' = Uint 1 \<Longrightarrow>
           halted (exec (partial_fill_program H) t s) = Some (Failed AlreadyFinalized)"
    using assms len by (simp add: exec_fill handle_partial_fill_def teal_defs keys)
  show "kv_get (global_state s) ''executed'' = Uint 0 \<Longrightarrow>
         kv_get (global_state s) ''refunded'' = Uint 0 \<Longrightarrow>
         kv_get (global_state s) ''hashlock'' = Bytes h \<Longrightarrow> H (application_args t ! 2) \<noteq> h \<Longrightarrow>
           halted (exec (partial_fill_program H) t s) = Some (Failed HashMismatch)"
    using assms len by (simp add: exec_fill handle_partial_fill_def teal_defs keys)
qed

lemma fills_accepted:
  assumes "\<forall>t\<in>set ts. fill_call t \<and> 0 < fill_amount t \<and> H (application_args t ! 2) = h"
    and "kv_get (global_state s) ''executed'' = Uint 0"
    and "kv_get (global_state s) ''refunded'' = Uint 0"
    and "kv_get (global_state s) ''hashlock'' = Bytes h"
    and "kv_get (global_state s) ''remaining_amount'' = Uint r"
    and "kv_get (global_state s) ''total_filled'' = Uint tf"
    and "sum_list (map (\<lambda>t. unat (fill_amount t)) ts) \<le> unat r"
    and "unat tf + sum_list (map (\<lambda>t. unat (fill_amount t)) ts) < 2 ^ 64"
  shows "all_approved (partial_fill_program H) ts s \<and>
     pf_executed (run (partial_fill_program H) ts s) =
       (if ts \<noteq> [] \<and> sum_list (map (\<lambda>t. unat (fill_amount t)) ts) = unat r then Uint 1 else Uint 0)"
  using assms
proof (induction ts arbitrary: s r tf)
  case Nil
  then show ?case by (simp add: pf_executed_def)
next
  case (Cons t ts)
  let ?P = "partial_fill_program H"
  let ?f = "fill_amount t"
  let ?S = "sum_list (map (\<lambda>t. unat (fill_amount t)) ts)"
  from Cons.prems(1) have c: "fill_call t" and pos: "0 < ?f"
    and hh: "H (application_args t ! 2) = h"
    and rest: "\<forall>t\<in>set ts. fill_call t \<and> 0 < fill_amount t \<and> H (application_args t ! 2) = h"
    by simp_all
  have hl: "kv_get (global_state s) ''hashlock'' = Bytes (H (application_args t ! 2))"
    using Cons.prems(4) hh by simp
  from Cons.prems(7) have le_n: "unat ?f + ?S \<le> unat r" by simp
  then have le: "?f \<le> r" by (simp add: word_le_nat_alt)
  from Cons.prems(8) have nov: "unat tf + unat ?f < 2 ^ 64" by simp
  have ap: "approved (exec ?P t s)"
    by (rule fill_approved [where H = H, OF c Cons.prems(2) Cons.prems(3) hl Cons.prems(5) Cons.prems(6) pos le nov])
  note cm = fill_commit [where H = H, OF c Cons.prems(2) Cons.prems(3) hl Cons.prems(5) Cons.prems(6) pos le nov]
  show ?case
  proof (cases "?f = r")
    case True
    then have "?S = 0" using le_n by simp
    moreover have "\<forall>t\<in>set ts. 0 < unat (fill_amount t)"
      using rest by (simp add: word_gt_0 unat_gt_0)
    ultimately have e: "ts = []" by (cases ts) auto
    have "pf_executed (commit ?P t s) = Uint 1"
      unfolding cm using True by (simp add: pf_executed_def kv_get_def)
    then show ?thesis using ap e True by simp
  next
    case False
    then have ne: "unat ?f \<noteq> unat r" by (simp add: word_unat_eq_iff)
    let ?s' = "commit ?P t s"
    have s': "?s' = s\<lparr>global_state := (global_state s)(''total_filled'' \<mapsto> Uint (tf + ?f),
                  ''remaining_amount'' \<mapsto> Uint (r - ?f))\<rparr>"
      unfolding cm using False by simp
    have k: "kv_get (global_state ?s') ''executed'' = Uint 0"
      "kv_get (global_state ?s') ''refunded'' = Uint 0"
      "kv_get (global_state ?s') ''hashlock'' = Bytes h"
      "kv_get (global_state ?s') ''remaining_amount'' = Uint (r - ?f)"
      "kv_get (global_state ?s') ''total_filled'' = Uint (tf + ?f)"
      unfolding s' using Cons.prems(2,3,4) by (simp_all add: kv_get_def)
    have dif: "unat (r - ?f) = unat r - unat ?f" using le by (simp add: unat_sub)
    have sum: "unat (tf + ?f) = unat tf + unat ?f"
      using nov unat_add_lem [of tf ?f] by simp
    have b1: "?S \<le> unat (r - ?f)" using le_n dif by simp
    have b2: "unat (tf + ?f) + ?S < 2 ^ 64" using Cons.prems(8) sum by simp
    note ih = Cons.IH [OF rest k b1 b2]
    have ex: "pf_executed (run ?P (t # ts) s) =
        (if unat ?f + ?S = unat r then Uint 1 else Uint 0)"
    proof (cases "ts = []")
      case True
      then show ?thesis using k(1) ne by (simp add: pf_executed_def)
    next
      case False
      then show ?thesis using ih dif le_n by auto
    qed
    show ?thesis using ap ih ex by simp
  qed
qed

text \<open>
  Claim C4, as the code has it. Fills with a matching secret and amounts above 0 whose
  sum is at most the remaining amount (so each is at most what remains when it is
  called), against a record that is not terminal, \<open>total_filled\<close> plus the sum fitting
  in 64 bits, are all accepted in call order; the final \<open>total_filled\<close> is the initial
  one plus the sum, \<open>remaining_amount\<close> falls by the sum, and \<open>executed\<close> is 1 at the
  end exactly when the sum is the whole remaining amount. For fills accepted one after
  the other the same sums hold; an accepted fill asked for more than 0 and at most the
  remaining amount, and it sets \<open>executed\<close> to 1 in the same call exactly when it
  brings the remaining amount to 0. A fill of 0 or of more than the remaining amount
  is rejected with the state unchanged and nothing issued: by the fill-amount assertion
  when the record is not terminal and the secret matches, by a terminal-flag assertion
  when \<open>executed\<close> or \<open>refunded\<close> is 1, by the hash assertion when the record is not
  terminal and the secret does not match.
\<close>

theorem fills_accumulate:
  "((\<forall>t\<in>set ts. fill_call t \<and> 0 < fill_amount t \<and> H (application_args t ! 2) = h) \<and>
    pf_executed s = Uint 0 \<and> pf_refunded s = Uint 0 \<and>
    kv_get (global_state s) ''hashlock'' = Bytes h \<and>
    kv_get (global_state s) ''remaining_amount'' = Uint r \<and>
    kv_get (global_state s) ''total_filled'' = Uint tf \<and>
    sum_list (map (\<lambda>t. unat (fill_amount t)) ts) \<le> unat r \<and>
    unat tf + sum_list (map (\<lambda>t. unat (fill_amount t)) ts) < 2 ^ 64 \<longrightarrow>
      all_approved (partial_fill_program H) ts s \<and>
      pf_filled (run (partial_fill_program H) ts s) =
        pf_filled s + sum_list (map (\<lambda>t. unat (fill_amount t)) ts) \<and>
      pf_remaining (run (partial_fill_program H) ts s) +
        sum_list (map (\<lambda>t. unat (fill_amount t)) ts) = pf_remaining s \<and>
      pf_executed (run (partial_fill_program H) ts s) =
        (if ts \<noteq> [] \<and> sum_list (map (\<lambda>t. unat (fill_amount t)) ts) = pf_remaining s
         then Uint 1 else Uint 0)) \<and>
   ((\<forall>t\<in>set ts. fill_call t) \<and> all_approved (partial_fill_program H) ts s \<longrightarrow>
      pf_filled (run (partial_fill_program H) ts s) =
        pf_filled s + sum_list (map (\<lambda>t. unat (fill_amount t)) ts) \<and>
      pf_remaining (run (partial_fill_program H) ts s) +
        sum_list (map (\<lambda>t. unat (fill_amount t)) ts) = pf_remaining s) \<and>
   (fill_call t \<and> approved (exec (partial_fill_program H) t s) \<longrightarrow>
      0 < fill_amount t \<and> unat (fill_amount t) \<le> pf_remaining s \<and>
      pf_remaining (commit (partial_fill_program H) t s) + unat (fill_amount t) = pf_remaining s \<and>
      (pf_executed (commit (partial_fill_program H) t s) = Uint 1) =
        (pf_remaining (commit (partial_fill_program H) t s) = 0)) \<and>
   (fill_call t \<and> kv_get (global_state s) ''remaining_amount'' = Uint q \<and>
      (fill_amount t = 0 \<or> q < fill_amount t) \<longrightarrow>
      failed (exec (partial_fill_program H) t s) \<and>
      commit (partial_fill_program H) t s = s \<and>
      issued (partial_fill_program H) t s = [] \<and>
      (pf_executed s = Uint 0 \<and> pf_refunded s = Uint 0 \<and>
       kv_get (global_state s) ''hashlock'' = Bytes (H (application_args t ! 2)) \<longrightarrow>
         halted (exec (partial_fill_program H) t s) = Some (Failed InvalidFillAmount)) \<and>
      (pf_executed s = Uint 1 \<longrightarrow>
         halted (exec (partial_fill_program H) t s) = Some (Failed AlreadyFinalized)) \<and>
      (pf_executed s = Uint 0 \<and> pf_refunded s = Uint 1 \<longrightarrow>
         halted (exec (partial_fill_program H) t s) = Some (Failed AlreadyFinalized)) \<and>
      (pf_executed s = Uint 0 \<and> pf_refunded s = Uint 0 \<and>
       kv_get (global_state s) ''hashlock'' = Bytes g \<and> H (application_args t ! 2) \<noteq> g \<longrightarrow>
         halted (exec (partial_fill_program H) t s) = Some (Failed HashMismatch)))"
proof (intro conjI impI)
  let ?P = "partial_fill_program H"
  let ?S = "sum_list (map (\<lambda>t. unat (fill_amount t)) ts)"
  assume a: "(\<forall>t\<in>set ts. fill_call t \<and> 0 < fill_amount t \<and> H (application_args t ! 2) = h) \<and>
    pf_executed s = Uint 0 \<and> pf_refunded s = Uint 0 \<and>
    kv_get (global_state s) ''hashlock'' = Bytes h \<and>
    kv_get (global_state s) ''remaining_amount'' = Uint r \<and>
    kv_get (global_state s) ''total_filled'' = Uint tf \<and>
    ?S \<le> unat r \<and> unat tf + ?S < 2 ^ 64"
  then have calls: "\<forall>t\<in>set ts. fill_call t \<and> 0 < fill_amount t \<and> H (application_args t ! 2) = h"
    and e: "kv_get (global_state s) ''executed'' = Uint 0"
    and rf: "kv_get (global_state s) ''refunded'' = Uint 0"
    and hl: "kv_get (global_state s) ''hashlock'' = Bytes h"
    and r: "kv_get (global_state s) ''remaining_amount'' = Uint r"
    and tf: "kv_get (global_state s) ''total_filled'' = Uint tf"
    and le: "?S \<le> unat r" and nov: "unat tf + ?S < 2 ^ 64"
    by (simp_all add: pf_executed_def pf_refunded_def)
  note acc = fills_accepted [where H = H, OF calls e rf hl r tf le nov]
  have fc: "\<forall>t\<in>set ts. fill_call t" using calls by simp
  have ap: "all_approved ?P ts s" using acc by simp
  note sums = fills_sum [OF fc ap]
  show "all_approved ?P ts s" by (rule ap)
  show "pf_filled (run ?P ts s) = pf_filled s + ?S" using sums by simp
  show "pf_remaining (run ?P ts s) + ?S = pf_remaining s" using sums by simp
  show "pf_executed (run ?P ts s) = (if ts \<noteq> [] \<and> ?S = pf_remaining s then Uint 1 else Uint 0)"
    using acc r by (simp add: pf_remaining_def)
next
  assume "(\<forall>t\<in>set ts. fill_call t) \<and> all_approved (partial_fill_program H) ts s"
  then have "pf_filled (run (partial_fill_program H) ts s) =
        pf_filled s + sum_list (map (\<lambda>t. unat (fill_amount t)) ts) \<and>
      pf_remaining (run (partial_fill_program H) ts s) +
        sum_list (map (\<lambda>t. unat (fill_amount t)) ts) = pf_remaining s"
    using fills_sum by blast
  then show "pf_filled (run (partial_fill_program H) ts s) =
        pf_filled s + sum_list (map (\<lambda>t. unat (fill_amount t)) ts)"
    and "pf_remaining (run (partial_fill_program H) ts s) +
        sum_list (map (\<lambda>t. unat (fill_amount t)) ts) = pf_remaining s"
    by simp_all
next
  assume a: "fill_call t \<and> approved (exec (partial_fill_program H) t s)"
  then have c: "fill_call t" and ap: "approved (exec (partial_fill_program H) t s)" by simp_all
  note acc = fill_accounting [OF c ap]
  show "0 < fill_amount t" by (rule acc(3))
  show "unat (fill_amount t) \<le> pf_remaining s" by (rule acc(4))
  show "pf_remaining (commit (partial_fill_program H) t s) + unat (fill_amount t) = pf_remaining s"
    by (rule acc(2))
  show "(pf_executed (commit (partial_fill_program H) t s) = Uint 1) =
        (pf_remaining (commit (partial_fill_program H) t s) = 0)"
    using acc(2) acc(5) by auto
next
  assume a: "fill_call t \<and> kv_get (global_state s) ''remaining_amount'' = Uint q \<and>
      (fill_amount t = 0 \<or> q < fill_amount t)"
  then have c: "fill_call t" and r: "kv_get (global_state s) ''remaining_amount'' = Uint q"
    and bad: "fill_amount t = 0 \<or> q < fill_amount t" by simp_all
  show "failed (exec (partial_fill_program H) t s)" by (rule fill_rejected(1) [OF c r bad])
  show "commit (partial_fill_program H) t s = s" by (rule fill_rejected(2) [OF c r bad])
  show "issued (partial_fill_program H) t s = []" by (rule fill_rejected(3) [OF c r bad])
  {
    assume "pf_executed s = Uint 0 \<and> pf_refunded s = Uint 0 \<and>
       kv_get (global_state s) ''hashlock'' = Bytes (H (application_args t ! 2))"
    then show "halted (exec (partial_fill_program H) t s) = Some (Failed InvalidFillAmount)"
      using fill_rejected_tag [OF c r bad] by simp
  }
  {
    assume "pf_executed s = Uint 1"
    then show "halted (exec (partial_fill_program H) t s) = Some (Failed AlreadyFinalized)"
      using fill_early_tags(1) [OF c] by (simp add: pf_executed_def)
  }
  {
    assume "pf_executed s = Uint 0 \<and> pf_refunded s = Uint 1"
    then show "halted (exec (partial_fill_program H) t s) = Some (Failed AlreadyFinalized)"
      using fill_early_tags(2) [OF c] by (simp add: pf_executed_def pf_refunded_def)
  }
  {
    assume "pf_executed s = Uint 0 \<and> pf_refunded s = Uint 0 \<and>
       kv_get (global_state s) ''hashlock'' = Bytes g \<and> H (application_args t ! 2) \<noteq> g"
    then show "halted (exec (partial_fill_program H) t s) = Some (Failed HashMismatch)"
      using fill_early_tags(3) [OF c, where H = H and h = g] by (simp add: pf_executed_def pf_refunded_def)
  }
qed

theorem fills_accumulate_witness:
  "all_approved (partial_fill_program demo_hash)
     [app_call ''X'' [''partial_fill'', [CHR 0x01, CHR 0x2C], ''abc''] 1001,
      app_call ''Y'' [''partial_fill'', [CHR 0xC8], ''abc''] 1002] pf_sample \<and>
   pf_filled (run (partial_fill_program demo_hash)
     [app_call ''X'' [''partial_fill'', [CHR 0x01, CHR 0x2C], ''abc''] 1001,
      app_call ''Y'' [''partial_fill'', [CHR 0xC8], ''abc''] 1002] pf_sample) = 500 \<and>
   pf_remaining (run (partial_fill_program demo_hash)
     [app_call ''X'' [''partial_fill'', [CHR 0x01, CHR 0x2C], ''abc''] 1001,
      app_call ''Y'' [''partial_fill'', [CHR 0xC8], ''abc''] 1002] pf_sample) = 0 \<and>
   pf_executed (run (partial_fill_program demo_hash)
     [app_call ''X'' [''partial_fill'', [CHR 0x01, CHR 0x2C], ''abc''] 1001,
      app_call ''Y'' [''partial_fill'', [CHR 0xC8], ''abc''] 1002] pf_sample) = Uint 1 \<and>
   pf_executed (run (partial_fill_program demo_hash)
     [app_call ''X'' [''partial_fill'', [CHR 0x01, CHR 0x2C], ''abc''] 1001] pf_sample) = Uint 0 \<and>
   approved (exec (partial_fill_program demo_hash)
      (app_call ''X'' [''partial_fill'', [CHR 0x01, CHR 0xF4], ''abc''] 1001) pf_sample) \<and>
   pf_executed (commit (partial_fill_program demo_hash)
      (app_call ''X'' [''partial_fill'', [CHR 0x01, CHR 0xF4], ''abc''] 1001) pf_sample) = Uint 1 \<and>
   halted (exec (partial_fill_program demo_hash)
      (app_call ''Z'' [''partial_fill'', [CHR 0x01, CHR 0xF5], ''abc''] 1003) pf_sample)
     = Some (Failed InvalidFillAmount) \<and>
   commit (partial_fill_program demo_hash)
      (app_call ''Z'' [''partial_fill'', [CHR 0x01, CHR 0xF5], ''abc''] 1003) pf_sample
     = pf_sample"
proof -
  let ?P = "partial_fill_program demo_hash"
  let ?t1 = "app_call ''X'' [''partial_fill'', [CHR 0x01, CHR 0x2C], ''abc''] 1001"
  let ?t2 = "app_call ''Y'' [''partial_fill'', [CHR 0xC8], ''abc''] 1002"
  let ?t3 = "app_call ''Z'' [''partial_fill'', [CHR 0x01, CHR 0xF5], ''abc''] 1003"
  let ?t4 = "app_call ''X'' [''partial_fill'', [CHR 0x01, CHR 0xF4], ''abc''] 1001"
  have calls: "fill_call ?t1" "fill_call ?t2" "fill_call ?t3" "fill_call ?t4"
    by (simp_all add: fill_call_def app_call_def)
  have amounts: "fill_amount ?t1 = 300" "fill_amount ?t2 = 200" "fill_amount ?t3 = 501" "fill_amount ?t4 = 500"
    by (simp_all add: fill_amount_def app_call_def btoi_def)
  have args: "application_args ?t1 ! 2 = ''abc''" "application_args ?t2 ! 2 = ''abc''"
    "application_args ?t3 ! 2 = ''abc''" "application_args ?t4 ! 2 = ''abc''"
    by (simp_all add: app_call_def)
  have pre: "pf_filled pf_sample = 0" "pf_remaining pf_sample = 500" "pf_executed pf_sample = Uint 0"
    "pf_refunded pf_sample = Uint 0"
    "kv_get (global_state pf_sample) ''remaining_amount'' = Uint 500"
    "kv_get (global_state pf_sample) ''total_filled'' = Uint 0"
    "kv_get (global_state pf_sample) ''hashlock'' = Bytes (demo_hash ''abc'')"
    by (simp_all add: pf_sample_def pf_filled_def pf_remaining_def pf_executed_def pf_refunded_def
        kv_get_def)
  from fills_accumulate [of "[?t1, ?t2]" demo_hash "demo_hash ''abc''" pf_sample 500 0]
    calls amounts args pre
  have a: "all_approved ?P [?t1, ?t2] pf_sample"
    "pf_filled (run ?P [?t1, ?t2] pf_sample) = 500" "pf_remaining (run ?P [?t1, ?t2] pf_sample) = 0"
    "pf_executed (run ?P [?t1, ?t2] pf_sample) = Uint 1"
    by simp_all
  from fills_accumulate [of "[?t1]" demo_hash "demo_hash ''abc''" pf_sample 500 0]
    calls amounts args pre
  have b: "pf_executed (run ?P [?t1] pf_sample) = Uint 0"
    by simp
  from fills_accumulate [of "[?t4]" demo_hash "demo_hash ''abc''" pf_sample 500 0]
    calls amounts args pre
  have c: "approved (exec ?P ?t4 pf_sample)"
    by simp
  from fills_accumulate [of "[]" demo_hash "demo_hash ''abc''" pf_sample 500 0 ?t4] c
    calls amounts args pre
  have d: "pf_executed (commit ?P ?t4 pf_sample) = Uint 1"
    by simp
  from fills_accumulate [of "[]" demo_hash "demo_hash ''abc''" pf_sample 500 0 ?t3 500]
    calls amounts args pre
  have e: "halted (exec ?P ?t3 pf_sample) = Some (Failed InvalidFillAmount)" "commit ?P ?t3 pf_sample = pf_sample"
    by simp_all
  from a b c d e show ?thesis by simp
qed

text \<open>
  A fill of 501 against 500 remaining, with a secret that does not match, is rejected
  by the hash assertion, which comes before the fill-amount assertion.
\<close>

theorem overfill_wrong_secret_counterexample:
  "fill_call (app_call ''Z'' [''partial_fill'', [CHR 0x01, CHR 0xF5], ''abd''] 1003) \<and>
   fill_amount (app_call ''Z'' [''partial_fill'', [CHR 0x01, CHR 0xF5], ''abd''] 1003) = 501 \<and>
   pf_remaining pf_sample = 500 \<and>
   halted (exec (partial_fill_program demo_hash)
      (app_call ''Z'' [''partial_fill'', [CHR 0x01, CHR 0xF5], ''abd''] 1003) pf_sample)
     = Some (Failed HashMismatch)"
proof -
  let ?t = "app_call ''Z'' [''partial_fill'', [CHR 0x01, CHR 0xF5], ''abd''] 1003"
  have c: "fill_call ?t" by (simp add: fill_call_def app_call_def)
  have a: "fill_amount ?t = 501" by (simp add: fill_amount_def app_call_def btoi_def)
  have k: "kv_get (global_state pf_sample) ''executed'' = Uint 0"
    "kv_get (global_state pf_sample) ''refunded'' = Uint 0"
    "kv_get (global_state pf_sample) ''hashlock'' = Bytes (demo_hash ''abc'')"
    "pf_remaining pf_sample = 500"
    by (simp_all add: pf_sample_def kv_get_def pf_remaining_def)
  have d: "demo_hash (application_args ?t ! 2) \<noteq> demo_hash ''abc''"
    by (simp add: app_call_def demo_hash_def)
  from fill_early_tags(3) [where H = demo_hash, OF c k(1) k(2) k(3) d] c a k(4) show ?thesis by simp
qed


section \<open>The other partial-fill operations\<close>

lemma state_eqI:
  "global_state a = global_state b \<Longrightarrow> local_state a = local_state b \<Longrightarrow> a = (b :: app_state)"
  by simp

lemma exec_pf_creation:
  "application_id t = 0 \<Longrightarrow> exec (partial_fill_program H) t s = handle_creation (start t s)"
  by (simp add: exec_def partial_fill_program_def c_Eq_appid)

lemma exec_pf_named:
  assumes "application_id t \<noteq> 0" and "application_args t \<noteq> []"
  shows "exec (partial_fill_program H) t s =
    (if application_args t ! 0 = ''create_htlc'' then handle_htlc_creation (start t s)
     else if application_args t ! 0 = ''partial_fill'' then handle_partial_fill H (start t s)
     else if application_args t ! 0 = ''withdraw'' then handle_withdrawal (start t s)
     else if application_args t ! 0 = ''public_claim'' then handle_public_claim H (start t s)
     else if application_args t ! 0 = ''deposit'' then handle_deposit (start t s)
     else fail Rejected (start t s))"
  using assms pf_route [of "start t s" H] by (simp add: exec_def Let_def)

lemma pf_creation_commit:
  assumes "application_id t = 0"
  shows "approved (exec (partial_fill_program H) t s)"
    and "commit (partial_fill_program H) t s = s\<lparr>global_state := (global_state s)
      (''total_deposited'' \<mapsto> Uint 0, ''total_filled'' \<mapsto> Uint 0, ''remaining_amount'' \<mapsto> Uint 0,
       ''executed'' \<mapsto> Uint 0, ''refunded'' \<mapsto> Uint 0, ''partial_fills_enabled'' \<mapsto> Uint 0)\<rparr>"
  using assms
  by (simp_all add: commit_def exec_pf_creation handle_creation_def teal_defs keys approved_def state_of_def)

lemma pf_create_commit:
  assumes "pf_create_call t"
  shows "approved (exec (partial_fill_program H) t s)"
    and "commit (partial_fill_program H) t s = s\<lparr>global_state := (global_state s)
      (''hashlock'' \<mapsto> Bytes (application_args t ! 1),
       ''timelock'' \<mapsto> Uint (btoi (application_args t ! 2)),
       ''recipient'' \<mapsto> Bytes (application_args t ! 3),
       ''maker'' \<mapsto> Bytes (application_args t ! 4),
       ''partial_fills_enabled'' \<mapsto> Uint (btoi (application_args t ! 5)))\<rparr>"
proof -
  have ne: "application_id t \<noteq> 0" "application_args t \<noteq> []" "application_args t ! 0 = ''create_htlc''"
    and len: "Suc 0 < length (application_args t)" "2 < length (application_args t)"
      "3 < length (application_args t)" "4 < length (application_args t)" "5 < length (application_args t)"
      "length (application_args t ! 2) \<le> 8" "length (application_args t ! 5) \<le> 8"
    using assms by (auto simp: pf_create_call_def)
  have e: "exec (partial_fill_program H) t s = handle_htlc_creation (start t s)"
    using ne by (simp add: exec_pf_named)
  show "approved (exec (partial_fill_program H) t s)"
    unfolding e using len by (simp add: handle_htlc_creation_def teal_defs keys approved_def)
  then show "commit (partial_fill_program H) t s = s\<lparr>global_state := (global_state s)
      (''hashlock'' \<mapsto> Bytes (application_args t ! 1),
       ''timelock'' \<mapsto> Uint (btoi (application_args t ! 2)),
       ''recipient'' \<mapsto> Bytes (application_args t ! 3),
       ''maker'' \<mapsto> Bytes (application_args t ! 4),
       ''partial_fills_enabled'' \<mapsto> Uint (btoi (application_args t ! 5)))\<rparr>"
    unfolding commit_def e using len
    by (simp add: handle_htlc_creation_def teal_defs keys state_of_def)
qed

lemma deposit_commit:
  assumes "deposit_call t" and "kv_get (global_state s) ''total_deposited'' = Uint d"
    and "unat d + unat (deposit_amount t) < 2 ^ 64"
  shows "approved (exec (partial_fill_program H) t s)"
    and "commit (partial_fill_program H) t s = s\<lparr>global_state := (global_state s)
      (''total_deposited'' \<mapsto> Uint (d + deposit_amount t),
       ''remaining_amount'' \<mapsto> Uint (d + deposit_amount t))\<rparr>"
proof -
  have ne: "application_id t \<noteq> 0" "application_args t \<noteq> []" "application_args t ! 0 = ''deposit''"
    and len: "Suc 0 < length (application_args t)" "length (application_args t ! Suc 0) \<le> 8"
    using assms(1) by (auto simp: deposit_call_def)
  have e: "exec (partial_fill_program H) t s = handle_deposit (start t s)"
    using ne by (simp add: exec_pf_named)
  show "approved (exec (partial_fill_program H) t s)"
    unfolding e using len assms(2,3)
    by (simp add: handle_deposit_def teal_defs keys approved_def deposit_amount_def)
  then show "commit (partial_fill_program H) t s = s\<lparr>global_state := (global_state s)
      (''total_deposited'' \<mapsto> Uint (d + deposit_amount t),
       ''remaining_amount'' \<mapsto> Uint (d + deposit_amount t))\<rparr>"
    unfolding commit_def e using len assms(2,3)
    by (simp add: handle_deposit_def teal_defs keys state_of_def deposit_amount_def)
qed

lemma claim_commit:
  assumes "claim_call t"
    and "kv_get (global_state s) ''executed'' = Uint 0"
    and "kv_get (global_state s) ''refunded'' = Uint 0"
    and "kv_get (global_state s) ''hashlock'' = Bytes (H (application_args t ! 1))"
  shows "approved (exec (partial_fill_program H) t s)"
    and "commit (partial_fill_program H) t s =
      s\<lparr>global_state := (global_state s)(''executed'' \<mapsto> Uint 1)\<rparr>"
proof -
  have ne: "application_id t \<noteq> 0" "application_args t \<noteq> []" "application_args t ! 0 = ''public_claim''"
    and len: "Suc 0 < length (application_args t)"
    using assms(1) by (auto simp: claim_call_def)
  have e: "exec (partial_fill_program H) t s = handle_public_claim H (start t s)"
    using ne by (simp add: exec_pf_named)
  show "approved (exec (partial_fill_program H) t s)"
    unfolding e using len assms(2,3,4)
    by (simp add: handle_public_claim_def teal_defs keys approved_def)
  then show "commit (partial_fill_program H) t s =
      s\<lparr>global_state := (global_state s)(''executed'' \<mapsto> Uint 1)\<rparr>"
    unfolding commit_def e using len assms(2,3,4)
    by (simp add: handle_public_claim_def teal_defs keys state_of_def)
qed

lemma fill_overflow:
  assumes "fill_call t"
    and "kv_get (global_state s) ''executed'' = Uint 0"
    and "kv_get (global_state s) ''refunded'' = Uint 0"
    and "kv_get (global_state s) ''hashlock'' = Bytes (H (application_args t ! 2))"
    and "kv_get (global_state s) ''remaining_amount'' = Uint r"
    and "kv_get (global_state s) ''total_filled'' = Uint tf"
    and "0 < fill_amount t" and "fill_amount t \<le> r"
    and "\<not> unat tf + unat (fill_amount t) < 2 ^ 64"
  shows "halted (exec (partial_fill_program H) t s) = Some (Failed Overflow)"
proof -
  have len: "2 < length (application_args t)" "Suc 0 < length (application_args t)"
    "length (application_args t ! Suc 0) \<le> 8"
    using assms(1) by (auto simp: fill_call_def)
  show ?thesis
    using assms len
    by (simp add: exec_fill fill_amount_def handle_partial_fill_def teal_defs keys)
qed

lemma run_append: "run p (xs @ ys) s = run p ys (run p xs s)"
  by (induction xs arbitrary: s) simp_all


lemma pf_setup_reads:
  "kv_get (global_state (run (partial_fill_program demo_hash) pf_setup fresh)) ''executed'' = Uint 0"
  "kv_get (global_state (run (partial_fill_program demo_hash) pf_setup fresh)) ''refunded'' = Uint 0"
  "kv_get (global_state (run (partial_fill_program demo_hash) pf_setup fresh)) ''hashlock'' = Bytes (demo_hash ''abc'')"
  "kv_get (global_state (run (partial_fill_program demo_hash) pf_setup fresh)) ''total_deposited'' = Uint 0"
  "kv_get (global_state (run (partial_fill_program demo_hash) pf_setup fresh)) ''total_filled'' = Uint 0"
  "kv_get (global_state (run (partial_fill_program demo_hash) pf_setup fresh)) ''remaining_amount'' = Uint 0"
proof -
  let ?P = "partial_fill_program demo_hash"
  let ?c1 = "app_call ''M'' [''create_htlc'', demo_hash ''abc'', [CHR 0x20, CHR 0x00], ''R'', ''M'', [CHR 0x01]] 1000"
  have c0: "application_id (app_create ''M'' [] 1000) = 0" by (simp add: app_create_def)
  have c1: "pf_create_call ?c1" by (simp add: pf_create_call_def app_call_def)
  have a: "application_args ?c1 ! 1 = demo_hash ''abc''" by (simp add: app_call_def)
  have s: "run ?P pf_setup fresh = commit ?P ?c1 (commit ?P (app_create ''M'' [] 1000) fresh)"
    by (simp add: pf_setup_def)
  show "kv_get (global_state (run ?P pf_setup fresh)) ''executed'' = Uint 0"
    "kv_get (global_state (run ?P pf_setup fresh)) ''refunded'' = Uint 0"
    "kv_get (global_state (run ?P pf_setup fresh)) ''hashlock'' = Bytes (demo_hash ''abc'')"
    "kv_get (global_state (run ?P pf_setup fresh)) ''total_deposited'' = Uint 0"
    "kv_get (global_state (run ?P pf_setup fresh)) ''total_filled'' = Uint 0"
    "kv_get (global_state (run ?P pf_setup fresh)) ''remaining_amount'' = Uint 0"
    unfolding s pf_create_commit(2) [OF c1] pf_creation_commit(2) [OF c0]
    by (simp_all add: kv_get_def app_call_def)
qed

text \<open>
  Claim C10, as the code has it. A fill of a record that is not terminal, with a
  matching secret and an amount above 0 and at most the remaining amount, is approved
  whatever \<open>partial_fills_enabled\<close>, \<open>timelock\<close> and the clock are, provided
  \<open>total_filled\<close> plus the amount fits in 64 bits; \<open>public_claim\<close> of such a record
  is approved whatever the timelock and the clock are.
\<close>

theorem fill_ignores_flag_and_timelock:
  "(fill_call t \<and>
    kv_get (global_state s) ''executed'' = Uint 0 \<and>
    kv_get (global_state s) ''refunded'' = Uint 0 \<and>
    kv_get (global_state s) ''hashlock'' = Bytes (H (application_args t ! 2)) \<and>
    kv_get (global_state s) ''remaining_amount'' = Uint r \<and>
    kv_get (global_state s) ''total_filled'' = Uint tf \<and>
    0 < fill_amount t \<and> fill_amount t \<le> r \<and>
    unat tf + unat (fill_amount t) < 2 ^ 64 \<longrightarrow>
      approved (exec (partial_fill_program H) (t\<lparr>latest_timestamp := now\<rparr>)
        (s\<lparr>global_state := (global_state s)(''partial_fills_enabled'' := en, ''timelock'' := tlock)\<rparr>))) \<and>
   (claim_call t \<and>
    kv_get (global_state s) ''executed'' = Uint 0 \<and>
    kv_get (global_state s) ''refunded'' = Uint 0 \<and>
    kv_get (global_state s) ''hashlock'' = Bytes (H (application_args t ! 1)) \<longrightarrow>
      approved (exec (partial_fill_program H) (t\<lparr>latest_timestamp := now\<rparr>)
        (s\<lparr>global_state := (global_state s)(''partial_fills_enabled'' := en, ''timelock'' := tlock)\<rparr>)))"
proof (intro conjI impI)
  let ?t = "t\<lparr>latest_timestamp := now\<rparr>"
  let ?s = "s\<lparr>global_state := (global_state s)(''partial_fills_enabled'' := en, ''timelock'' := tlock)\<rparr>"
  assume a: "fill_call t \<and>
    kv_get (global_state s) ''executed'' = Uint 0 \<and>
    kv_get (global_state s) ''refunded'' = Uint 0 \<and>
    kv_get (global_state s) ''hashlock'' = Bytes (H (application_args t ! 2)) \<and>
    kv_get (global_state s) ''remaining_amount'' = Uint r \<and>
    kv_get (global_state s) ''total_filled'' = Uint tf \<and>
    0 < fill_amount t \<and> fill_amount t \<le> r \<and>
    unat tf + unat (fill_amount t) < 2 ^ 64"
  have "fill_call ?t" using a by (simp add: fill_call_def)
  moreover have "fill_amount ?t = fill_amount t" by (simp add: fill_amount_def)
  ultimately show "approved (exec (partial_fill_program H) ?t ?s)"
    using a by (intro fill_approved [where r = r and tf = tf]) (simp_all add: kv_get_def)
next
  let ?t = "t\<lparr>latest_timestamp := now\<rparr>"
  let ?s = "s\<lparr>global_state := (global_state s)(''partial_fills_enabled'' := en, ''timelock'' := tlock)\<rparr>"
  assume a: "claim_call t \<and>
    kv_get (global_state s) ''executed'' = Uint 0 \<and>
    kv_get (global_state s) ''refunded'' = Uint 0 \<and>
    kv_get (global_state s) ''hashlock'' = Bytes (H (application_args t ! 1))"
  have "claim_call ?t" using a by (simp add: claim_call_def)
  then show "approved (exec (partial_fill_program H) ?t ?s)"
    using a by (intro claim_commit(1)) (simp_all add: kv_get_def)
qed

theorem fill_ignores_flag_and_timelock_witness:
  "approved (exec (partial_fill_program demo_hash)
      (app_call ''X'' [''partial_fill'', [CHR 0x01, CHR 0x2C], ''abc''] 999999)
      (pf_sample\<lparr>global_state := (global_state pf_sample)
         (''partial_fills_enabled'' := Some (Uint 0), ''timelock'' := Some (Uint 5))\<rparr>)) \<and>
   approved (exec (partial_fill_program demo_hash)
      (app_call ''X'' [''public_claim'', ''abc''] 999999)
      (pf_sample\<lparr>global_state := (global_state pf_sample)
         (''partial_fills_enabled'' := Some (Uint 0), ''timelock'' := Some (Uint 5))\<rparr>))"
proof -
  let ?t = "app_call ''X'' [''partial_fill'', [CHR 0x01, CHR 0x2C], ''abc''] 7"
  let ?u = "app_call ''X'' [''public_claim'', ''abc''] 7"
  have t: "?t\<lparr>latest_timestamp := 999999\<rparr> =
      app_call ''X'' [''partial_fill'', [CHR 0x01, CHR 0x2C], ''abc''] 999999"
    and u: "?u\<lparr>latest_timestamp := 999999\<rparr> = app_call ''X'' [''public_claim'', ''abc''] 999999"
    by (simp_all add: app_call_def)
  have h: "fill_call ?t" "claim_call ?u" "fill_amount ?t = 300"
    "application_args ?t ! 2 = ''abc''" "application_args ?u ! 1 = ''abc''"
    by (simp_all add: fill_call_def claim_call_def fill_amount_def app_call_def btoi_def)
  have k: "kv_get (global_state pf_sample) ''executed'' = Uint 0"
    "kv_get (global_state pf_sample) ''refunded'' = Uint 0"
    "kv_get (global_state pf_sample) ''hashlock'' = Bytes (demo_hash ''abc'')"
    "kv_get (global_state pf_sample) ''remaining_amount'' = Uint 500"
    "kv_get (global_state pf_sample) ''total_filled'' = Uint 0"
    by (simp_all add: pf_sample_def kv_get_def)
  from fill_ignores_flag_and_timelock
    [of ?t pf_sample demo_hash 500 0 999999 "Some (Uint 0)" "Some (Uint 5)"] h k
  have a: "approved (exec (partial_fill_program demo_hash) (?t\<lparr>latest_timestamp := 999999\<rparr>)
      (pf_sample\<lparr>global_state := (global_state pf_sample)
         (''partial_fills_enabled'' := Some (Uint 0), ''timelock'' := Some (Uint 5))\<rparr>))"
    by simp
  from fill_ignores_flag_and_timelock
    [of ?u pf_sample demo_hash 500 0 999999 "Some (Uint 0)" "Some (Uint 5)"] h k
  have b: "approved (exec (partial_fill_program demo_hash) (?u\<lparr>latest_timestamp := 999999\<rparr>)
      (pf_sample\<lparr>global_state := (global_state pf_sample)
         (''partial_fills_enabled'' := Some (Uint 0), ''timelock'' := Some (Uint 5))\<rparr>))"
    by simp
  from a b show ?thesis unfolding t u by simp
qed

text \<open>
  Claim C10 as stated fails where the addition overflows: after a deposit of
  \<open>2^64 - 1\<close>, a fill of \<open>2^64 - 2\<close> and a deposit of 0 (which puts
  \<open>remaining_amount\<close> back to the whole deposit), a fill of 2 meets every condition
  of the claim and is rejected.
\<close>

theorem fill_overflow_counterexample:
  "pf_executed (run (partial_fill_program demo_hash) pf_overflow_setup fresh) = Uint 0 \<and>
   pf_refunded (run (partial_fill_program demo_hash) pf_overflow_setup fresh) = Uint 0 \<and>
   kv_get (global_state (run (partial_fill_program demo_hash) pf_overflow_setup fresh)) ''hashlock'' =
     Bytes (demo_hash ''abc'') \<and>
   kv_get (global_state (run (partial_fill_program demo_hash) pf_overflow_setup fresh)) ''remaining_amount'' =
     Uint 18446744073709551615 \<and>
   fill_call (app_call ''Y'' [''partial_fill'', [CHR 0x02], ''abc''] 1003) \<and>
   fill_amount (app_call ''Y'' [''partial_fill'', [CHR 0x02], ''abc''] 1003) = 2 \<and>
   halted (exec (partial_fill_program demo_hash)
     (app_call ''Y'' [''partial_fill'', [CHR 0x02], ''abc''] 1003)
     (run (partial_fill_program demo_hash) pf_overflow_setup fresh)) = Some (Failed Overflow)"
proof -
  let ?P = "partial_fill_program demo_hash"
  let ?s0 = "run ?P pf_setup fresh"
  let ?d1 = "app_call ''M'' [''deposit'',
        [CHR 0xFF, CHR 0xFF, CHR 0xFF, CHR 0xFF, CHR 0xFF, CHR 0xFF, CHR 0xFF, CHR 0xFF]] 1000"
  let ?f1 = "app_call ''X'' [''partial_fill'',
        [CHR 0xFF, CHR 0xFF, CHR 0xFF, CHR 0xFF, CHR 0xFF, CHR 0xFF, CHR 0xFF, CHR 0xFE], ''abc''] 1001"
  let ?d2 = "app_call ''M'' [''deposit'', [CHR 0x00]] 1002"
  let ?t = "app_call ''Y'' [''partial_fill'', [CHR 0x02], ''abc''] 1003"
  have calls: "deposit_call ?d1" "fill_call ?f1" "deposit_call ?d2" "fill_call ?t"
    by (simp_all add: deposit_call_def fill_call_def app_call_def)
  have amounts: "deposit_amount ?d1 = 18446744073709551615" "fill_amount ?f1 = 18446744073709551614"
    "deposit_amount ?d2 = 0" "fill_amount ?t = 2"
    by (simp_all add: deposit_amount_def fill_amount_def app_call_def btoi_def)
  have args: "application_args ?f1 ! 2 = ''abc''" "application_args ?t ! 2 = ''abc''"
    by (simp_all add: app_call_def)
  have s1: "commit ?P ?d1 ?s0 = ?s0\<lparr>global_state := (global_state ?s0)
      (''total_deposited'' \<mapsto> Uint 18446744073709551615,
       ''remaining_amount'' \<mapsto> Uint 18446744073709551615)\<rparr>"
    using deposit_commit(2) [OF calls(1), of ?s0 0 demo_hash] by (simp add: pf_setup_reads amounts)
  let ?s1 = "commit ?P ?d1 ?s0"
  have r1: "kv_get (global_state ?s1) ''executed'' = Uint 0"
    "kv_get (global_state ?s1) ''refunded'' = Uint 0"
    "kv_get (global_state ?s1) ''hashlock'' = Bytes (demo_hash ''abc'')"
    "kv_get (global_state ?s1) ''total_deposited'' = Uint 18446744073709551615"
    "kv_get (global_state ?s1) ''total_filled'' = Uint 0"
    "kv_get (global_state ?s1) ''remaining_amount'' = Uint 18446744073709551615"
    using pf_setup_reads unfolding s1 by (simp_all add: kv_get_def)
  have s2: "commit ?P ?f1 ?s1 = ?s1\<lparr>global_state := (global_state ?s1)
      (''total_filled'' \<mapsto> Uint 18446744073709551614, ''remaining_amount'' \<mapsto> Uint 1)\<rparr>"
    using fill_commit [OF calls(2), of ?s1 demo_hash 18446744073709551615 0]
    by (simp add: r1 amounts args)
  let ?s2 = "commit ?P ?f1 ?s1"
  have r2: "kv_get (global_state ?s2) ''executed'' = Uint 0"
    "kv_get (global_state ?s2) ''refunded'' = Uint 0"
    "kv_get (global_state ?s2) ''hashlock'' = Bytes (demo_hash ''abc'')"
    "kv_get (global_state ?s2) ''total_deposited'' = Uint 18446744073709551615"
    "kv_get (global_state ?s2) ''total_filled'' = Uint 18446744073709551614"
    "kv_get (global_state ?s2) ''remaining_amount'' = Uint 1"
    using r1 unfolding s2 by (simp_all add: kv_get_def)
  have s3: "commit ?P ?d2 ?s2 = ?s2\<lparr>global_state := (global_state ?s2)
      (''total_deposited'' \<mapsto> Uint 18446744073709551615,
       ''remaining_amount'' \<mapsto> Uint 18446744073709551615)\<rparr>"
    using deposit_commit(2) [OF calls(3), of ?s2 18446744073709551615 demo_hash]
    by (simp add: r2 amounts)
  let ?s3 = "commit ?P ?d2 ?s2"
  have r3: "kv_get (global_state ?s3) ''executed'' = Uint 0"
    "kv_get (global_state ?s3) ''refunded'' = Uint 0"
    "kv_get (global_state ?s3) ''hashlock'' = Bytes (demo_hash ''abc'')"
    "kv_get (global_state ?s3) ''total_filled'' = Uint 18446744073709551614"
    "kv_get (global_state ?s3) ''remaining_amount'' = Uint 18446744073709551615"
    using r2 unfolding s3 by (simp_all add: kv_get_def)
  have run: "run ?P pf_overflow_setup fresh = ?s3"
    by (simp add: pf_overflow_setup_def run_append)
  have "halted (exec ?P ?t ?s3) = Some (Failed Overflow)"
    using fill_overflow [OF calls(4), of ?s3 demo_hash 18446744073709551615 18446744073709551614]
    by (simp add: r3 amounts args)
  then show ?thesis
    unfolding run using r3 calls(4) amounts(4)
    by (simp add: pf_executed_def pf_refunded_def)
qed


text \<open>
  Claim C5 at a concrete run. After a deposit of 10 and a fill of 4, a deposit of 5
  leaves \<open>remaining_amount\<close> at 15, the whole deposit, where deposited minus filled
  is 11; and a deposit into an executed record is approved and changes
  \<open>remaining_amount\<close>.
\<close>

theorem deposit_resets_remaining:
  "pf_deposited (run (partial_fill_program demo_hash) pf_topup_setup fresh) = 15 \<and>
   pf_filled (run (partial_fill_program demo_hash) pf_topup_setup fresh) = 4 \<and>
   pf_remaining (run (partial_fill_program demo_hash) pf_topup_setup fresh) = 15 \<and>
   pf_executed (run (partial_fill_program demo_hash) pf_claimed_setup fresh) = Uint 1 \<and>
   approved (exec (partial_fill_program demo_hash) (app_call ''M'' [''deposit'', [CHR 0x05]] 1002)
      (run (partial_fill_program demo_hash) pf_claimed_setup fresh)) \<and>
   pf_remaining (run (partial_fill_program demo_hash) pf_claimed_setup fresh) = 10 \<and>
   pf_remaining (commit (partial_fill_program demo_hash) (app_call ''M'' [''deposit'', [CHR 0x05]] 1002)
      (run (partial_fill_program demo_hash) pf_claimed_setup fresh)) = 15"
proof -
  let ?P = "partial_fill_program demo_hash"
  let ?s0 = "run ?P pf_setup fresh"
  let ?d1 = "app_call ''M'' [''deposit'', [CHR 0x0A]] 1000"
  let ?f1 = "app_call ''X'' [''partial_fill'', [CHR 0x04], ''abc''] 1001"
  let ?d2 = "app_call ''M'' [''deposit'', [CHR 0x05]] 1002"
  let ?c1 = "app_call ''X'' [''public_claim'', ''abc''] 1001"
  have calls: "deposit_call ?d1" "fill_call ?f1" "deposit_call ?d2" "claim_call ?c1"
    by (simp_all add: deposit_call_def fill_call_def claim_call_def app_call_def)
  have amounts: "deposit_amount ?d1 = 10" "fill_amount ?f1 = 4" "deposit_amount ?d2 = 5"
    by (simp_all add: deposit_amount_def fill_amount_def app_call_def btoi_def)
  have args: "application_args ?f1 ! 2 = ''abc''" "application_args ?c1 ! Suc 0 = ''abc''"
    by (simp_all add: app_call_def)
  have s1: "commit ?P ?d1 ?s0 = ?s0\<lparr>global_state := (global_state ?s0)
      (''total_deposited'' \<mapsto> Uint 10, ''remaining_amount'' \<mapsto> Uint 10)\<rparr>"
    using deposit_commit(2) [OF calls(1), of ?s0 0 demo_hash] by (simp add: pf_setup_reads amounts)
  let ?s1 = "commit ?P ?d1 ?s0"
  have r1: "kv_get (global_state ?s1) ''executed'' = Uint 0"
    "kv_get (global_state ?s1) ''refunded'' = Uint 0"
    "kv_get (global_state ?s1) ''hashlock'' = Bytes (demo_hash ''abc'')"
    "kv_get (global_state ?s1) ''total_deposited'' = Uint 10"
    "kv_get (global_state ?s1) ''total_filled'' = Uint 0"
    "kv_get (global_state ?s1) ''remaining_amount'' = Uint 10"
    using pf_setup_reads unfolding s1 by (simp_all add: kv_get_def)
  have s2: "commit ?P ?f1 ?s1 = ?s1\<lparr>global_state := (global_state ?s1)
      (''total_filled'' \<mapsto> Uint 4, ''remaining_amount'' \<mapsto> Uint 6)\<rparr>"
    using fill_commit [OF calls(2), of ?s1 demo_hash 10 0] by (simp add: r1 amounts args)
  let ?s2 = "commit ?P ?f1 ?s1"
  have r2: "kv_get (global_state ?s2) ''total_deposited'' = Uint 10"
    "kv_get (global_state ?s2) ''total_filled'' = Uint 4"
    using r1 unfolding s2 by (simp_all add: kv_get_def)
  have s3: "commit ?P ?d2 ?s2 = ?s2\<lparr>global_state := (global_state ?s2)
      (''total_deposited'' \<mapsto> Uint 15, ''remaining_amount'' \<mapsto> Uint 15)\<rparr>"
    using deposit_commit(2) [OF calls(3), of ?s2 10 demo_hash] by (simp add: r2 amounts)
  let ?s3 = "commit ?P ?d2 ?s2"
  have r3: "kv_get (global_state ?s3) ''total_deposited'' = Uint 15"
    "kv_get (global_state ?s3) ''total_filled'' = Uint 4"
    "kv_get (global_state ?s3) ''remaining_amount'' = Uint 15"
    using r2 unfolding s3 by (simp_all add: kv_get_def)
  have run1: "run ?P pf_topup_setup fresh = ?s3"
    by (simp add: pf_topup_setup_def run_append)
  have s4: "commit ?P ?c1 ?s1 = ?s1\<lparr>global_state := (global_state ?s1)(''executed'' \<mapsto> Uint 1)\<rparr>"
    using claim_commit(2) [OF calls(4), of ?s1 demo_hash] by (simp add: r1 args)
  let ?s4 = "commit ?P ?c1 ?s1"
  have r4: "kv_get (global_state ?s4) ''executed'' = Uint 1"
    "kv_get (global_state ?s4) ''total_deposited'' = Uint 10"
    "kv_get (global_state ?s4) ''remaining_amount'' = Uint 10"
    using r1 unfolding s4 by (simp_all add: kv_get_def)
  have run2: "run ?P pf_claimed_setup fresh = ?s4"
    by (simp add: pf_claimed_setup_def run_append)
  have ap: "approved (exec ?P ?d2 ?s4)"
    using deposit_commit(1) [OF calls(3), of ?s4 10 demo_hash] by (simp add: r4 amounts)
  have s5: "commit ?P ?d2 ?s4 = ?s4\<lparr>global_state := (global_state ?s4)
      (''total_deposited'' \<mapsto> Uint 15, ''remaining_amount'' \<mapsto> Uint 15)\<rparr>"
    using deposit_commit(2) [OF calls(3), of ?s4 10 demo_hash] by (simp add: r4 amounts)
  have r5: "kv_get (global_state (commit ?P ?d2 ?s4)) ''remaining_amount'' = Uint 15"
    unfolding s5 by (simp add: kv_get_def)
  show ?thesis
    unfolding run1 run2 using r3 r4 r5 ap
    by (simp add: pf_deposited_def pf_filled_def pf_remaining_def pf_executed_def)
qed

section \<open>Routing of the HTLC bridges\<close>

lemma e2a_claim_is_withdraw: "e2a_claim_htlc H = withdraw_htlc H"
  by (simp add: e2a_claim_htlc_def withdraw_htlc_def)

lemma c_Eq_oncompl: "cond_of (Eq Txn_on_completion (TInt n)) f = Inr (on_completion (call f) = n)"
  by (simp add: cond_of_def Eq_def Txn_on_completion_def TInt_def truth_def)

lemma c_Gt_len: "cond_of (Gt Txn_application_args_length (TInt 0)) f =
    Inr (0 < (of_nat (length (application_args (call f))) :: uint64))"
  by (simp add: cond_of_def Gt_def uint_op_def Txn_application_args_length_def TInt_def truth_def)

lemma len_word: "0 < n \<Longrightarrow> n \<le> 16 \<Longrightarrow> 0 < (of_nat n :: uint64)"
proof -
  assume "0 < n" and "n \<le> 16"
  then have "n < 2 ^ LENGTH(64)" by simp
  with \<open>0 < n\<close> have "(of_nat n :: uint64) \<noteq> 0" by (rule of_nat_neq_0)
  then show ?thesis by (simp add: word_gt_0)
qed

lemma bridge_route:
  assumes "named_call nm n t"
  shows "exec (htlc_bridge_contract H) t s =
    (if nm = ''create_htlc'' \<or> nm = ''create'' then create_htlc (start t s)
     else if nm = ''withdraw'' \<or> nm = ''withdraw_htlc'' \<or> nm = ''claim_htlc'' then withdraw_htlc H (start t s)
     else if nm = ''refund'' \<or> nm = ''refund_htlc'' then refund_htlc (start t s)
     else if nm = ''status'' \<or> nm = ''get_htlc_status'' then get_htlc_status (start t s)
     else if nm = ''update'' \<or> nm = ''update_contract'' then update_contract (start t s)
     else fail NoBranch (start t s))"
proof -
  have ne: "application_args t \<noteq> []" using assms by (auto simp: named_call_def)
  have w: "0 < (of_nat (length (application_args t)) :: uint64)"
    using assms len_word [of n] by (simp add: named_call_def)
  show ?thesis
    using assms ne w
    by (simp add: exec_def htlc_bridge_contract_def If_else_def c_Gt_len c_Eq_appid c_Eq_oncompl
        c_Eq_arg0 keys named_call_def)
qed

lemma e2a_route:
  assumes "named_call nm n t"
  shows "exec (htlc_eth_to_algo H) t s =
    (if nm = ''create_htlc'' then e2a_create_htlc (start t s)
     else if nm = ''claim_htlc'' then withdraw_htlc H (start t s)
     else if nm = ''refund_htlc'' then e2a_refund_htlc (start t s)
     else fail NoBranch (start t s))"
proof -
  have ne: "application_args t \<noteq> []" using assms by (auto simp: named_call_def)
  show ?thesis
    using assms ne
    by (simp add: exec_def htlc_eth_to_algo_def c_Eq_appid c_Eq_oncompl
        c_Eq_arg0 keys named_call_def e2a_claim_is_withdraw)
qed

lemma a2e_route:
  assumes "named_call nm n t"
  shows "exec (htlc_algo_to_eth H) t s =
    (if nm = ''create_htlc'' then a2e_create_htlc (start t s)
     else if nm = ''reveal_secret'' then a2e_reveal_secret H (start t s)
     else fail NoBranch (start t s))"
proof -
  have ne: "application_args t \<noteq> []" using assms by (auto simp: named_call_def)
  show ?thesis
    using assms ne
    by (simp add: exec_def htlc_algo_to_eth_def c_Eq_appid c_Eq_oncompl
        c_Eq_arg0 keys named_call_def)
qed

subsection \<open>withdraw on frames\<close>



lemma create_char:
  assumes "halted f = None" "builder f = None"
  shows "then_approved create_htlc f (\<lambda>g.
      \<exists>mn mx. kv_get (globals f) ''MinTimelock'' = Uint mn \<and> kv_get (globals f) ''MaxTimelock'' = Uint mx
      \<and> unat (latest_timestamp (call f)) + unat mn \<le> unat (btoi (application_args (call f) ! 6))
      \<and> unat (btoi (application_args (call f) ! 6)) \<le> unat (latest_timestamp (call f)) + unat mx
      \<and> 0 < btoi (application_args (call f) ! 4)
      \<and> kv_get (locals f (sender (call f))) ''HtlcId'' = Uint 0
      \<and> globals g = globals f
      \<and> (\<forall>a. a \<noteq> sender (call f) \<longrightarrow> locals g a = locals f a)
      \<and> kv_get (locals g (sender (call f))) ''HtlcId'' = Bytes (application_args (call f) ! 1)
      \<and> kv_get (locals g (sender (call f))) ''Initiator'' = Bytes (application_args (call f) ! 2)
      \<and> kv_get (locals g (sender (call f))) ''Recipient'' = Bytes (application_args (call f) ! 3)
      \<and> kv_get (locals g (sender (call f))) ''Amount'' = Uint (btoi (application_args (call f) ! 4))
      \<and> kv_get (locals g (sender (call f))) ''Hashlock'' = Bytes (application_args (call f) ! 5)
      \<and> kv_get (locals g (sender (call f))) ''Timelock'' = Uint (btoi (application_args (call f) ! 6))
      \<and> kv_get (locals g (sender (call f))) ''Withdrawn'' = Uint 0
      \<and> kv_get (locals g (sender (call f))) ''Refunded'' = Uint 0
      \<and> inner g = inner f @ [Pay (Uint (btoi (application_args (call f) ! 4)))
                                (Bytes (current_application_address (call f)))])"
  using assms
  apply (simp add: create_htlc_def ta ev keys del: Seq.simps)
  apply (auto simp: word_le_nat_alt unat_word_ariths kv_get_def)
  done

section \<open>Claim and withdraw\<close>





lemma not_approved_commit:
  "halted (exec p t s) = Some (Failed e) \<Longrightarrow> commit p t s = s \<and> issued p t s = []"
  by (simp add: commit_def issued_def approved_def)


lemma rec_get_put [simp]:
  "rec_get (rec_put s a k v) b j = (if b = a \<and> j = k then v else rec_get s b j)"
  by (simp add: rec_get_def rec_put_def kv_get_def)





subsection \<open>A claim that names an id other than the one in the caller's own record\<close>













section \<open>Creation\<close>

lemma exec_bridge_create:
  assumes "bridge_create_call t"
  shows "exec (htlc_bridge_contract H) t s = create_htlc (start t s)"
  using assms bridge_route [of "application_args t ! 0" "length (application_args t)" t H s]
  by (auto simp: bridge_create_call_def)

lemma exec_a2e_create:
  assumes "short_create_call t"
  shows "exec (htlc_algo_to_eth H) t s = a2e_create_htlc (start t s)"
  using assms a2e_route [of "''create_htlc''" 6 t H s]
  by (auto simp: short_create_call_def)

lemma exec_e2a_create:
  assumes "short_create_call t"
  shows "exec (htlc_eth_to_algo H) t s = e2a_create_htlc (start t s)"
  using assms e2a_route [of "''create_htlc''" 6 t H s]
  by (auto simp: short_create_call_def)

lemma a2e_create_char:
  assumes "halted f = None" "builder f = None"
  shows "then_approved a2e_create_htlc f (\<lambda>g.
      0 < btoi (application_args (call f) ! 3)
      \<and> kv_get (locals f (sender (call f))) ''HtlcId'' = Uint 0
      \<and> globals g = globals f
      \<and> (\<forall>a. a \<noteq> sender (call f) \<longrightarrow> locals g a = locals f a)
      \<and> kv_get (locals g (sender (call f))) ''HtlcId'' = Bytes (application_args (call f) ! 1)
      \<and> kv_get (locals g (sender (call f))) ''Amount'' = Uint (btoi (application_args (call f) ! 3))
      \<and> kv_get (locals g (sender (call f))) ''Hashlock'' = Bytes (application_args (call f) ! 4)
      \<and> kv_get (locals g (sender (call f))) ''Timelock'' = Uint (btoi (application_args (call f) ! 5))
      \<and> kv_get (locals g (sender (call f))) ''Withdrawn'' = Uint 0
      \<and> kv_get (locals g (sender (call f))) ''Refunded'' = Uint 0
      \<and> kv_get (locals g (sender (call f))) ''Secret'' = Bytes []
      \<and> inner g = inner f @ [Pay (Uint (btoi (application_args (call f) ! 3)))
                                (Bytes (current_application_address (call f)))])"
  using assms
  apply (simp add: a2e_create_htlc_def ta ev keys del: Seq.simps)
  apply (auto simp: kv_get_def)
  done

lemma e2a_create_char:
  assumes "halted f = None" "builder f = None"
  shows "then_approved e2a_create_htlc f (\<lambda>g.
      0 < btoi (application_args (call f) ! 3)
      \<and> kv_get (locals f (sender (call f))) ''HtlcId'' = Uint 0
      \<and> globals g = globals f
      \<and> (\<forall>a. a \<noteq> sender (call f) \<longrightarrow> locals g a = locals f a)
      \<and> kv_get (locals g (sender (call f))) ''HtlcId'' = Bytes (application_args (call f) ! 1)
      \<and> kv_get (locals g (sender (call f))) ''Recipient'' = Bytes (application_args (call f) ! 2)
      \<and> kv_get (locals g (sender (call f))) ''Amount'' = Uint (btoi (application_args (call f) ! 3))
      \<and> kv_get (locals g (sender (call f))) ''Hashlock'' = Bytes (application_args (call f) ! 4)
      \<and> kv_get (locals g (sender (call f))) ''Timelock'' = Uint (btoi (application_args (call f) ! 5))
      \<and> kv_get (locals g (sender (call f))) ''Withdrawn'' = Uint 0
      \<and> kv_get (locals g (sender (call f))) ''Refunded'' = Uint 0
      \<and> inner g = inner f @ [Pay (Uint (btoi (application_args (call f) ! 3)))
                                (Bytes (current_application_address (call f)))])"
  using assms
  apply (simp add: e2a_create_htlc_def ta ev keys del: Seq.simps)
  apply (auto simp: kv_get_def)
  done

subsection \<open>Deterministic runs of the three creates\<close>

lemma a2e_create_frame:
  assumes "halted f = None" "builder f = None"
    and "application_args (call f) = [nm, i, er, a, h, tlk]"
    and "length a \<le> 8" "length tlk \<le> 8" "0 < btoi a"
    and "kv_get (locals f (sender (call f))) ''HtlcId'' = Uint 0"
  shows "halted (a2e_create_htlc f) = Some Approved"
    and "globals (a2e_create_htlc f) = globals f"
    and "locals (a2e_create_htlc f) = (locals f)(sender (call f) := (locals f (sender (call f)))
       (''HtlcId'' \<mapsto> Bytes i, ''EthRecipient'' \<mapsto> Bytes er, ''Amount'' \<mapsto> Uint (btoi a),
        ''Hashlock'' \<mapsto> Bytes h, ''Timelock'' \<mapsto> Uint (btoi tlk), ''Withdrawn'' \<mapsto> Uint 0,
        ''Refunded'' \<mapsto> Uint 0, ''Secret'' \<mapsto> Bytes []))"
    and "inner (a2e_create_htlc f) = inner f @ [Pay (Uint (btoi a)) (Bytes (current_application_address (call f)))]"
  using assms
  by (simp_all add: a2e_create_htlc_def teal_defs keys kv_get_def word_gt_0)

lemma e2a_create_frame:
  assumes "halted f = None" "builder f = None"
    and "application_args (call f) = [nm, i, r, a, h, tlk]"
    and "length a \<le> 8" "length tlk \<le> 8" "0 < btoi a"
    and "kv_get (locals f (sender (call f))) ''HtlcId'' = Uint 0"
  shows "halted (e2a_create_htlc f) = Some Approved"
    and "globals (e2a_create_htlc f) = globals f"
    and "locals (e2a_create_htlc f) = (locals f)(sender (call f) := (locals f (sender (call f)))
       (''HtlcId'' \<mapsto> Bytes i, ''Recipient'' \<mapsto> Bytes r, ''Amount'' \<mapsto> Uint (btoi a),
        ''Hashlock'' \<mapsto> Bytes h, ''Timelock'' \<mapsto> Uint (btoi tlk), ''Withdrawn'' \<mapsto> Uint 0,
        ''Refunded'' \<mapsto> Uint 0))"
    and "inner (e2a_create_htlc f) = inner f @ [Pay (Uint (btoi a)) (Bytes (current_application_address (call f)))]"
  using assms
  by (simp_all add: e2a_create_htlc_def teal_defs keys kv_get_def word_gt_0)


lemma bridge_create_frame:
  assumes "halted f = None" "builder f = None"
    and "application_args (call f) = [nm, i, ini, r, a, h, tlk] @ rest"
    and "rest = [] \<or> rest = [ea]"
    and "length a \<le> 8" "length tlk \<le> 8"
    and "kv_get (globals f) ''Creator'' = Bytes c"
    and "kv_get (globals f) ''MinTimelock'' = Uint mn"
    and "kv_get (globals f) ''MaxTimelock'' = Uint mx"
    and "unat (latest_timestamp (call f)) + unat mn < 2 ^ 64"
    and "unat (latest_timestamp (call f)) + unat mx < 2 ^ 64"
    and "latest_timestamp (call f) + mn \<le> btoi tlk"
    and "btoi tlk \<le> latest_timestamp (call f) + mx"
    and "0 < btoi a"
    and "kv_get (locals f (sender (call f))) ''HtlcId'' = Uint 0"
  shows "halted (create_htlc f) = Some Approved"
    and "globals (create_htlc f) = globals f"
    and "locals (create_htlc f) = (locals f)(sender (call f) := (locals f (sender (call f)))
       (''HtlcId'' \<mapsto> Bytes i, ''Initiator'' \<mapsto> Bytes ini, ''Recipient'' \<mapsto> Bytes r,
        ''Amount'' \<mapsto> Uint (btoi a), ''Hashlock'' \<mapsto> Bytes h, ''Timelock'' \<mapsto> Uint (btoi tlk),
        ''EthAddress'' \<mapsto> Bytes (concat rest), ''Withdrawn'' \<mapsto> Uint 0, ''Refunded'' \<mapsto> Uint 0))"
    and "inner (create_htlc f) = inner f @ [Pay (Uint (btoi a)) (Bytes (current_application_address (call f)))]"
proof -
  from assms(4) show "halted (create_htlc f) = Some Approved"
  proof
    assume "rest = []"
    then show ?thesis using assms
      by (simp add: create_htlc_def teal_defs keys kv_get_def word_gt_0)
  next
    assume "rest = [ea]"
    then show ?thesis using assms
      by (simp add: create_htlc_def teal_defs keys kv_get_def word_gt_0)
  qed
  from assms(4) show "globals (create_htlc f) = globals f"
  proof
    assume "rest = []"
    then show ?thesis using assms
      by (simp add: create_htlc_def teal_defs keys kv_get_def word_gt_0)
  next
    assume "rest = [ea]"
    then show ?thesis using assms
      by (simp add: create_htlc_def teal_defs keys kv_get_def word_gt_0)
  qed
  from assms(4) show "locals (create_htlc f) = (locals f)(sender (call f) := (locals f (sender (call f)))
       (''HtlcId'' \<mapsto> Bytes i, ''Initiator'' \<mapsto> Bytes ini, ''Recipient'' \<mapsto> Bytes r,
        ''Amount'' \<mapsto> Uint (btoi a), ''Hashlock'' \<mapsto> Bytes h, ''Timelock'' \<mapsto> Uint (btoi tlk),
        ''EthAddress'' \<mapsto> Bytes (concat rest), ''Withdrawn'' \<mapsto> Uint 0, ''Refunded'' \<mapsto> Uint 0))"
  proof
    assume "rest = []"
    then show ?thesis using assms
      by (simp add: create_htlc_def teal_defs keys kv_get_def word_gt_0)
  next
    assume "rest = [ea]"
    then show ?thesis using assms
      by (simp add: create_htlc_def teal_defs keys kv_get_def word_gt_0)
  qed
  from assms(4) show "inner (create_htlc f) = inner f @ [Pay (Uint (btoi a)) (Bytes (current_application_address (call f)))]"
  proof
    assume "rest = []"
    then show ?thesis using assms
      by (simp add: create_htlc_def teal_defs keys kv_get_def word_gt_0)
  next
    assume "rest = [ea]"
    then show ?thesis using assms
      by (simp add: create_htlc_def teal_defs keys kv_get_def word_gt_0)
  qed
qed

lemma bridge_create_tags:
  assumes "halted f = None"
    and "application_args (call f) = [nm, i, ini, r, a, h, tlk] @ rest"
    and "rest = [] \<or> rest = [ea]"
    and "length a \<le> 8" "length tlk \<le> 8"
    and "kv_get (globals f) ''Creator'' = Bytes c"
    and "kv_get (globals f) ''MinTimelock'' = Uint mn"
    and "kv_get (globals f) ''MaxTimelock'' = Uint mx"
    and "unat (latest_timestamp (call f)) + unat mn < 2 ^ 64"
    and "unat (latest_timestamp (call f)) + unat mx < 2 ^ 64"
  shows "\<not> latest_timestamp (call f) + mn \<le> btoi tlk \<Longrightarrow>
           halted (create_htlc f) = Some (Failed InvalidTimelock)"
    and "latest_timestamp (call f) + mn \<le> btoi tlk \<Longrightarrow> \<not> btoi tlk \<le> latest_timestamp (call f) + mx \<Longrightarrow>
           halted (create_htlc f) = Some (Failed InvalidTimelock)"
    and "latest_timestamp (call f) + mn \<le> btoi tlk \<Longrightarrow> btoi tlk \<le> latest_timestamp (call f) + mx \<Longrightarrow>
         btoi a = 0 \<Longrightarrow> halted (create_htlc f) = Some (Failed InvalidAmount)"
proof -
  show "\<not> latest_timestamp (call f) + mn \<le> btoi tlk \<Longrightarrow>
           halted (create_htlc f) = Some (Failed InvalidTimelock)"
    using assms(3)
  proof
    assume "\<not> latest_timestamp (call f) + mn \<le> btoi tlk" "rest = []"
    then show ?thesis using assms
      by (simp add: create_htlc_def teal_defs keys kv_get_def)
  next
    assume "\<not> latest_timestamp (call f) + mn \<le> btoi tlk" "rest = [ea]"
    then show ?thesis using assms
      by (simp add: create_htlc_def teal_defs keys kv_get_def)
  qed
  show "latest_timestamp (call f) + mn \<le> btoi tlk \<Longrightarrow> \<not> btoi tlk \<le> latest_timestamp (call f) + mx \<Longrightarrow>
           halted (create_htlc f) = Some (Failed InvalidTimelock)"
    using assms(3)
  proof
    assume "latest_timestamp (call f) + mn \<le> btoi tlk" "\<not> btoi tlk \<le> latest_timestamp (call f) + mx" "rest = []"
    then show ?thesis using assms
      by (simp add: create_htlc_def teal_defs keys kv_get_def)
  next
    assume "latest_timestamp (call f) + mn \<le> btoi tlk" "\<not> btoi tlk \<le> latest_timestamp (call f) + mx" "rest = [ea]"
    then show ?thesis using assms
      by (simp add: create_htlc_def teal_defs keys kv_get_def)
  qed
  show "latest_timestamp (call f) + mn \<le> btoi tlk \<Longrightarrow> btoi tlk \<le> latest_timestamp (call f) + mx \<Longrightarrow>
         btoi a = 0 \<Longrightarrow> halted (create_htlc f) = Some (Failed InvalidAmount)"
    using assms(3)
  proof
    assume "latest_timestamp (call f) + mn \<le> btoi tlk" "btoi tlk \<le> latest_timestamp (call f) + mx"
      "btoi a = 0" "rest = []"
    then show ?thesis using assms
      by (simp add: create_htlc_def teal_defs keys kv_get_def)
  next
    assume "latest_timestamp (call f) + mn \<le> btoi tlk" "btoi tlk \<le> latest_timestamp (call f) + mx"
      "btoi a = 0" "rest = [ea]"
    then show ?thesis using assms
      by (simp add: create_htlc_def teal_defs keys kv_get_def)
  qed
qed

lemma list6: "length xs = 6 \<Longrightarrow> xs = [xs ! 0, xs ! 1, xs ! 2, xs ! 3, xs ! 4, xs ! 5]"
proof -
  assume l: "length xs = 6"
  have "map ((!) xs) [0..<length xs] = xs" by (rule map_nth)
  then have "[xs ! 0, xs ! 1, xs ! 2, xs ! 3, xs ! 4, xs ! 5] = xs"
    unfolding l by (simp add: upt_rec eval_nat_numeral)
  then show ?thesis by simp
qed

lemma list7: "length xs = 7 \<Longrightarrow> xs = [xs ! 0, xs ! 1, xs ! 2, xs ! 3, xs ! 4, xs ! 5, xs ! 6] @ []"
proof -
  assume l: "length xs = 7"
  have "map ((!) xs) [0..<length xs] = xs" by (rule map_nth)
  then have "[xs ! 0, xs ! 1, xs ! 2, xs ! 3, xs ! 4, xs ! 5, xs ! 6] = xs"
    unfolding l by (simp add: upt_rec eval_nat_numeral)
  then show ?thesis by simp
qed

lemma list8: "length xs = 8 \<Longrightarrow> xs = [xs ! 0, xs ! 1, xs ! 2, xs ! 3, xs ! 4, xs ! 5, xs ! 6] @ [xs ! 7]"
proof -
  assume l: "length xs = 8"
  have "map ((!) xs) [0..<length xs] = xs" by (rule map_nth)
  then have "[xs ! 0, xs ! 1, xs ! 2, xs ! 3, xs ! 4, xs ! 5, xs ! 6, xs ! 7] = xs"
    unfolding l by (simp add: upt_rec eval_nat_numeral)
  then show ?thesis by simp
qed

lemma bridge_create_args:
  assumes "bridge_create_wf t"
  shows "\<exists>rest. application_args t = [application_args t ! 0, application_args t ! 1,
      application_args t ! 2, application_args t ! 3, application_args t ! 4, application_args t ! 5,
      application_args t ! 6] @ rest \<and> (rest = [] \<or> rest = [application_args t ! 7])"
proof -
  from assms have "length (application_args t) = 7 \<or> length (application_args t) = 8"
    by (simp add: bridge_create_wf_def)
  then show ?thesis
  proof
    assume "length (application_args t) = 7"
    from list7 [OF this] show ?thesis by blast
  next
    assume "length (application_args t) = 8"
    from list8 [OF this] show ?thesis by blast
  qed
qed

lemma bounds_words:
  assumes "unat now + unat d < 2 ^ 64"
  shows "(now + d \<le> (x :: uint64)) = (unat now + unat d \<le> unat x)"
    and "(x \<le> now + d) = (unat x \<le> unat now + unat d)"
proof -
  have "unat (now + d) = unat now + unat d"
    using assms unat_add_lem [of now d] by simp
  then show "(now + d \<le> x) = (unat now + unat d \<le> unat x)"
    and "(x \<le> now + d) = (unat x \<le> unat now + unat d)"
    by (simp_all add: word_le_nat_alt)
qed

lemma bridge_create_rejects:
  assumes wf: "bridge_create_wf t"
    and c: "kv_get (global_state s) ''Creator'' = Bytes c"
    and mn: "kv_get (global_state s) ''MinTimelock'' = Uint mn"
    and mx: "kv_get (global_state s) ''MaxTimelock'' = Uint mx"
    and fit: "unat (latest_timestamp t) + unat mn < 2 ^ 64" "unat (latest_timestamp t) + unat mx < 2 ^ 64"
  shows "\<not> timelock_in_bounds t mn mx (btoi (application_args t ! 6)) \<Longrightarrow>
           halted (exec (htlc_bridge_contract H) t s) = Some (Failed InvalidTimelock)"
    and "timelock_in_bounds t mn mx (btoi (application_args t ! 6)) \<Longrightarrow> btoi (application_args t ! 4) = 0 \<Longrightarrow>
           halted (exec (htlc_bridge_contract H) t s) = Some (Failed InvalidAmount)"
proof -
  from bridge_create_args [OF wf] obtain rest where
    a: "application_args t = [application_args t ! 0, application_args t ! 1,
      application_args t ! 2, application_args t ! 3, application_args t ! 4, application_args t ! 5,
      application_args t ! 6] @ rest" and r: "rest = [] \<or> rest = [application_args t ! 7]"
    by blast
  have e: "exec (htlc_bridge_contract H) t s = create_htlc (start t s)"
    using wf by (simp add: bridge_create_wf_def exec_bridge_create)
  have len: "length (application_args t ! 4) \<le> 8" "length (application_args t ! 6) \<le> 8"
    using wf by (simp_all add: bridge_create_wf_def)
  note tags = bridge_create_tags [where f = "start t s" and c = c and mn = mn and mx = mx
      and rest = rest and ea = "application_args t ! 7"
      and a = "application_args t ! 4" and tlk = "application_args t ! 6", simplified start_simps,
      OF _ a r len c mn mx fit]
  note w = bounds_words [OF fit(1)] bounds_words [OF fit(2)]
  show "\<not> timelock_in_bounds t mn mx (btoi (application_args t ! 6)) \<Longrightarrow>
           halted (exec (htlc_bridge_contract H) t s) = Some (Failed InvalidTimelock)"
    unfolding e timelock_in_bounds_def using tags(1,2) by (auto simp: w)
  show "timelock_in_bounds t mn mx (btoi (application_args t ! 6)) \<Longrightarrow> btoi (application_args t ! 4) = 0 \<Longrightarrow>
           halted (exec (htlc_bridge_contract H) t s) = Some (Failed InvalidAmount)"
    unfolding e timelock_in_bounds_def using tags(3) by (auto simp: w)
qed

lemma approved_commit:
  "approved (exec p t s) \<Longrightarrow>
     global_state (commit p t s) = globals (exec p t s) \<and>
     local_state (commit p t s) = locals (exec p t s) \<and> issued p t s = inner (exec p t s)"
  by (simp add: commit_def issued_def state_of_def)

lemma bridge_create_inv:
  assumes "bridge_create_call t" and "approved (exec (htlc_bridge_contract H) t s)"
  shows "\<exists>mn mx. kv_get (global_state s) ''MinTimelock'' = Uint mn \<and>
      kv_get (global_state s) ''MaxTimelock'' = Uint mx \<and>
      timelock_in_bounds t mn mx (btoi (application_args t ! 6))"
    and "0 < btoi (application_args t ! 4)"
    and "rec_get s (sender t) ''HtlcId'' = Uint 0"
    and "global_state (commit (htlc_bridge_contract H) t s) = global_state s"
    and "\<forall>a. a \<noteq> sender t \<longrightarrow>
           local_state (commit (htlc_bridge_contract H) t s) a = local_state s a"
    and "rec_get (commit (htlc_bridge_contract H) t s) (sender t) ''HtlcId'' = Bytes (application_args t ! 1)"
    and "rec_get (commit (htlc_bridge_contract H) t s) (sender t) ''Amount'' = Uint (btoi (application_args t ! 4))"
    and "rec_get (commit (htlc_bridge_contract H) t s) (sender t) ''Timelock'' = Uint (btoi (application_args t ! 6))"
    and "rec_get (commit (htlc_bridge_contract H) t s) (sender t) ''Withdrawn'' = Uint 0"
    and "rec_get (commit (htlc_bridge_contract H) t s) (sender t) ''Refunded'' = Uint 0"
    and "issued (htlc_bridge_contract H) t s =
           [Pay (Uint (btoi (application_args t ! 4))) (Bytes (current_application_address t))]"
proof -
  note e = exec_bridge_create [OF assms(1), of H s]
  have ap: "approved (create_htlc (start t s))" using assms(2) by (simp add: e)
  note ch0 = create_char [of "start t s", unfolded then_approved_def, rule_format, OF _ _ ap, simplified start_simps]
  from ch0 obtain mn mx where ch:
    "kv_get (global_state s) ''MinTimelock'' = Uint mn"
    "kv_get (global_state s) ''MaxTimelock'' = Uint mx"
    "unat (latest_timestamp t) + unat mn \<le> unat (btoi (application_args t ! 6))"
    "unat (btoi (application_args t ! 6)) \<le> unat (latest_timestamp t) + unat mx"
    "0 < btoi (application_args t ! 4)"
    "kv_get (local_state s (sender t)) ''HtlcId'' = Uint 0"
    "globals (create_htlc (start t s)) = global_state s"
    "\<forall>a. a \<noteq> sender t \<longrightarrow> locals (create_htlc (start t s)) a = local_state s a"
    "kv_get (locals (create_htlc (start t s)) (sender t)) ''HtlcId'' = Bytes (application_args t ! 1)"
    "kv_get (locals (create_htlc (start t s)) (sender t)) ''Amount'' = Uint (btoi (application_args t ! 4))"
    "kv_get (locals (create_htlc (start t s)) (sender t)) ''Timelock'' = Uint (btoi (application_args t ! 6))"
    "kv_get (locals (create_htlc (start t s)) (sender t)) ''Withdrawn'' = Uint 0"
    "kv_get (locals (create_htlc (start t s)) (sender t)) ''Refunded'' = Uint 0"
    "inner (create_htlc (start t s)) =
       [Pay (Uint (btoi (application_args t ! 4))) (Bytes (current_application_address t))]"
    by auto
  note cm = approved_commit [OF assms(2), unfolded e]
  from ch(1-4) show "\<exists>mn mx. kv_get (global_state s) ''MinTimelock'' = Uint mn \<and>
      kv_get (global_state s) ''MaxTimelock'' = Uint mx \<and>
      timelock_in_bounds t mn mx (btoi (application_args t ! 6))"
    unfolding timelock_in_bounds_def by blast
  from ch(5) show "0 < btoi (application_args t ! 4)" .
  from ch(6) show "rec_get s (sender t) ''HtlcId'' = Uint 0" unfolding rec_get_def .
  from ch(7) cm show "global_state (commit (htlc_bridge_contract H) t s) = global_state s" by simp
  from ch(8) cm show "\<forall>a. a \<noteq> sender t \<longrightarrow>
           local_state (commit (htlc_bridge_contract H) t s) a = local_state s a" by simp
  from ch(9) cm show "rec_get (commit (htlc_bridge_contract H) t s) (sender t) ''HtlcId'' = Bytes (application_args t ! 1)"
    unfolding rec_get_def by simp
  from ch(10) cm show "rec_get (commit (htlc_bridge_contract H) t s) (sender t) ''Amount'' = Uint (btoi (application_args t ! 4))"
    unfolding rec_get_def by simp
  from ch(11) cm show "rec_get (commit (htlc_bridge_contract H) t s) (sender t) ''Timelock'' = Uint (btoi (application_args t ! 6))"
    unfolding rec_get_def by simp
  from ch(12) cm show "rec_get (commit (htlc_bridge_contract H) t s) (sender t) ''Withdrawn'' = Uint 0"
    unfolding rec_get_def by simp
  from ch(13) cm show "rec_get (commit (htlc_bridge_contract H) t s) (sender t) ''Refunded'' = Uint 0"
    unfolding rec_get_def by simp
  from ch(14) cm show "issued (htlc_bridge_contract H) t s =
           [Pay (Uint (btoi (application_args t ! 4))) (Bytes (current_application_address t))]"
    by simp
qed

lemma bridge_create_ok:
  assumes wf: "bridge_create_wf t"
    and c: "kv_get (global_state s) ''Creator'' = Bytes c"
    and mn: "kv_get (global_state s) ''MinTimelock'' = Uint mn"
    and mx: "kv_get (global_state s) ''MaxTimelock'' = Uint mx"
    and fit: "unat (latest_timestamp t) + unat mn < 2 ^ 64" "unat (latest_timestamp t) + unat mx < 2 ^ 64"
    and inb: "timelock_in_bounds t mn mx (btoi (application_args t ! 6))"
    and amt: "0 < btoi (application_args t ! 4)"
    and new: "rec_get s (sender t) ''HtlcId'' = Uint 0"
  shows "approved (exec (htlc_bridge_contract H) t s)"
proof -
  from bridge_create_args [OF wf] obtain rest where
    a: "application_args t = [application_args t ! 0, application_args t ! 1,
      application_args t ! 2, application_args t ! 3, application_args t ! 4, application_args t ! 5,
      application_args t ! 6] @ rest" and r: "rest = [] \<or> rest = [application_args t ! 7]"
    by blast
  have e: "exec (htlc_bridge_contract H) t s = create_htlc (start t s)"
    using wf by (simp add: bridge_create_wf_def exec_bridge_create)
  have len: "length (application_args t ! 4) \<le> 8" "length (application_args t ! 6) \<le> 8"
    using wf by (simp_all add: bridge_create_wf_def)
  note w = bounds_words [OF fit(1)] bounds_words [OF fit(2)]
  have b: "latest_timestamp t + mn \<le> btoi (application_args t ! 6)"
    "btoi (application_args t ! 6) \<le> latest_timestamp t + mx"
    using inb by (simp_all add: timelock_in_bounds_def w)
  have n: "kv_get (local_state s (sender t)) ''HtlcId'' = Uint 0"
    using new by (simp add: rec_get_def)
  note ok = bridge_create_frame(1) [where f = "start t s" and c = c and mn = mn and mx = mx
      and rest = rest and ea = "application_args t ! 7"
      and a = "application_args t ! 4" and tlk = "application_args t ! 6", simplified start_simps,
      OF _ _ a r len c mn mx fit b amt n]
  show ?thesis unfolding e approved_def using ok by simp
qed

lemma a2e_create_inv:
  assumes "short_create_call t" and "approved (exec (htlc_algo_to_eth H) t s)"
  shows "0 < btoi (application_args t ! 3)"
    and "rec_get s (sender t) ''HtlcId'' = Uint 0"
    and "global_state (commit (htlc_algo_to_eth H) t s) = global_state s"
    and "\<forall>a. a \<noteq> sender t \<longrightarrow> local_state (commit (htlc_algo_to_eth H) t s) a = local_state s a"
    and "rec_get (commit (htlc_algo_to_eth H) t s) (sender t) ''HtlcId'' = Bytes (application_args t ! 1)"
    and "rec_get (commit (htlc_algo_to_eth H) t s) (sender t) ''Amount'' = Uint (btoi (application_args t ! 3))"
    and "rec_get (commit (htlc_algo_to_eth H) t s) (sender t) ''Hashlock'' = Bytes (application_args t ! 4)"
    and "rec_get (commit (htlc_algo_to_eth H) t s) (sender t) ''Timelock'' = Uint (btoi (application_args t ! 5))"
    and "rec_get (commit (htlc_algo_to_eth H) t s) (sender t) ''Withdrawn'' = Uint 0"
    and "rec_get (commit (htlc_algo_to_eth H) t s) (sender t) ''Refunded'' = Uint 0"
    and "rec_get (commit (htlc_algo_to_eth H) t s) (sender t) ''Secret'' = Bytes []"
    and "issued (htlc_algo_to_eth H) t s =
           [Pay (Uint (btoi (application_args t ! 3))) (Bytes (current_application_address t))]"
proof -
  note e = exec_a2e_create [OF assms(1), of H s]
  have ap: "approved (a2e_create_htlc (start t s))" using assms(2) by (simp add: e)
  note ch = a2e_create_char [of "start t s", unfolded then_approved_def, rule_format, OF _ _ ap, simplified start_simps]
  note cm = approved_commit [OF assms(2), unfolded e]
  from ch show "0 < btoi (application_args t ! 3)" by blast
  from ch show "rec_get s (sender t) ''HtlcId'' = Uint 0" unfolding rec_get_def by blast
  from ch cm show "global_state (commit (htlc_algo_to_eth H) t s) = global_state s" by simp
  from ch cm show "\<forall>a. a \<noteq> sender t \<longrightarrow> local_state (commit (htlc_algo_to_eth H) t s) a = local_state s a"
    by simp
  from ch cm show "rec_get (commit (htlc_algo_to_eth H) t s) (sender t) ''HtlcId'' = Bytes (application_args t ! 1)"
    unfolding rec_get_def by simp
  from ch cm show "rec_get (commit (htlc_algo_to_eth H) t s) (sender t) ''Amount'' = Uint (btoi (application_args t ! 3))"
    unfolding rec_get_def by simp
  from ch cm show "rec_get (commit (htlc_algo_to_eth H) t s) (sender t) ''Hashlock'' = Bytes (application_args t ! 4)"
    unfolding rec_get_def by simp
  from ch cm show "rec_get (commit (htlc_algo_to_eth H) t s) (sender t) ''Timelock'' = Uint (btoi (application_args t ! 5))"
    unfolding rec_get_def by simp
  from ch cm show "rec_get (commit (htlc_algo_to_eth H) t s) (sender t) ''Withdrawn'' = Uint 0"
    unfolding rec_get_def by simp
  from ch cm show "rec_get (commit (htlc_algo_to_eth H) t s) (sender t) ''Refunded'' = Uint 0"
    unfolding rec_get_def by simp
  from ch cm show "rec_get (commit (htlc_algo_to_eth H) t s) (sender t) ''Secret'' = Bytes []"
    unfolding rec_get_def by simp
  from ch cm show "issued (htlc_algo_to_eth H) t s =
           [Pay (Uint (btoi (application_args t ! 3))) (Bytes (current_application_address t))]"
    by simp
qed

lemma e2a_create_inv:
  assumes "short_create_call t" and "approved (exec (htlc_eth_to_algo H) t s)"
  shows "0 < btoi (application_args t ! 3)"
    and "rec_get s (sender t) ''HtlcId'' = Uint 0"
    and "global_state (commit (htlc_eth_to_algo H) t s) = global_state s"
    and "\<forall>a. a \<noteq> sender t \<longrightarrow> local_state (commit (htlc_eth_to_algo H) t s) a = local_state s a"
    and "rec_get (commit (htlc_eth_to_algo H) t s) (sender t) ''HtlcId'' = Bytes (application_args t ! 1)"
    and "rec_get (commit (htlc_eth_to_algo H) t s) (sender t) ''Amount'' = Uint (btoi (application_args t ! 3))"
    and "rec_get (commit (htlc_eth_to_algo H) t s) (sender t) ''Timelock'' = Uint (btoi (application_args t ! 5))"
    and "rec_get (commit (htlc_eth_to_algo H) t s) (sender t) ''Withdrawn'' = Uint 0"
    and "rec_get (commit (htlc_eth_to_algo H) t s) (sender t) ''Refunded'' = Uint 0"
    and "issued (htlc_eth_to_algo H) t s =
           [Pay (Uint (btoi (application_args t ! 3))) (Bytes (current_application_address t))]"
proof -
  note e = exec_e2a_create [OF assms(1), of H s]
  have ap: "approved (e2a_create_htlc (start t s))" using assms(2) by (simp add: e)
  note ch = e2a_create_char [of "start t s", unfolded then_approved_def, rule_format, OF _ _ ap, simplified start_simps]
  note cm = approved_commit [OF assms(2), unfolded e]
  from ch show "0 < btoi (application_args t ! 3)" by blast
  from ch show "rec_get s (sender t) ''HtlcId'' = Uint 0" unfolding rec_get_def by blast
  from ch cm show "global_state (commit (htlc_eth_to_algo H) t s) = global_state s" by simp
  from ch cm show "\<forall>a. a \<noteq> sender t \<longrightarrow> local_state (commit (htlc_eth_to_algo H) t s) a = local_state s a"
    by simp
  from ch cm show "rec_get (commit (htlc_eth_to_algo H) t s) (sender t) ''HtlcId'' = Bytes (application_args t ! 1)"
    unfolding rec_get_def by simp
  from ch cm show "rec_get (commit (htlc_eth_to_algo H) t s) (sender t) ''Amount'' = Uint (btoi (application_args t ! 3))"
    unfolding rec_get_def by simp
  from ch cm show "rec_get (commit (htlc_eth_to_algo H) t s) (sender t) ''Timelock'' = Uint (btoi (application_args t ! 5))"
    unfolding rec_get_def by simp
  from ch cm show "rec_get (commit (htlc_eth_to_algo H) t s) (sender t) ''Withdrawn'' = Uint 0"
    unfolding rec_get_def by simp
  from ch cm show "rec_get (commit (htlc_eth_to_algo H) t s) (sender t) ''Refunded'' = Uint 0"
    unfolding rec_get_def by simp
  from ch cm show "issued (htlc_eth_to_algo H) t s =
           [Pay (Uint (btoi (application_args t ! 3))) (Bytes (current_application_address t))]"
    by simp
qed

lemma short_create_ok:
  assumes wf: "short_create_wf t"
    and amt: "0 < btoi (application_args t ! 3)"
    and new: "rec_get s (sender t) ''HtlcId'' = Uint 0"
  shows "approved (exec (htlc_algo_to_eth H) t s)"
    and "approved (exec (htlc_eth_to_algo H) t s)"
proof -
  have sc: "short_create_call t" using wf by (simp add: short_create_wf_def)
  have l: "length (application_args t) = 6" using sc by (simp add: short_create_call_def named_call_def)
  note a = list6 [OF l]
  have len: "length (application_args t ! 3) \<le> 8" "length (application_args t ! 5) \<le> 8"
    using wf by (simp_all add: short_create_wf_def)
  have n: "kv_get (local_state s (sender t)) ''HtlcId'' = Uint 0"
    using new by (simp add: rec_get_def)
  note ok1 = a2e_create_frame(1) [where f = "start t s"
      and a = "application_args t ! 3" and tlk = "application_args t ! 5", simplified start_simps,
      OF _ _ a len amt n]
  note ok2 = e2a_create_frame(1) [where f = "start t s"
      and a = "application_args t ! 3" and tlk = "application_args t ! 5", simplified start_simps,
      OF _ _ a len amt n]
  show "approved (exec (htlc_algo_to_eth H) t s)"
    unfolding exec_a2e_create [OF sc] approved_def using ok1 by simp
  show "approved (exec (htlc_eth_to_algo H) t s)"
    unfolding exec_e2a_create [OF sc] approved_def using ok2 by simp
qed


lemma sample_calls:
  "bridge_create_wf (bridge_create_sample [CHR 0x03, CHR 0xE8] [CHR 0x20, CHR 0x08])"
  "bridge_create_wf (bridge_create_sample [CHR 0x03, CHR 0xE8] [CHR 0x04, CHR 0x4C])"
  "bridge_create_wf (bridge_create_sample [] [CHR 0x20, CHR 0x08])"
  "short_create_wf (short_create_sample [CHR 0x03, CHR 0xE8] [CHR 0x01])"
  "short_create_wf (short_create_sample [] [CHR 0x01])"
  "pf_create_call pf_create_again"
  by (simp_all add: bridge_create_wf_def bridge_create_call_def short_create_wf_def short_create_call_def
      named_call_def bridge_create_sample_def short_create_sample_def pf_create_again_def pf_create_call_def
      app_call_def)

lemma sample_args:
  "application_args (bridge_create_sample a b) ! 4 = a"
  "application_args (bridge_create_sample a b) ! 6 = b"
  "application_args (short_create_sample a b) ! 3 = a"
  "application_args (short_create_sample a b) ! 5 = b"
  "latest_timestamp (bridge_create_sample a b) = 1000"
  "latest_timestamp (short_create_sample a b) = 1000"
  "sender (bridge_create_sample a b) = ''A''"
  "sender (short_create_sample a b) = ''A''"
  "application_args pf_create_again ! 2 = [CHR 0x30, CHR 0x00]"
  by (simp_all add: bridge_create_sample_def short_create_sample_def pf_create_again_def app_call_def)

lemma sample_numbers:
  "btoi [CHR 0x03, CHR 0xE8] = 1000" "btoi [CHR 0x20, CHR 0x08] = 8200"
  "btoi [CHR 0x04, CHR 0x4C] = 1100" "btoi [CHR 0x01] = 1" "btoi [] = 0"
  "btoi [CHR 0x30, CHR 0x00] = 12288"
  by (simp_all add: btoi_def)

lemma bridge_fresh_reads:
  "kv_get (global_state bridge_fresh) ''Creator'' = Bytes ''C''"
  "kv_get (global_state bridge_fresh) ''MinTimelock'' = Uint 3600"
  "kv_get (global_state bridge_fresh) ''MaxTimelock'' = Uint 86400"
  "rec_get bridge_fresh a k = Uint 0"
  "rec_get fresh a k = Uint 0"
  by (simp_all add: bridge_fresh_def fresh_def rec_get_def kv_get_def)

text \<open>Claim C7, as the code has it. Only the full bridge checks the timelock: a create it
  approves has \<open>now + MinTimelock \<le> timelock \<le> now + MaxTimelock\<close>, and a well-formed create
  outside these bounds (the two sums fitting in 64 bits) is rejected by a timelock assertion,
  the state unchanged and nothing issued. The creates of the ALGO-to-ETH bridge, of the
  ETH-to-ALGO bridge and of the partial-fill bridge make no timelock check: a well-formed create
  is approved and stores the timelock it was given, whatever the clock reads.\<close>

theorem timelock_bounds_in_full_bridge_only:
  "(bridge_create_call t \<and> approved (exec (htlc_bridge_contract H) t s) \<longrightarrow>
      (\<exists>mn mx. kv_get (global_state s) ''MinTimelock'' = Uint mn \<and>
         kv_get (global_state s) ''MaxTimelock'' = Uint mx \<and>
         timelock_in_bounds t mn mx (btoi (application_args t ! 6)))) \<and>
   (bridge_create_wf t \<and> kv_get (global_state s) ''Creator'' = Bytes c \<and>
    kv_get (global_state s) ''MinTimelock'' = Uint mn \<and>
    kv_get (global_state s) ''MaxTimelock'' = Uint mx \<and>
    unat (latest_timestamp t) + unat mn < 2 ^ 64 \<and> unat (latest_timestamp t) + unat mx < 2 ^ 64 \<and>
    \<not> timelock_in_bounds t mn mx (btoi (application_args t ! 6)) \<longrightarrow>
      halted (exec (htlc_bridge_contract H) t s) = Some (Failed InvalidTimelock) \<and>
      commit (htlc_bridge_contract H) t s = s \<and> issued (htlc_bridge_contract H) t s = []) \<and>
   (short_create_wf t \<and> 0 < btoi (application_args t ! 3) \<and>
    rec_get s (sender t) ''HtlcId'' = Uint 0 \<longrightarrow>
      approved (exec (htlc_algo_to_eth H) t s) \<and>
      rec_get (commit (htlc_algo_to_eth H) t s) (sender t) ''Timelock'' =
        Uint (btoi (application_args t ! 5)) \<and>
      approved (exec (htlc_eth_to_algo H) t s) \<and>
      rec_get (commit (htlc_eth_to_algo H) t s) (sender t) ''Timelock'' =
        Uint (btoi (application_args t ! 5))) \<and>
   (pf_create_call t \<longrightarrow>
      approved (exec (partial_fill_program H) t s) \<and>
      kv_get (global_state (commit (partial_fill_program H) t s)) ''timelock'' =
        Uint (btoi (application_args t ! 2)))"
proof (intro conjI impI)
  assume "bridge_create_call t \<and> approved (exec (htlc_bridge_contract H) t s)"
  then show "\<exists>mn mx. kv_get (global_state s) ''MinTimelock'' = Uint mn \<and>
         kv_get (global_state s) ''MaxTimelock'' = Uint mx \<and>
         timelock_in_bounds t mn mx (btoi (application_args t ! 6))"
    using bridge_create_inv(1) [of t H s] by blast
next
  assume a: "bridge_create_wf t \<and> kv_get (global_state s) ''Creator'' = Bytes c \<and>
    kv_get (global_state s) ''MinTimelock'' = Uint mn \<and>
    kv_get (global_state s) ''MaxTimelock'' = Uint mx \<and>
    unat (latest_timestamp t) + unat mn < 2 ^ 64 \<and> unat (latest_timestamp t) + unat mx < 2 ^ 64 \<and>
    \<not> timelock_in_bounds t mn mx (btoi (application_args t ! 6))"
  then have h: "halted (exec (htlc_bridge_contract H) t s) = Some (Failed InvalidTimelock)"
    using bridge_create_rejects(1) [of t s c mn mx H] by blast
  from h show "halted (exec (htlc_bridge_contract H) t s) = Some (Failed InvalidTimelock)" .
  from h show "commit (htlc_bridge_contract H) t s = s"
    using not_approved_commit [of "htlc_bridge_contract H" t s InvalidTimelock] by simp
  from h show "issued (htlc_bridge_contract H) t s = []"
    using not_approved_commit [of "htlc_bridge_contract H" t s InvalidTimelock] by simp
next
  assume a: "short_create_wf t \<and> 0 < btoi (application_args t ! 3) \<and>
    rec_get s (sender t) ''HtlcId'' = Uint 0"
  then have sc: "short_create_call t" by (simp add: short_create_wf_def)
  from a show 1: "approved (exec (htlc_algo_to_eth H) t s)"
    using short_create_ok(1) [of t s H] by blast
  from a show 2: "approved (exec (htlc_eth_to_algo H) t s)"
    using short_create_ok(2) [of t s H] by blast
  show "rec_get (commit (htlc_algo_to_eth H) t s) (sender t) ''Timelock'' =
        Uint (btoi (application_args t ! 5))"
    by (rule a2e_create_inv(8) [OF sc 1])
  show "rec_get (commit (htlc_eth_to_algo H) t s) (sender t) ''Timelock'' =
        Uint (btoi (application_args t ! 5))"
    by (rule e2a_create_inv(7) [OF sc 2])
next
  assume a: "pf_create_call t"
  show "approved (exec (partial_fill_program H) t s)"
    by (rule pf_create_commit(1) [OF a])
  show "kv_get (global_state (commit (partial_fill_program H) t s)) ''timelock'' =
        Uint (btoi (application_args t ! 2))"
    unfolding pf_create_commit(2) [OF a] by (simp add: kv_get_def)
qed

theorem timelock_bounds_in_full_bridge_only_witness:
  "approved (exec (htlc_bridge_contract demo_hash)
      (bridge_create_sample [CHR 0x03, CHR 0xE8] [CHR 0x20, CHR 0x08]) bridge_fresh) \<and>
   timelock_in_bounds (bridge_create_sample [CHR 0x03, CHR 0xE8] [CHR 0x20, CHR 0x08]) 3600 86400 8200 \<and>
   halted (exec (htlc_bridge_contract demo_hash)
      (bridge_create_sample [CHR 0x03, CHR 0xE8] [CHR 0x04, CHR 0x4C]) bridge_fresh) =
     Some (Failed InvalidTimelock) \<and>
   approved (exec (htlc_algo_to_eth demo_hash) (short_create_sample [CHR 0x03, CHR 0xE8] [CHR 0x01]) fresh) \<and>
   approved (exec (htlc_eth_to_algo demo_hash) (short_create_sample [CHR 0x03, CHR 0xE8] [CHR 0x01]) fresh) \<and>
   approved (exec (partial_fill_program demo_hash) pf_create_again fresh) \<and>
   kv_get (global_state (commit (partial_fill_program demo_hash) pf_create_again fresh)) ''timelock'' =
     Uint 12288"
proof -
  let ?B = "htlc_bridge_contract demo_hash"
  let ?t1 = "bridge_create_sample [CHR 0x03, CHR 0xE8] [CHR 0x20, CHR 0x08]"
  let ?t2 = "bridge_create_sample [CHR 0x03, CHR 0xE8] [CHR 0x04, CHR 0x4C]"
  let ?t3 = "short_create_sample [CHR 0x03, CHR 0xE8] [CHR 0x01]"
  have in1: "timelock_in_bounds ?t1 3600 86400 8200"
    and out2: "\<not> timelock_in_bounds ?t2 3600 86400 1100"
    by (simp_all add: timelock_in_bounds_def sample_args)
  have ap1: "approved (exec ?B ?t1 bridge_fresh)"
    using bridge_create_ok [of ?t1 bridge_fresh "''C''" 3600 86400 demo_hash] in1
    by (simp add: sample_calls sample_args sample_numbers bridge_fresh_reads)
  have bc: "bridge_create_call ?t1" using sample_calls(1) by (simp add: bridge_create_wf_def)
  from timelock_bounds_in_full_bridge_only [of ?t1 demo_hash bridge_fresh] bc ap1
  have 1: "timelock_in_bounds ?t1 3600 86400 8200"
    by (auto simp: bridge_fresh_reads sample_args sample_numbers)
  from timelock_bounds_in_full_bridge_only [of ?t2 demo_hash bridge_fresh "''C''" 3600 86400] out2
  have 2: "halted (exec ?B ?t2 bridge_fresh) = Some (Failed InvalidTimelock)"
    by (simp add: sample_calls sample_args sample_numbers bridge_fresh_reads)
  from timelock_bounds_in_full_bridge_only [of ?t3 demo_hash fresh]
  have 3: "approved (exec (htlc_algo_to_eth demo_hash) ?t3 fresh)"
    "approved (exec (htlc_eth_to_algo demo_hash) ?t3 fresh)"
    by (simp_all add: sample_calls sample_args sample_numbers bridge_fresh_reads)
  from timelock_bounds_in_full_bridge_only [of pf_create_again demo_hash fresh]
  have 4: "approved (exec (partial_fill_program demo_hash) pf_create_again fresh)"
    "kv_get (global_state (commit (partial_fill_program demo_hash) pf_create_again fresh)) ''timelock'' =
     Uint 12288"
    by (simp_all add: sample_calls sample_args sample_numbers)
  from ap1 1 2 3 4 show ?thesis by simp
qed

text \<open>At clock reading 1000 the ALGO-to-ETH bridge approves a create whose timelock is 1, stores
  the record and takes the escrow payment.\<close>

theorem stale_timelock_accepted_counterexample:
  "latest_timestamp (short_create_sample [CHR 0x03, CHR 0xE8] [CHR 0x01]) = 1000 \<and>
   approved (exec (htlc_algo_to_eth demo_hash) (short_create_sample [CHR 0x03, CHR 0xE8] [CHR 0x01]) fresh) \<and>
   rec_get (commit (htlc_algo_to_eth demo_hash) (short_create_sample [CHR 0x03, CHR 0xE8] [CHR 0x01]) fresh)
     ''A'' ''Timelock'' = Uint 1 \<and>
   issued (htlc_algo_to_eth demo_hash) (short_create_sample [CHR 0x03, CHR 0xE8] [CHR 0x01]) fresh =
     [Pay (Uint 1000) (Bytes ''APP'')]"
proof -
  let ?t = "short_create_sample [CHR 0x03, CHR 0xE8] [CHR 0x01]"
  have sc: "short_create_call ?t" using sample_calls(4) by (simp add: short_create_wf_def)
  have ap: "approved (exec (htlc_algo_to_eth demo_hash) ?t fresh)"
    using short_create_ok(1) [of ?t fresh demo_hash]
    by (simp add: sample_calls sample_args sample_numbers bridge_fresh_reads)
  have ad: "current_application_address ?t = ''APP''"
    by (simp add: short_create_sample_def app_call_def)
  show ?thesis
    using ap a2e_create_inv(8) [OF sc ap] a2e_create_inv(12) [OF sc ap]
    by (simp add: sample_args sample_numbers ad)
qed

lemma pf_claimed_reads:
  "kv_get (global_state (run (partial_fill_program demo_hash) pf_claimed_setup fresh)) ''executed'' = Uint 1"
  "kv_get (global_state (run (partial_fill_program demo_hash) pf_claimed_setup fresh)) ''refunded'' = Uint 0"
  "kv_get (global_state (run (partial_fill_program demo_hash) pf_claimed_setup fresh)) ''total_deposited'' = Uint 10"
  "kv_get (global_state (run (partial_fill_program demo_hash) pf_claimed_setup fresh)) ''total_filled'' = Uint 0"
  "kv_get (global_state (run (partial_fill_program demo_hash) pf_claimed_setup fresh)) ''remaining_amount'' = Uint 10"
  "kv_get (global_state (run (partial_fill_program demo_hash) pf_claimed_setup fresh)) ''hashlock'' = Bytes (demo_hash ''abc'')"
proof -
  let ?P = "partial_fill_program demo_hash"
  let ?s0 = "run ?P pf_setup fresh"
  let ?d1 = "app_call ''M'' [''deposit'', [CHR 0x0A]] 1000"
  let ?c1 = "app_call ''X'' [''public_claim'', ''abc''] 1001"
  have calls: "deposit_call ?d1" "claim_call ?c1"
    by (simp_all add: deposit_call_def claim_call_def app_call_def)
  have amounts: "deposit_amount ?d1 = 10"
    by (simp_all add: deposit_amount_def app_call_def btoi_def)
  have args: "application_args ?c1 ! Suc 0 = ''abc''"
    by (simp_all add: app_call_def)
  have s1: "commit ?P ?d1 ?s0 = ?s0\<lparr>global_state := (global_state ?s0)
      (''total_deposited'' \<mapsto> Uint 10, ''remaining_amount'' \<mapsto> Uint 10)\<rparr>"
    using deposit_commit(2) [OF calls(1), of ?s0 0 demo_hash] by (simp add: pf_setup_reads amounts)
  let ?s1 = "commit ?P ?d1 ?s0"
  have r1: "kv_get (global_state ?s1) ''executed'' = Uint 0"
    "kv_get (global_state ?s1) ''refunded'' = Uint 0"
    "kv_get (global_state ?s1) ''hashlock'' = Bytes (demo_hash ''abc'')"
    "kv_get (global_state ?s1) ''total_deposited'' = Uint 10"
    "kv_get (global_state ?s1) ''total_filled'' = Uint 0"
    "kv_get (global_state ?s1) ''remaining_amount'' = Uint 10"
    using pf_setup_reads unfolding s1 by (simp_all add: kv_get_def)
  have s4: "commit ?P ?c1 ?s1 = ?s1\<lparr>global_state := (global_state ?s1)(''executed'' \<mapsto> Uint 1)\<rparr>"
    using claim_commit(2) [OF calls(2), of ?s1 demo_hash] by (simp add: r1 args)
  let ?s4 = "commit ?P ?c1 ?s1"
  have r4: "kv_get (global_state ?s4) ''executed'' = Uint 1"
    "kv_get (global_state ?s4) ''refunded'' = Uint 0"
    "kv_get (global_state ?s4) ''total_deposited'' = Uint 10"
    "kv_get (global_state ?s4) ''total_filled'' = Uint 0"
    "kv_get (global_state ?s4) ''remaining_amount'' = Uint 10"
    "kv_get (global_state ?s4) ''hashlock'' = Bytes (demo_hash ''abc'')"
    using r1 unfolding s4 by (simp_all add: kv_get_def)
  have run2: "run ?P pf_claimed_setup fresh = ?s4"
    by (simp add: pf_claimed_setup_def run_append)
  show "kv_get (global_state (run ?P pf_claimed_setup fresh)) ''executed'' = Uint 1"
    "kv_get (global_state (run ?P pf_claimed_setup fresh)) ''refunded'' = Uint 0"
    "kv_get (global_state (run ?P pf_claimed_setup fresh)) ''total_deposited'' = Uint 10"
    "kv_get (global_state (run ?P pf_claimed_setup fresh)) ''total_filled'' = Uint 0"
    "kv_get (global_state (run ?P pf_claimed_setup fresh)) ''remaining_amount'' = Uint 10"
    "kv_get (global_state (run ?P pf_claimed_setup fresh)) ''hashlock'' = Bytes (demo_hash ''abc'')"
    unfolding run2 using r4 by simp_all
qed







end
